(* ===== verification/Prelude.thy ===== *)
theory Prelude
  imports Main
begin

text \<open>
  What every component of the model shares: Go's way of returning errors and of panicking,
  maps that may be nil, the order in which a map is ranged over, the interface of the keyed
  stores the components keep, and transition systems with their reachable states.

  \<^item> An \<open>error\<close> of the source is its message; a function that returns \<open>error\<close> returns
    \<open>error option\<close> here, \<open>None\<close> standing for nil.
  \<^item> A panic of the Go run time is the value \<open>Panic p\<close>; a function that can panic
    returns an \<open>outcome\<close>.
  \<^item> A map that the code may leave nil is a \<open>gomap\<close>: reading it finds nothing, writing
    it panics. A map that a constructor makes and nothing sets to nil is a plain
    partial function.
\<close>

named_theorems model_defs \<open>definitions of the operations, for unfolding\<close>
named_theorems frame \<open>what an operation leaves alone\<close>

section \<open>Errors and panics\<close>

type_synonym error = string

datatype panic =
    NilMapWrite
  | NilDereference
  | UncomparableTypes
  | IndexOutOfRange
  | FailedTypeAssertion
  | ExplicitPanic

datatype 'a outcome = Ret 'a | Panic panic

fun bind_outcome :: "'a outcome \<Rightarrow> ('a \<Rightarrow> 'b outcome) \<Rightarrow> 'b outcome" where
  "bind_outcome (Ret x) f = f x"
| "bind_outcome (Panic p) f = Panic p"

fun map_outcome :: "('a \<Rightarrow> 'b) \<Rightarrow> 'a outcome \<Rightarrow> 'b outcome" where
  "map_outcome f (Ret x) = Ret (f x)"
| "map_outcome f (Panic p) = Panic p"

lemma bind_outcome_Ret_iff:
  "bind_outcome m f = Ret y \<longleftrightarrow> (\<exists>x. m = Ret x \<and> f x = Ret y)"
  by (cases m) auto

lemma map_outcome_Ret_iff: "map_outcome f m = Ret y \<longleftrightarrow> (\<exists>x. m = Ret x \<and> y = f x)"
  by (cases m) auto

lemma map_outcome_Panic_iff [simp]: "map_outcome f m = Panic p \<longleftrightarrow> m = Panic p"
  by (cases m) auto

lemma bind_outcome_assoc:
  "bind_outcome (bind_outcome m f) g = bind_outcome m (\<lambda>x. bind_outcome (f x) g)"
  by (cases m) auto

section \<open>Maps that may be nil\<close>

type_synonym 'v gomap = "(string \<rightharpoonup> 'v) option"

definition gomap_get :: "'v gomap \<Rightarrow> string \<Rightarrow> 'v option" where
  "gomap_get m k = (case m of None \<Rightarrow> None | Some f \<Rightarrow> f k)"

definition gomap_set :: "'v gomap \<Rightarrow> string \<Rightarrow> 'v \<Rightarrow> 'v gomap outcome" where
  "gomap_set m k v = (case m of None \<Rightarrow> Panic NilMapWrite | Some f \<Rightarrow> Ret (Some (f(k \<mapsto> v))))"

lemma gomap_get_nil [simp]: "gomap_get None k = None"
  by (simp add: gomap_get_def)

lemma gomap_get_Some [simp]: "gomap_get (Some f) k = f k"
  by (simp add: gomap_get_def)

lemma gomap_set_nil [simp]: "gomap_set None k v = Panic NilMapWrite"
  by (simp add: gomap_set_def)

lemma gomap_set_Some [simp]: "gomap_set (Some f) k v = Ret (Some (f(k \<mapsto> v)))"
  by (simp add: gomap_set_def)

lemma gomap_get_set:
  "gomap_set m k v = Ret m' \<Longrightarrow> gomap_get m' k' = (if k' = k then Some v else gomap_get m k')"
  by (cases m) auto

text \<open>A map of pointers yields nil both for a missing key and for a stored nil.\<close>

definition ptr_get :: "'v option gomap \<Rightarrow> string \<Rightarrow> 'v option" where
  "ptr_get m k = (case gomap_get m k of None \<Rightarrow> None | Some p \<Rightarrow> p)"

lemma ptr_get_nil [simp]: "ptr_get None k = None"
  by (simp add: ptr_get_def)

lemma ptr_get_update [simp]:
  "ptr_get (Some (f(k \<mapsto> p))) k' = (if k' = k then p else ptr_get (Some f) k')"
  by (simp add: ptr_get_def)

lemma ptr_get_SomeD: "ptr_get m k = Some v \<Longrightarrow> gomap_get m k = Some (Some v)"
  by (auto simp: ptr_get_def split: option.splits)

text \<open>
  \<open>for k, v := range m\<close> visits every key once, in an order Go leaves open. The order is
  an argument of the model: a list of the keys.
\<close>

definition range_order :: "(string \<rightharpoonup> 'v) \<Rightarrow> string list \<Rightarrow> bool" where
  "range_order m ks \<longleftrightarrow> distinct ks \<and> set ks = dom m"

lemma range_order_empty [simp]: "range_order (\<lambda>_. None) ks \<longleftrightarrow> ks = []"
  by (auto simp: range_order_def)

lemma range_orderD: "range_order m ks \<Longrightarrow> k \<in> set ks \<Longrightarrow> \<exists>v. m k = Some v"
  by (auto simp: range_order_def)

section \<open>Keyed stores\<close>

text \<open>
  The interface every table of the program offers its clients: the affordances of a TD, the
  TD documents of a store, the value store of a thing, the handlers of an exposed thing, the
  subscriptions of the MQTT client. \<open>ok\<close> is the state in which the table can be written
  (the map is not nil); \<open>look\<close> is what the source's read returns.
\<close>

locale keyed_store =
  fixes look :: "'s \<Rightarrow> string \<Rightarrow> 'v option"
    and put :: "string \<Rightarrow> 'v \<Rightarrow> 's \<Rightarrow> 's outcome"
    and ok :: "'s \<Rightarrow> bool"
  assumes put_returns: "ok s \<Longrightarrow> \<exists>s'. put k v s = Ret s'"
    and ok_put: "ok s \<Longrightarrow> put k v s = Ret s' \<Longrightarrow> ok s'"
    and look_put: "ok s \<Longrightarrow> put k v s = Ret s' \<Longrightarrow> look s' k' = (if k' = k then Some v else look s k')"
begin

lemma look_put_same: "ok s \<Longrightarrow> put k v s = Ret s' \<Longrightarrow> look s' k = Some v"
  by (simp add: look_put)

lemma look_put_other: "ok s \<Longrightarrow> put k v s = Ret s' \<Longrightarrow> k' \<noteq> k \<Longrightarrow> look s' k' = look s k'"
  by (simp add: look_put)

lemma put_twice:
  assumes "ok s" and "put k v s = Ret s1" and "put k w s1 = Ret s2"
  shows "look s2 k = Some w" and "k' \<noteq> k \<Longrightarrow> look s2 k' = look s k'"
  using look_put [OF ok_put [OF assms(1,2)] assms(3)] look_put [OF assms(1,2)] by auto

lemma put_commute:
  assumes "ok s" and "k \<noteq> l"
    and "put k v s = Ret s1" and "put l w s1 = Ret s2"
    and "put l w s = Ret t1" and "put k v t1 = Ret t2"
  shows "look s2 x = look t2 x"
  using assms ok_put [OF assms(1,3)] ok_put [OF assms(1,5)] by (auto simp: look_put)

end

text \<open>A history of writes, replayed in order.\<close>

fun put_all :: "(string \<Rightarrow> 'v \<Rightarrow> 's \<Rightarrow> 's outcome) \<Rightarrow> (string \<times> 'v) list \<Rightarrow> 's \<Rightarrow> 's outcome" where
  "put_all put [] s = Ret s"
| "put_all put ((k, v) # kvs) s = bind_outcome (put k v s) (put_all put kvs)"

context keyed_store
begin

lemma put_all_ok: "ok s \<Longrightarrow> \<exists>s'. put_all put kvs s = Ret s' \<and> ok s'"
proof (induction kvs arbitrary: s)
  case Nil
  then show ?case by simp
next
  case (Cons kv kvs)
  obtain k v where kv: "kv = (k, v)" by (cases kv)
  from Cons.prems obtain s1 where s1: "put k v s = Ret s1" using put_returns by blast
  with Cons.prems have "ok s1" by (rule ok_put)
  from Cons.IH [OF this] s1 kv show ?case by simp
qed

lemma put_all_look:
  "ok s \<Longrightarrow> put_all put kvs s = Ret s' \<Longrightarrow>
     look s' k = (case map_of (rev kvs) k of Some v \<Rightarrow> Some v | None \<Rightarrow> look s k)"
proof (induction kvs arbitrary: s)
  case Nil
  then show ?case by simp
next
  case (Cons kv kvs)
  obtain l v where kv: "kv = (l, v)" by (cases kv)
  from Cons.prems(2) kv obtain s1 where s1: "put l v s = Ret s1" "put_all put kvs s1 = Ret s'"
    by (auto simp: bind_outcome_Ret_iff)
  from Cons.prems(1) s1(1) have "ok s1" by (rule ok_put)
  from Cons.IH [OF this s1(2)] show ?case
    using look_put [OF Cons.prems(1) s1(1)] by (auto simp: kv map_add_def split: option.splits)
qed

lemma put_all_frame:
  "ok s \<Longrightarrow> put_all put kvs s = Ret s' \<Longrightarrow> k \<notin> fst ` set kvs \<Longrightarrow> look s' k = look s k"
  by (auto simp: put_all_look map_of_eq_None_iff [THEN iffD2] image_iff)

end

section \<open>Transition systems\<close>

inductive reachable :: "('s \<Rightarrow> bool) \<Rightarrow> ('s \<Rightarrow> 's \<Rightarrow> bool) \<Rightarrow> 's \<Rightarrow> bool" for init step where
  reach_init: "init s \<Longrightarrow> reachable init step s"
| reach_step: "reachable init step s \<Longrightarrow> step s t \<Longrightarrow> reachable init step t"

locale transition_system =
  fixes init :: "'s \<Rightarrow> bool"
    and step :: "'s \<Rightarrow> 's \<Rightarrow> bool"
    and Inv :: "'s \<Rightarrow> bool"
  assumes inv_init: "init s \<Longrightarrow> Inv s"
    and inv_step: "Inv s \<Longrightarrow> step s t \<Longrightarrow> Inv t"
begin

lemma reachable_inv: "reachable init step s \<Longrightarrow> Inv s"
  by (induction rule: reachable.induct) (auto intro: inv_init inv_step)

end

text \<open>
  A system that runs out of work: each step leaves less of it, changes nothing of what is to come out of it in the end, and there is a step
  as long as it is not quiet. Then every run comes to a quiet state, whichever steps it takes, and all of them with the same outcome.
\<close>

locale settling =
  fixes step :: "'s \<Rightarrow> 's \<Rightarrow> bool"
    and Inv :: "'s \<Rightarrow> bool"
    and quiet :: "'s \<Rightarrow> bool"
    and work :: "'s \<Rightarrow> nat \<times> nat"
    and outlook :: "'s \<Rightarrow> 'v"
  assumes step_inv: "Inv s \<Longrightarrow> step s t \<Longrightarrow> Inv t"
    and step_work: "Inv s \<Longrightarrow> step s t \<Longrightarrow> (work t, work s) \<in> less_than <*lex*> less_than"
    and step_outlook: "Inv s \<Longrightarrow> step s t \<Longrightarrow> outlook t = outlook s"
    and step_enabled: "Inv s \<Longrightarrow> \<not> quiet s \<Longrightarrow> \<exists>t. step s t"
begin

lemma run_keeps: "step\<^sup>*\<^sup>* s t \<Longrightarrow> Inv s \<Longrightarrow> Inv t \<and> outlook t = outlook s"
  by (induction rule: rtranclp_induct) (auto dest: step_inv step_outlook)

lemma run_ends:
  assumes "Inv s"
  shows "\<exists>t. step\<^sup>*\<^sup>* s t \<and> quiet t"
proof -
  have "wf (inv_image (less_than <*lex*> less_than) work)" by auto
  then show ?thesis using assms
  proof (induction s rule: wf_induct_rule)
    case (less s)
    show ?case
    proof (cases "quiet s")
      case False
      with less.prems obtain t where t: "step s t" using step_enabled by blast
      with less.prems have "(t, s) \<in> inv_image (less_than <*lex*> less_than) work" "Inv t"
        using step_work step_inv by auto
      with less.IH t show ?thesis by (meson converse_rtranclp_into_rtranclp)
    qed blast
  qed
qed

lemma no_endless_run:
  assumes "Inv (f 0)"
  shows "\<exists>k. \<not> step (f k) (f (Suc k))"
proof (rule ccontr)
  assume "\<nexists>k. \<not> step (f k) (f (Suc k))"
  then have s: "step (f k) (f (Suc k))" for k by blast
  have "Inv (f k)" for k by (induction k) (use assms s step_inv in blast)+
  with s have "(f (Suc k), f k) \<in> inv_image (less_than <*lex*> less_than) work" for k using step_work by simp
  moreover have "wf (inv_image (less_than <*lex*> less_than) work)" by auto
  ultimately show False unfolding wf_iff_no_infinite_down_chain by blast
qed

end

end
