(* ===== verification/GoStrings.thy ===== *)
theory GoStrings
  imports Prelude "HOL-Library.Char_ord" "HOL-Library.List_Lexorder" "HOL-Library.Sublist"
begin

text \<open>
  The functions of Go's \<open>strings\<close> and \<open>strconv\<close> packages the program calls, on byte
  strings: Go's strings are byte sequences, and so is a list of 8-bit characters.

  Split and Join are defined for a separator of one byte, the only kind the source uses.
\<close>

abbreviation apostrophe :: string where "apostrophe \<equiv> [CHR 0x27]"

section \<open>Split and Join\<close>

fun split_on :: "char \<Rightarrow> string \<Rightarrow> string list" where
  "split_on c [] = [[]]"
| "split_on c (x # xs) =
     (if x = c then [] # split_on c xs
      else case split_on c xs of [] \<Rightarrow> [[x]] | y # ys \<Rightarrow> (x # y) # ys)"

fun join_with :: "char \<Rightarrow> string list \<Rightarrow> string" where
  "join_with c [] = []"
| "join_with c [x] = x"
| "join_with c (x # y # ys) = x @ c # join_with c (y # ys)"

lemma split_on_ne [simp]: "split_on c s \<noteq> []"
  by (cases s) (auto split: list.splits)

lemma split_on_no_sep: "c \<notin> set s \<Longrightarrow> split_on c s = [s]"
  by (induction s) auto

lemma split_on_sep: "c \<notin> set a \<Longrightarrow> split_on c (a @ c # b) = a # split_on c b"
  by (induction a) auto

lemma split_on_append:
  "split_on c (a @ b) = butlast (split_on c a) @ (last (split_on c a) @ hd (split_on c b)) # tl (split_on c b)"
proof (induction a)
  case Nil
  then show ?case by simp
next
  case (Cons x a)
  obtain y ys where "split_on c a = y # ys" by (meson split_on_ne neq_Nil_conv)
  with Cons show ?case by (cases ys) auto
qed

lemma length_split_on: "length (split_on c s) = Suc (count_list s c)"
  by (induction s) (auto split: list.splits)

lemma join_split_on [simp]: "join_with c (split_on c s) = s"
proof (induction s)
  case Nil
  then show ?case by simp
next
  case (Cons x s)
  obtain y ys where "split_on c s = y # ys" by (meson split_on_ne neq_Nil_conv)
  with Cons show ?case by (cases ys) auto
qed

lemma split_join_with:
  "xs \<noteq> [] \<Longrightarrow> \<forall>x \<in> set xs. c \<notin> set x \<Longrightarrow> split_on c (join_with c xs) = xs"
  by (induction c xs rule: join_with.induct) (auto simp: split_on_no_sep split_on_sep)

lemma split_on_parts_no_sep: "p \<in> set (split_on c s) \<Longrightarrow> c \<notin> set p"
  by (induction s arbitrary: p) (auto split: if_splits list.splits)

lemma split_on_append_sep:
  "split_on c (a @ c # b) = split_on c a @ split_on c b"
  by (induction a) (auto split: list.splits)

lemma split_on_parts_subset: "x \<in> set (split_on c s) \<Longrightarrow> set x \<subseteq> set s"
proof -
  have "\<forall>x \<in> set (split_on c s). set x \<subseteq> set s" by (induction s) (auto split: list.splits)
  then show "x \<in> set (split_on c s) \<Longrightarrow> set x \<subseteq> set s" by blast
qed

lemma join_with_append:
  "xs \<noteq> [] \<Longrightarrow> ys \<noteq> [] \<Longrightarrow> join_with c (xs @ ys) = join_with c xs @ c # join_with c ys"
proof (induction c xs rule: join_with.induct)
  case (2 c x)
  then show ?case by (cases ys) simp_all
qed simp_all

section \<open>Prefixes, substrings, replacement\<close>

fun strip_prefix :: "string \<Rightarrow> string \<Rightarrow> string option" where
  "strip_prefix [] s = Some s"
| "strip_prefix (p # ps) [] = None"
| "strip_prefix (p # ps) (x # xs) = (if p = x then strip_prefix ps xs else None)"

definition has_prefix :: "string \<Rightarrow> string \<Rightarrow> bool" where
  "has_prefix s p \<longleftrightarrow> strip_prefix p s \<noteq> None"

fun contains_str :: "string \<Rightarrow> string \<Rightarrow> bool" where
  "contains_str [] p = (p = [])"
| "contains_str (x # xs) p = (has_prefix (x # xs) p \<or> contains_str xs p)"

lemma strip_prefix_Some_iff: "strip_prefix p s = Some r \<longleftrightarrow> s = p @ r"
  by (induction p s rule: strip_prefix.induct) auto

lemma strip_prefix_append [simp]: "strip_prefix p (p @ r) = Some r"
  by (simp add: strip_prefix_Some_iff)

lemma has_prefix_iff: "has_prefix s p \<longleftrightarrow> (\<exists>r. s = p @ r)"
  by (auto simp: has_prefix_def strip_prefix_Some_iff)

lemma contains_str_iff: "contains_str s p \<longleftrightarrow> (\<exists>a b. s = a @ p @ b)"
proof (induction s)
  case Nil
  then show ?case by auto
next
  case (Cons x s)
  have "(\<exists>a b. x # s = a @ p @ b) \<longleftrightarrow> (\<exists>b. x # s = p @ b) \<or> (\<exists>a b. s = a @ p @ b)"
    (is "?l \<longleftrightarrow> ?r")
  proof
    assume ?l
    then obtain a b where "x # s = a @ p @ b" by blast
    then show ?r by (cases a) auto
  next
    assume ?r
    then show ?l
    proof
      assume "\<exists>b. x # s = p @ b"
      then obtain b where "x # s = [] @ p @ b" by auto
      then show ?l by blast
    next
      assume "\<exists>a b. s = a @ p @ b"
      then obtain a b where "s = a @ p @ b" by blast
      then have "x # s = (x # a) @ p @ b" by simp
      then show ?l by blast
    qed
  qed
  with Cons show ?case by (simp add: has_prefix_iff)
qed

text \<open>
  \<open>strings.ReplaceAll(s, old, new)\<close> for a non-empty \<open>old\<close>: the leftmost occurrence is
  replaced and the search goes on behind it, so a replacement is never searched again.
\<close>

function replace_ne :: "string \<Rightarrow> string \<Rightarrow> string \<Rightarrow> string" where
  "replace_ne old new s =
     (case s of
        [] \<Rightarrow> []
      | x # xs \<Rightarrow>
          (case strip_prefix old s of
             Some r \<Rightarrow> if old = [] then s else new @ replace_ne old new r
           | None \<Rightarrow> x # replace_ne old new xs))"
  by pat_completeness auto
termination
  by (relation "measure (\<lambda>(old, new, s). length s)") (auto simp: strip_prefix_Some_iff)

declare replace_ne.simps [simp del]

text \<open>
  For an empty \<open>old\<close> Go inserts \<open>new\<close> at the start and after every UTF-8 sequence; a byte
  that starts no valid sequence counts as a sequence of one byte.
\<close>

definition cont_byte :: "char \<Rightarrow> bool" where
  "cont_byte c \<longleftrightarrow> (128 :: nat) \<le> of_char c \<and> of_char c < (192 :: nat)"

definition rune_len :: "string \<Rightarrow> nat" where
  "rune_len s =
     (case s of
        [] \<Rightarrow> 0
      | a # r \<Rightarrow>
         (let n = (of_char a :: nat);
              b = (case r of [] \<Rightarrow> 0 | x # _ \<Rightarrow> (of_char x :: nat));
              cont = (\<lambda>k. length r \<ge> k \<and> list_all cont_byte (take k r))
          in if 194 \<le> n \<and> n \<le> 223 \<and> cont 1 then 2
             else if 224 \<le> n \<and> n \<le> 239 \<and> cont 2 \<and> (n = 224 \<longrightarrow> 160 \<le> b) \<and> (n = 237 \<longrightarrow> b \<le> 159) then 3
             else if 240 \<le> n \<and> n \<le> 244 \<and> cont 3 \<and> (n = 240 \<longrightarrow> 144 \<le> b) \<and> (n = 244 \<longrightarrow> b \<le> 143) then 4
             else 1))"

lemma rune_len_pos: "s \<noteq> [] \<Longrightarrow> 0 < rune_len s"
  by (auto simp: rune_len_def Let_def split: list.splits)

function insert_between :: "string \<Rightarrow> string \<Rightarrow> string" where
  "insert_between new s =
     (if s = [] then new
      else new @ take (rune_len s) s @ insert_between new (drop (rune_len s) s))"
  by pat_completeness auto
termination
  by (relation "measure (\<lambda>(new, s). length s)") (auto simp: rune_len_pos)

declare insert_between.simps [simp del]

definition replace_all :: "string \<Rightarrow> string \<Rightarrow> string \<Rightarrow> string" where
  "replace_all s old new = (if old = [] then insert_between new s else replace_ne old new s)"

lemma replace_ne_Nil [simp]: "replace_ne old new [] = []"
  by (simp add: replace_ne.simps)

lemma replace_ne_hit:
  assumes "old \<noteq> []"
  shows "replace_ne old new (old @ r) = new @ replace_ne old new r"
proof -
  from assms obtain x xs where x: "old @ r = x # xs" by (cases "old @ r") auto
  with strip_prefix_append [of old r] have "strip_prefix old (x # xs) = Some r" by simp
  with assms show ?thesis by (simp add: x replace_ne.simps [of old new "x # xs"])
qed

lemma replace_ne_miss:
  "strip_prefix old (x # xs) = None \<Longrightarrow> replace_ne old new (x # xs) = x # replace_ne old new xs"
  by (simp add: replace_ne.simps [of old new "x # xs"])

lemma replace_ne_absent: "\<not> contains_str s old \<Longrightarrow> replace_ne old new s = s"
proof (induction s)
  case Nil
  then show ?case by simp
next
  case (Cons x s)
  then have "strip_prefix old (x # s) = None" by (auto simp: has_prefix_def)
  with Cons show ?case by (simp add: replace_ne_miss)
qed

text \<open>A piece of text that has no byte of the first byte of \<open>old\<close> is copied as it is.\<close>

lemma replace_ne_skip:
  "hd old \<notin> set a \<Longrightarrow> old \<noteq> [] \<Longrightarrow> replace_ne old new (a @ s) = a @ replace_ne old new s"
proof (induction a)
  case Nil
  then show ?case by simp
next
  case (Cons x a)
  then have "strip_prefix old (x # a @ s) = None" by (cases old) auto
  with Cons show ?case by (simp add: replace_ne_miss)
qed

section \<open>Lower case\<close>

definition lower_ascii :: "char \<Rightarrow> char" where
  "lower_ascii c = (let n = (of_char c :: nat) in if 65 \<le> n \<and> n \<le> 90 then char_of (n + 32) else c)"

text \<open>
  \<open>strings.ToLower\<close>. Two characters outside ASCII have a lower case inside ASCII: U+0130
  (bytes C4 B0) goes to \<open>i\<close> and U+212A (bytes E2 84 AA) to \<open>k\<close>. The other characters
  outside ASCII are kept: their lower case is outside ASCII too, and the source only compares
  the result with ASCII words.
\<close>

definition lower_special :: "string \<Rightarrow> (char \<times> string) option" where
  "lower_special s =
     (case strip_prefix [CHR 0xC4, CHR 0xB0] s of
        Some r \<Rightarrow> Some (CHR ''i'', r)
      | None \<Rightarrow> map_option (Pair (CHR ''k''))
                  (strip_prefix [CHR 0xE2, CHR 0x84, CHR 0xAA] s))"

lemma lower_special_shorter: "lower_special s = Some (c, r) \<Longrightarrow> length r < length s"
  by (auto simp: lower_special_def strip_prefix_Some_iff split: option.splits)

function to_lower :: "string \<Rightarrow> string" where
  "to_lower [] = []"
| "to_lower (c # s) =
     (case lower_special (c # s) of
        Some (l, r) \<Rightarrow> l # to_lower r
      | None \<Rightarrow> lower_ascii c # to_lower s)"
  by pat_completeness auto
termination
  by (relation "measure length") (auto dest!: lower_special_shorter)

section \<open>Decimal numbers\<close>

declare to_lower.simps [simp del]

definition digit_char :: "nat \<Rightarrow> char" where
  "digit_char d = char_of (48 + d)"

definition digit_val :: "char \<Rightarrow> nat option" where
  "digit_val c = (let n = (of_char c :: nat) in if 48 \<le> n \<and> n \<le> 57 then Some (n - 48) else None)"

fun show_nat :: "nat \<Rightarrow> string" where
  "show_nat n = (if n < 10 then [digit_char n] else show_nat (n div 10) @ [digit_char (n mod 10)])"

declare show_nat.simps [simp del]

text \<open>\<open>%d\<close>, \<open>strconv.Itoa\<close>\<close>

definition show_int :: "int \<Rightarrow> string" where
  "show_int i = (if i < 0 then CHR ''-'' # show_nat (nat (- i)) else show_nat (nat i))"

fun read_digits :: "nat \<Rightarrow> string \<Rightarrow> nat option" where
  "read_digits n [] = Some n"
| "read_digits n (c # s) = (case digit_val c of None \<Rightarrow> None | Some d \<Rightarrow> read_digits (10 * n + d) s)"

definition read_nat :: "string \<Rightarrow> nat option" where
  "read_nat s = (if s = [] then None else read_digits 0 s)"

lemma digit_val_char [simp]: "d < 10 \<Longrightarrow> digit_val (digit_char d) = Some d"
  by (simp add: digit_val_def digit_char_def Let_def)

lemma read_digits_append:
  "read_digits n (s @ t) = (case read_digits n s of None \<Rightarrow> None | Some m \<Rightarrow> read_digits m t)"
  by (induction s arbitrary: n) (auto split: option.splits)

lemma show_nat_ne [simp]: "show_nat n \<noteq> []"
  by (simp add: show_nat.simps [of n])

lemma read_digits_show: "read_digits 0 (show_nat n) = Some n"
proof (induction n rule: show_nat.induct)
  case (1 n)
  then show ?case
    by (cases "n < 10") (simp_all add: show_nat.simps [of n] read_digits_append)
qed

lemma read_show_nat [simp]: "read_nat (show_nat n) = Some n"
  by (simp add: read_nat_def read_digits_show)

lemma digit_val_Some_set: "digit_val c = Some d \<Longrightarrow> d < 10"
  by (auto simp: digit_val_def Let_def split: if_splits)

lemma show_nat_digits: "c \<in> set (show_nat n) \<Longrightarrow> \<exists>d < 10. c = digit_char d"
proof (induction n arbitrary: c rule: show_nat.induct)
  case (1 n)
  then show ?case
    by (cases "n < 10") (auto simp: show_nat.simps [of n] intro: exI [of _ "n mod 10"])
qed

lemma show_nat_no_minus: "hd (show_nat n) \<noteq> CHR ''-''" "hd (show_nat n) \<noteq> CHR ''+''"
proof -
  obtain d where d: "d < 10" "hd (show_nat n) = digit_char d"
    using show_nat_digits [of "hd (show_nat n)" n] by auto
  then have "digit_val (hd (show_nat n)) \<noteq> None" by simp
  then show "hd (show_nat n) \<noteq> CHR ''-''" "hd (show_nat n) \<noteq> CHR ''+''"
    by (auto simp: digit_val_def Let_def)
qed

text \<open>
  \<open>strconv.ParseInt(s, 10, bits)\<close>: the value and the error; a syntax error gives 0, a
  number out of range gives the nearest bound together with the error.
\<close>

datatype num_error = ErrSyntax | ErrRange

definition parse_int :: "nat \<Rightarrow> string \<Rightarrow> int \<times> num_error option" where
  "parse_int bits s =
     (case (case s of
              [] \<Rightarrow> None
            | c # r \<Rightarrow>
                if c = CHR ''-'' then map_option (\<lambda>n. - int n) (read_nat r)
                else if c = CHR ''+'' then map_option int (read_nat r)
                else map_option int (read_nat s)) of
        None \<Rightarrow> (0, Some ErrSyntax)
      | Some i \<Rightarrow>
          if i < - (2 ^ (bits - 1)) then (- (2 ^ (bits - 1)), Some ErrRange)
          else if 2 ^ (bits - 1) \<le> i then (2 ^ (bits - 1) - 1, Some ErrRange)
          else (i, None))"

lemma parse_int_show:
  assumes "- (2 ^ (bits - 1)) \<le> i" and "i < 2 ^ (bits - 1)"
  shows "parse_int bits (show_int i) = (i, None)"
proof (cases "i < 0")
  case True
  with assms show ?thesis by (simp add: parse_int_def show_int_def)
next
  case False
  obtain c r where cr: "show_nat (nat i) = c # r" by (meson show_nat_ne neq_Nil_conv)
  with show_nat_no_minus [of "nat i"] have "c \<noteq> CHR ''-''" "c \<noteq> CHR ''+''" by auto
  with False assms cr read_show_nat [of "nat i"] show ?thesis
    by (simp add: parse_int_def show_int_def)
qed

lemma parse_int_range: "- (2 ^ (bits - 1)) \<le> fst (parse_int bits s) \<and> fst (parse_int bits s) < 2 ^ (bits - 1)"
  by (auto simp: parse_int_def split: option.splits)

lemma parse_int_syntax_zero: "snd (parse_int bits s) = Some ErrSyntax \<Longrightarrow> fst (parse_int bits s) = 0"
  by (auto simp: parse_int_def split: option.splits if_splits)

end
