(* ===== verification/ThingID.thy ===== *)
theory ThingID
  imports GoStrings
begin

text \<open>
  Thing IDs (\<open>pkg/thing/thingid.go\<close>): how the zone, the publisher, the device and the device
  type are put into one colon separated name and taken out again.
\<close>

record thing_id_parts =
  tid_zone :: string
  tid_publisher :: string
  tid_device :: string
  tid_type :: string

definition zone_or_local :: "string \<Rightarrow> string" where
  "zone_or_local zone = (if zone = [] then ''local'' else zone)"

definition CreatePublisherID :: "string \<Rightarrow> string \<Rightarrow> string \<Rightarrow> string \<Rightarrow> string" where
  "CreatePublisherID zone publisher deviceID deviceType =
     ''urn:'' @ zone_or_local zone @ '':'' @ publisher @ '':'' @ deviceID @ '':'' @ deviceType"

definition CreateThingID :: "string \<Rightarrow> string \<Rightarrow> string \<Rightarrow> string" where
  "CreateThingID zone deviceID deviceType =
     ''urn:'' @ zone_or_local zone @ '':'' @ deviceID @ '':'' @ deviceType"

definition SplitThingID :: "string \<Rightarrow> thing_id_parts" where
  "SplitThingID thingID =
     (let parts = split_on CHR '':'' thingID in
      if length parts < 2 \<or> to_lower (parts ! 0) \<noteq> ''urn'' then
        \<lparr>tid_zone = [], tid_publisher = [], tid_device = parts ! 0, tid_type = []\<rparr>
      else if length parts = 5 then
        \<lparr>tid_zone = parts ! 1, tid_publisher = parts ! 2, tid_device = parts ! 3, tid_type = parts ! 4\<rparr>
      else if length parts = 4 then
        \<lparr>tid_zone = parts ! 1, tid_publisher = [], tid_device = parts ! 2, tid_type = parts ! 3\<rparr>
      else if length parts = 3 then
        \<lparr>tid_zone = [], tid_publisher = [], tid_device = parts ! 1, tid_type = parts ! 2\<rparr>
      else if length parts = 2 then
        \<lparr>tid_zone = [], tid_publisher = [], tid_device = parts ! 1, tid_type = []\<rparr>
      else \<lparr>tid_zone = [], tid_publisher = [], tid_device = [], tid_type = []\<rparr>)"

section \<open>Properties\<close>

definition no_colon :: "string \<Rightarrow> bool" where
  "no_colon s \<longleftrightarrow> CHR '':'' \<notin> set s"

lemma to_lower_urn [simp]: "to_lower ''urn'' = ''urn''"
  by (simp add: to_lower.simps lower_special_def lower_ascii_def)

lemma no_colon_zone [simp]: "no_colon z \<Longrightarrow> no_colon (zone_or_local z)"
  by (simp add: no_colon_def zone_or_local_def)

lemma split_urn: "split_on CHR '':'' (''urn:'' @ s) = ''urn'' # split_on CHR '':'' s"
  using split_on_sep [of "CHR '':''" "''urn''" s] by simp

lemma split_part: "no_colon a \<Longrightarrow> split_on CHR '':'' (a @ '':'' @ b) = a # split_on CHR '':'' b"
  using split_on_sep [of "CHR '':''" a b] by (simp add: no_colon_def)

lemma split_last: "no_colon a \<Longrightarrow> split_on CHR '':'' a = [a]"
  by (simp add: no_colon_def split_on_no_sep)

text \<open>
  Splitting a full thing ID gives back the zone (\<open>local\<close> for the empty one), the publisher, the
  device and the device type it was made of, when none of them holds a colon.
\<close>

theorem split_publisher_id:
  assumes "no_colon zone" and "no_colon publisher" and "no_colon deviceID" and "no_colon deviceType"
  shows "SplitThingID (CreatePublisherID zone publisher deviceID deviceType) =
    \<lparr>tid_zone = (if zone = [] then ''local'' else zone), tid_publisher = publisher,
     tid_device = deviceID, tid_type = deviceType\<rparr>"
proof -
  have "split_on CHR '':'' (CreatePublisherID zone publisher deviceID deviceType) =
      [''urn'', zone_or_local zone, publisher, deviceID, deviceType]"
    unfolding CreatePublisherID_def using assms by (simp only: split_urn split_part split_last no_colon_zone)
  then show ?thesis by (simp add: SplitThingID_def zone_or_local_def Let_def)
qed

theorem split_publisher_id_witness:
  "SplitThingID (CreatePublisherID [] ''pub1'' ''dev1'' ''sensor'') =
    \<lparr>tid_zone = ''local'', tid_publisher = ''pub1'', tid_device = ''dev1'', tid_type = ''sensor''\<rparr>"
  using split_publisher_id [of "[]" "''pub1''" "''dev1''" "''sensor''"] by (simp add: no_colon_def)

text \<open>
  A thing ID without a publisher splits back into its three parts, and its publisher is empty.
\<close>

theorem split_thing_id:
  assumes "no_colon zone" and "no_colon deviceID" and "no_colon deviceType"
  shows "SplitThingID (CreateThingID zone deviceID deviceType) =
    \<lparr>tid_zone = (if zone = [] then ''local'' else zone), tid_publisher = [],
     tid_device = deviceID, tid_type = deviceType\<rparr>"
proof -
  have "split_on CHR '':'' (CreateThingID zone deviceID deviceType) =
      [''urn'', zone_or_local zone, deviceID, deviceType]"
    unfolding CreateThingID_def using assms by (simp only: split_urn split_part split_last no_colon_zone)
  then show ?thesis by (simp add: SplitThingID_def zone_or_local_def Let_def)
qed

theorem split_thing_id_witness:
  "SplitThingID (CreateThingID ''zone1'' ''dev1'' ''sensor'') =
    \<lparr>tid_zone = ''zone1'', tid_publisher = [], tid_device = ''dev1'', tid_type = ''sensor''\<rparr>"
  using split_thing_id [of "''zone1''" "''dev1''" "''sensor''"] by (simp add: no_colon_def)

text \<open>
  What SplitThingID returns on every ID, by the number of colons: an ID that is no URN yields
  the text before its first colon as the device, and a URN of six parts or more yields nothing at all.
\<close>

theorem split_thing_id_cases:
  "SplitThingID thingID =
    (let n = count_list thingID CHR '':''; parts = split_on CHR '':'' thingID in
     if 0 < n \<and> to_lower (hd parts) = ''urn'' then
       (if 4 < n then \<lparr>tid_zone = [], tid_publisher = [], tid_device = [], tid_type = []\<rparr>
        else
          \<lparr>tid_zone = (if 2 < n then parts ! 1 else []), tid_publisher = (if n = 4 then parts ! 2 else []),
           tid_device = (if n = 1 then last parts else parts ! (n - 1)),
           tid_type = (if n = 1 then [] else last parts)\<rparr>)
     else \<lparr>tid_zone = [], tid_publisher = [], tid_device = takeWhile (\<lambda>c. c \<noteq> CHR '':'') thingID, tid_type = []\<rparr>)"
proof -
  define n where "n = count_list thingID CHR '':''"
  define parts where "parts = split_on CHR '':'' thingID"
  have len: "length parts = Suc n" by (simp add: parts_def n_def length_split_on)
  have hd: "parts ! 0 = hd parts" "parts \<noteq> []" using len by (cases parts; simp)+
  have "hd parts = takeWhile (\<lambda>c. c \<noteq> CHR '':'') thingID"
    unfolding parts_def by (induction thingID) (auto split: list.splits)
  moreover have "last parts = parts ! n" using len hd by (simp add: last_conv_nth)
  moreover have "n = 0 \<or> n = 1 \<or> n = 2 \<or> n = 3 \<or> n = 4 \<or> 4 < n" by arith
  ultimately show ?thesis
    using len hd(1)
    by (elim disjE) (auto simp: SplitThingID_def Let_def parts_def [symmetric] n_def [symmetric] numeral_eq_Suc)
qed

end
