(* ===== verification/JsonText.thy ===== *)
theory JsonText
  imports GoStrings
begin

text \<open>
  JSON texts as Go's \<open>encoding/json\<close> writes and reads them (Go 1.18, the version of
  go.mod): the payload of every MQTT message and of every HTTP request body is one.

  \<open>json_text\<close> is \<open>json.Marshal\<close> of a value already turned into a \<open>json\<close> tree,
  \<open>json_text_indent\<close> is \<open>json.MarshalIndent\<close>; \<open>json_parse\<close> is the syntax check
  and the reading of \<open>json.Unmarshal\<close>. A number is kept as its literal, as the decoder of
  Go does until it knows the target type. The recursion of the parser runs on fuel; each call
  consumes input or opens one nesting level, so twice the length of the text is enough. Go's limit of 10000 nesting
  levels is not modelled.
\<close>

datatype json =
    JNull
  | JBool bool
  | JNum string
  | JStr string
  | JArr "json list"
  | JObj "(string \<times> json) list"

section \<open>Strings\<close>

definition hex_digit :: "nat \<Rightarrow> char" where
  "hex_digit d = (if d < 10 then char_of (48 + d) else char_of (87 + d))"

definition hex_val :: "char \<Rightarrow> nat option" where
  "hex_val c = (let n = (of_char c :: nat) in
     if 48 \<le> n \<and> n \<le> 57 then Some (n - 48)
     else if 97 \<le> n \<and> n \<le> 102 then Some (n - 87)
     else if 65 \<le> n \<and> n \<le> 70 then Some (n - 55)
     else None)"

lemma hex_val_digit [simp]: "d < 16 \<Longrightarrow> hex_val (hex_digit d) = Some d"
  by (auto simp: hex_val_def hex_digit_def Let_def)

abbreviation quote_char :: char where "quote_char \<equiv> CHR 0x22"
abbreviation backslash :: char where "backslash \<equiv> CHR 0x5C"

definition u_escape :: "nat \<Rightarrow> string" where
  "u_escape n = [backslash, CHR ''u'', hex_digit (n div 4096 mod 16), hex_digit (n div 256 mod 16),
                 hex_digit (n div 16 mod 16), hex_digit (n mod 16)]"

text \<open>One ASCII byte inside a string. The HTML characters are escaped, as Marshal does.\<close>

definition esc_char :: "char \<Rightarrow> string" where
  "esc_char c = (let n = (of_char c :: nat) in
     if c = quote_char \<or> c = backslash then [backslash, c]
     else if n = 10 then [backslash, CHR ''n'']
     else if n = 13 then [backslash, CHR ''r'']
     else if n = 9 then [backslash, CHR ''t'']
     else if n < 32 \<or> n = 60 \<or> n = 62 \<or> n = 38 then u_escape n
     else [c])"

definition line_sep :: string where "line_sep = map char_of [226, 128, 168 :: nat]"
definition para_sep :: string where "para_sep = map char_of [226, 128, 169 :: nat]"
definition replacement :: string where "replacement = map char_of [239, 191, 189 :: nat]"

text \<open>A byte that starts no valid UTF-8 sequence is written as the replacement character.\<close>

function esc_string :: "string \<Rightarrow> string" where
  "esc_string s =
     (case s of
        [] \<Rightarrow> []
      | c # r \<Rightarrow>
          if of_char c < (128 :: nat) then esc_char c @ esc_string r
          else if rune_len s \<le> 1 then u_escape 65533 @ esc_string r
          else (if take (rune_len s) s = line_sep then u_escape 8232
                else if take (rune_len s) s = para_sep then u_escape 8233
                else take (rune_len s) s) @ esc_string (drop (rune_len s) s))"
  by pat_completeness auto
termination
  by (relation "measure length") (auto simp: rune_len_pos)

declare esc_string.simps [simp del]

text \<open>The UTF-8 encoding of a code point.\<close>

definition utf8 :: "nat \<Rightarrow> string" where
  "utf8 n =
     (if n < 128 then [char_of n]
      else if n < 2048 then [char_of (192 + n div 64), char_of (128 + n mod 64)]
      else if n < 65536 then [char_of (224 + n div 4096), char_of (128 + n div 64 mod 64), char_of (128 + n mod 64)]
      else [char_of (240 + n div 262144), char_of (128 + n div 4096 mod 64),
            char_of (128 + n div 64 mod 64), char_of (128 + n mod 64)])"

text \<open>The four hex digits behind \<open>\u\<close>.\<close>

definition read_u4 :: "string \<Rightarrow> (nat \<times> string) option" where
  "read_u4 s =
     (case s of
        a # b # c # d # r \<Rightarrow>
          (case (hex_val a, hex_val b, hex_val c, hex_val d) of
             (Some w, Some x, Some y, Some z) \<Rightarrow> Some (4096 * w + 256 * x + 16 * y + z, r)
           | _ \<Rightarrow> None)
      | _ \<Rightarrow> None)"

text \<open>
  A surrogate that is the first half of a pair is read together with the second half; any other
  surrogate becomes the replacement character.
\<close>

definition read_u_escape :: "string \<Rightarrow> (string \<times> string) option" where
  "read_u_escape s =
     (case read_u4 s of
        None \<Rightarrow> None
      | Some (n, r) \<Rightarrow>
          if 55296 \<le> n \<and> n < 57344 then
            (case (if n < 56320 then strip_prefix [backslash, CHR ''u''] r else None) of
               None \<Rightarrow> Some (replacement, r)
             | Some r1 \<Rightarrow>
                 (case read_u4 r1 of
                    None \<Rightarrow> Some (replacement, r)
                  | Some (m, r2) \<Rightarrow>
                      if 56320 \<le> m \<and> m < 57344
                      then Some (utf8 (65536 + (n - 55296) * 1024 + (m - 56320)), r2)
                      else Some (replacement, r)))
          else Some (utf8 n, r))"

definition read_escape :: "string \<Rightarrow> (string \<times> string) option" where
  "read_escape s =
     (case s of
        [] \<Rightarrow> None
      | c # r \<Rightarrow>
          if c = quote_char \<or> c = backslash \<or> c = CHR ''/'' then Some ([c], r)
          else if c = CHR ''b'' then Some ([char_of (8 :: nat)], r)
          else if c = CHR ''f'' then Some ([char_of (12 :: nat)], r)
          else if c = CHR ''n'' then Some ([char_of (10 :: nat)], r)
          else if c = CHR ''r'' then Some ([char_of (13 :: nat)], r)
          else if c = CHR ''t'' then Some ([char_of (9 :: nat)], r)
          else if c = CHR ''u'' then read_u_escape r
          else None)"

lemma read_u4_shorter: "read_u4 s = Some (n, r) \<Longrightarrow> length r < length s"
  by (auto simp: read_u4_def split: list.splits option.splits prod.splits)

lemma read_u_escape_shorter: "read_u_escape s = Some (t, r) \<Longrightarrow> length r < length s"
  by (auto simp: read_u_escape_def strip_prefix_Some_iff dest!: read_u4_shorter
      split: option.splits prod.splits if_splits)

lemma read_escape_shorter: "read_escape s = Some (t, r) \<Longrightarrow> length r < length s"
  by (auto simp: read_escape_def dest!: read_u_escape_shorter split: list.splits if_splits)

text \<open>The rest of a string literal, behind the opening quote: its value and what follows.\<close>

function read_string :: "string \<Rightarrow> (string \<times> string) option" where
  "read_string s =
     (case s of
        [] \<Rightarrow> None
      | c # r \<Rightarrow>
          if c = quote_char then Some ([], r)
          else if c = backslash then
            (case read_escape r of
               None \<Rightarrow> None
             | Some (t, r1) \<Rightarrow> map_option (apfst (append t)) (read_string r1))
          else if of_char c < (32 :: nat) then None
          else if of_char c < (128 :: nat) then map_option (apfst (Cons c)) (read_string r)
          else if rune_len s \<le> 1 then map_option (apfst (append replacement)) (read_string r)
          else map_option (apfst (append (take (rune_len s) s))) (read_string (drop (rune_len s) s)))"
  by pat_completeness auto
termination
  by (relation "measure length") (auto simp: rune_len_pos dest: read_escape_shorter)

declare read_string.simps [simp del]

text \<open>Valid UTF-8.\<close>

function utf8_ok :: "string \<Rightarrow> bool" where
  "utf8_ok s =
     (case s of
        [] \<Rightarrow> True
      | c # r \<Rightarrow>
          if of_char c < (128 :: nat) then utf8_ok r
          else 1 < rune_len s \<and> utf8_ok (drop (rune_len s) s))"
  by pat_completeness auto
termination
  by (relation "measure length") (auto simp: rune_len_pos)

declare utf8_ok.simps [simp del]


lemma rune_len_le: "rune_len s \<le> length s"
  by (auto simp: rune_len_def Let_def split: list.splits)

lemma rune_len_le4: "rune_len s \<le> 4"
  by (auto simp: rune_len_def Let_def split: list.splits)

lemma rune_len_stable2: "rune_len (a # b # r) = 2 \<Longrightarrow> rune_len (a # b # t) = 2"
  by (auto simp: rune_len_def Let_def split: if_splits)

lemma rune_len_stable3: "rune_len (a # b # c # r) = 3 \<Longrightarrow> rune_len (a # b # c # t) = 3"
  by (simp add: rune_len_def Let_def numeral_eq_Suc split: if_splits)

lemma rune_len_stable4: "rune_len (a # b # c # d # r) = 4 \<Longrightarrow> rune_len (a # b # c # d # t) = 4"
  by (simp add: rune_len_def Let_def numeral_eq_Suc split: if_splits)

text \<open>Whether a sequence is valid depends on its own bytes only.\<close>

lemma rune_len_stable:
  assumes "1 < rune_len s"
  shows "rune_len (take (rune_len s) s @ t) = rune_len s"
proof -
  consider (two) "rune_len s = 2" | (three) "rune_len s = 3" | (four) "rune_len s = 4"
    using assms rune_len_le4 [of s] by linarith
  then show ?thesis
  proof cases
    case two
    moreover obtain a b r where "s = a # b # r"
      using rune_len_le [of s] two by (metis Suc_le_length_iff numeral_2_eq_2)
    ultimately show ?thesis using rune_len_stable2 [of a b r] by (simp add: numeral_2_eq_2)
  next
    case three
    moreover obtain a b c r where "s = a # b # c # r"
      using rune_len_le [of s] three by (metis Suc_le_length_iff numeral_3_eq_3)
    ultimately show ?thesis using rune_len_stable3 [of a b c r] by (simp add: numeral_3_eq_3)
  next
    case four
    then have "Suc (Suc (Suc (Suc 0))) \<le> length s" using rune_len_le [of s] by simp
    then obtain a b c d r where "s = a # b # c # d # r" by (auto simp: Suc_le_length_iff)
    with four show ?thesis using rune_len_stable4 [of a b c d r] by (simp add: numeral_eq_Suc)
  qed
qed

lemma read_u_escape_plain:
  assumes "n < 55296"
  shows "read_u_escape (tl (tl (u_escape n)) @ t) = Some (utf8 n, t)"
proof -
  have "4096 * (n div 4096 mod 16) + 256 * (n div 256 mod 16) + 16 * (n div 16 mod 16) + n mod 16 = n"
  proof -
    have e: "n div 256 = n div 16 div 16" "n div 4096 = n div 16 div 16 div 16"
      by (simp_all add: div_mult2_eq [symmetric])
    have "n div 16 div 16 div 16 mod 16 = n div 16 div 16 div 16"
      using assms by (simp add: div_mult2_eq [symmetric])
    with div_mult_mod_eq [of n 16] div_mult_mod_eq [of "n div 16" 16] div_mult_mod_eq [of "n div 16 div 16" 16]
    show ?thesis unfolding e by linarith
  qed
  with assms show ?thesis by (simp add: read_u_escape_def u_escape_def read_u4_def)
qed

lemma read_string_escape:
  "read_escape r = Some (x, r1) \<Longrightarrow> read_string (backslash # r) = map_option (apfst (append x)) (read_string r1)"
  by (subst read_string.simps) simp

lemma read_string_escape1:
  "read_escape (c # t) = Some ([x], t) \<Longrightarrow> read_string (backslash # c # t) = map_option (apfst (Cons x)) (read_string t)"
proof -
  assume "read_escape (c # t) = Some ([x], t)"
  then have "read_string (backslash # c # t) = map_option (apfst (append [x])) (read_string t)"
    by (rule read_string_escape)
  moreover have "append [x] = Cons x" by (rule ext) simp
  ultimately show ?thesis by simp
qed

lemma read_string_u_escape:
  assumes "n < 55296"
  shows "read_string (u_escape n @ t) = map_option (apfst (append (utf8 n))) (read_string t)"
proof -
  have eq: "u_escape n @ t = backslash # CHR ''u'' # (tl (tl (u_escape n)) @ t)"
    by (simp add: u_escape_def)
  have "read_escape (CHR ''u'' # (tl (tl (u_escape n)) @ t)) = Some (utf8 n, t)"
    using read_u_escape_plain [OF assms, of t] by (simp add: read_escape_def)
  then have "read_string (backslash # CHR ''u'' # (tl (tl (u_escape n)) @ t)) =
      map_option (apfst (append (utf8 n))) (read_string t)"
    by (rule read_string_escape)
  then show ?thesis by (simp only: eq)
qed

lemma read_string_esc_char:
  assumes "of_char c < (128 :: nat)"
  shows "read_string (esc_char c @ t) = map_option (apfst (Cons c)) (read_string t)"
proof -
  have u: "utf8 (of_char c) = [c]" using assms by (simp add: utf8_def)
  consider (q) "c = quote_char \<or> c = backslash"
    | (n) "\<not> (c = quote_char \<or> c = backslash)" "of_char c = (10 :: nat) \<or> of_char c = (13 :: nat) \<or> of_char c = (9 :: nat)"
    | (u) "esc_char c = u_escape (of_char c)"
    | (raw) "c \<noteq> quote_char" "c \<noteq> backslash" "32 \<le> (of_char c :: nat)" "esc_char c = [c]"
  proof (cases "c = quote_char \<or> c = backslash")
    case True
    then show thesis by (rule q)
  next
    case nq: False
    show thesis
    proof (cases "of_char c = (10 :: nat) \<or> of_char c = (13 :: nat) \<or> of_char c = (9 :: nat)")
      case True
      with nq show thesis by (rule n)
    next
      case False
      with nq u raw show thesis
        by (cases "of_char c < (32 :: nat) \<or> of_char c = (60 :: nat) \<or> of_char c = (62 :: nat) \<or> of_char c = (38 :: nat)")
          (auto simp: esc_char_def Let_def)
    qed
  qed
  then show ?thesis
  proof cases
    case q
    then have "read_escape (c # t) = Some ([c], t)" by (auto simp: read_escape_def)
    with q show ?thesis by (simp add: esc_char_def read_string_escape1)
  next
    case n
    from n(2) have "c = char_of (10 :: nat) \<or> c = char_of (13 :: nat) \<or> c = char_of (9 :: nat)"
      by (metis char_of_char)
    with n show ?thesis
      by (elim disjE) (simp_all add: esc_char_def read_string_escape1 read_escape_def)
  next
    case u
    have "append [c] = Cons c" by (rule ext) simp
    with read_string_u_escape [of "of_char c" t] assms show ?thesis
      by (simp only: u \<open>utf8 (of_char c) = [c]\<close>)
  next
    case raw
    with assms show ?thesis by (simp add: read_string.simps [of "c # _"])
  qed
qed

lemma read_string_rune:
  assumes "s = c # r" and "128 \<le> (of_char c :: nat)" and "1 < rune_len s"
  shows "read_string (take (rune_len s) s @ t) =
           map_option (apfst (append (take (rune_len s) s))) (read_string t)"
proof -
  let ?k = "rune_len s"
  from assms obtain r' where take: "take ?k s = c # r'" by (cases ?k) auto
  have len: "length (take ?k s) = ?k" using rune_len_le [of s] by simp
  have k: "rune_len (c # r' @ t) = ?k" using rune_len_stable [OF assms(3), of t] take by simp
  have d: "drop ?k (c # r' @ t) = t" "take ?k (c # r' @ t) = c # r'"
    using len take by (metis append_Cons append_eq_conv_conj)+
  from assms(2) have "c \<noteq> quote_char" "c \<noteq> backslash" by auto
  with assms k d take show ?thesis by (simp add: read_string.simps [of "c # r' @ t"])
qed

theorem read_esc_string: "utf8_ok s \<Longrightarrow> read_string (esc_string s @ quote_char # t) = Some (s, t)"
proof (induction s rule: esc_string.induct)
  case (1 s)
  show ?case
  proof (cases s)
    case Nil
    then show ?thesis by (simp add: esc_string.simps read_string.simps [of "_ # _"])
  next
    case (Cons c r)
    show ?thesis
    proof (cases "of_char c < (128 :: nat)")
      case True
      with "1.prems" Cons have "utf8_ok r" by (simp add: utf8_ok.simps [of "c # r"])
      with "1.IH"(1) [OF Cons True] True Cons show ?thesis
        by (simp add: esc_string.simps [of "c # r"] read_string_esc_char)
    next
      case False
      with "1.prems" Cons have ok: "1 < rune_len s" "utf8_ok (drop (rune_len s) s)"
        by (simp_all add: utf8_ok.simps [of "c # r"])
      let ?a = "take (rune_len s) s" and ?b = "drop (rune_len s) s"
      from ok have not1: "\<not> rune_len s \<le> 1" by simp
      have IH: "read_string (esc_string ?b @ quote_char # t) = Some (?b, t)"
        by (rule "1.IH"(3) [OF Cons False not1 ok(2)])
      let ?m = "if ?a = line_sep then u_escape 8232 else if ?a = para_sep then u_escape 8233 else ?a"
      have m: "read_string (?m @ u) = map_option (apfst (append ?a)) (read_string u)" for u
        using read_string_rune [OF Cons _ ok(1), of u] False
        by (auto simp: read_string_u_escape utf8_def line_sep_def para_sep_def)
      have "esc_string s = ?m @ esc_string ?b"
        using False ok(1) Cons by (subst esc_string.simps) simp
      then have "read_string (esc_string s @ quote_char # t) = map_option (apfst (append ?a)) (Some (?b, t))"
        by (simp only: append_assoc m IH)
      then show ?thesis by simp
    qed
  qed
qed

section \<open>Number literals\<close>

definition is_digit :: "char \<Rightarrow> bool" where
  "is_digit c \<longleftrightarrow> digit_val c \<noteq> None"

fun span_digits :: "string \<Rightarrow> string \<times> string" where
  "span_digits [] = ([], [])"
| "span_digits (c # s) = (if is_digit c then apfst (Cons c) (span_digits s) else ([], c # s))"

text \<open>The grammar of a JSON number, part by part: sign, integer, fraction, exponent.\<close>

definition scan_sign :: "string \<Rightarrow> string \<times> string" where
  "scan_sign s = (case s of c # r \<Rightarrow> if c = CHR ''-'' then ([c], r) else ([], s) | [] \<Rightarrow> ([], s))"

definition scan_int :: "string \<Rightarrow> (string \<times> string) option" where
  "scan_int s =
     (case s of
        [] \<Rightarrow> None
      | c # r \<Rightarrow> if c = CHR ''0'' then Some ([c], r)
                 else if is_digit c then Some (span_digits s) else None)"

definition scan_frac :: "string \<Rightarrow> (string \<times> string) option" where
  "scan_frac s =
     (case s of
        [] \<Rightarrow> Some ([], s)
      | c # r \<Rightarrow> if c = CHR ''.'' then
                   (case span_digits r of (ds, r1) \<Rightarrow> if ds = [] then None else Some (c # ds, r1))
                 else Some ([], s))"

definition scan_exp_sign :: "string \<Rightarrow> string \<times> string" where
  "scan_exp_sign r = (case r of x # r' \<Rightarrow> if x = CHR ''+'' \<or> x = CHR ''-'' then ([x], r') else ([], r)
                      | [] \<Rightarrow> ([], r))"

definition scan_exp :: "string \<Rightarrow> (string \<times> string) option" where
  "scan_exp s =
     (case s of
        [] \<Rightarrow> Some ([], s)
      | c # r \<Rightarrow>
          if c = CHR ''e'' \<or> c = CHR ''E'' then
            (case scan_exp_sign r of (sg, r1) \<Rightarrow>
             case span_digits r1 of (ds, r2) \<Rightarrow> if ds = [] then None else Some (c # sg @ ds, r2))
          else Some ([], s))"

definition scan_num :: "string \<Rightarrow> (string \<times> string) option" where
  "scan_num s =
     (let (sg, s1) = scan_sign s in
      Option.bind (scan_int s1) (\<lambda>(i, s2).
      Option.bind (scan_frac s2) (\<lambda>(f, s3).
      Option.bind (scan_exp s3) (\<lambda>(e, s4). Some (sg @ i @ f @ e, s4)))))"

definition num_ok :: "string \<Rightarrow> bool" where
  "num_ok lit \<longleftrightarrow> scan_num lit = Some (lit, [])"

text \<open>Text that cannot continue a number.\<close>

definition num_end :: "string \<Rightarrow> bool" where
  "num_end s = (case s of [] \<Rightarrow> True
     | c # _ \<Rightarrow> \<not> is_digit c \<and> c \<noteq> CHR ''.'' \<and> c \<noteq> CHR ''e'' \<and> c \<noteq> CHR ''E'')"

lemma apfst_eq_pair: "apfst f p = (x, y) \<longleftrightarrow> (\<exists>a. p = (a, y) \<and> x = f a)"
  by (cases p) auto

lemma span_digits_append: "span_digits s = (ds, r) \<Longrightarrow> s = ds @ r"
  by (induction s arbitrary: ds r) (auto simp: apfst_eq_pair split: if_splits)

lemma span_digits_end:
  "span_digits s = (ds, r) \<Longrightarrow> r \<noteq> [] \<or> num_end t \<Longrightarrow> span_digits (s @ t) = (ds, r @ t)"
proof (induction s arbitrary: ds r)
  case Nil
  then show ?case by (cases t) (auto simp: num_end_def)
next
  case (Cons c s)
  then show ?case by (auto simp: apfst_eq_pair split: if_splits)
qed

lemma scan_sign_end: "scan_sign s = (g, r) \<Longrightarrow> s \<noteq> [] \<Longrightarrow> scan_sign (s @ t) = (g, r @ t)"
  by (auto simp: scan_sign_def split: list.splits if_splits)

lemma scan_int_end:
  assumes "scan_int s = Some (i, r)" and "num_end t"
  shows "scan_int (s @ t) = Some (i, r @ t)"
proof (cases s)
  case Nil
  with assms(1) show ?thesis by (simp add: scan_int_def)
next
  case (Cons c q)
  show ?thesis
  proof (cases "c = CHR ''0''")
    case True
    with assms(1) Cons show ?thesis by (simp add: scan_int_def)
  next
    case False
    with assms(1) Cons have d: "is_digit c" "span_digits s = (i, r)"
      by (simp_all add: scan_int_def split: if_splits)
    from span_digits_end [OF d(2)] assms(2) have "span_digits (s @ t) = (i, r @ t)" by blast
    with False d(1) Cons show ?thesis by (simp add: scan_int_def)
  qed
qed

lemma scan_frac_end:
  assumes "scan_frac s = Some (f, r)" and "num_end t"
  shows "scan_frac (s @ t) = Some (f, r @ t)"
proof (cases s)
  case Nil
  with assms show ?thesis by (cases t) (auto simp: scan_frac_def num_end_def)
next
  case (Cons c q)
  obtain ds q2 where ds: "span_digits q = (ds, q2)" by (cases "span_digits q")
  from span_digits_end [OF ds] assms(2) have "span_digits (q @ t) = (ds, q2 @ t)" by blast
  with assms(1) Cons ds show ?thesis by (auto simp: scan_frac_def split: if_splits)
qed

lemma scan_exp_sign_end: "scan_exp_sign s = (g, r) \<Longrightarrow> s \<noteq> [] \<Longrightarrow> scan_exp_sign (s @ t) = (g, r @ t)"
  by (auto simp: scan_exp_sign_def split: list.splits if_splits)

lemma scan_exp_end:
  assumes "scan_exp s = Some (e, r)" and "num_end t"
  shows "scan_exp (s @ t) = Some (e, r @ t)"
proof (cases s)
  case Nil
  with assms show ?thesis by (cases t) (auto simp: scan_exp_def num_end_def)
next
  case (Cons c q)
  obtain g q1 where g: "scan_exp_sign q = (g, q1)" by (cases "scan_exp_sign q")
  obtain ds q2 where ds: "span_digits q1 = (ds, q2)" by (cases "span_digits q1")
  from span_digits_end [OF ds] assms(2) have ds': "span_digits (q1 @ t) = (ds, q2 @ t)" by blast
  show ?thesis
  proof (cases "c = CHR ''e'' \<or> c = CHR ''E''")
    case False
    with assms Cons show ?thesis by (auto simp: scan_exp_def)
  next
    case True
    with assms(1) Cons g ds have e: "ds \<noteq> []" "e = c # g @ ds" "r = q2"
      by (auto simp: scan_exp_def split: if_splits)
    with ds g have "q \<noteq> []" by (auto simp: scan_exp_sign_def)
    with g have "scan_exp_sign (q @ t) = (g, q1 @ t)" by (rule scan_exp_sign_end)
    with True Cons e ds' show ?thesis by (simp add: scan_exp_def)
  qed
qed

lemma scan_num_end:
  assumes "num_ok lit" and "num_end t"
  shows "scan_num (lit @ t) = Some (lit, t)"
proof -
  obtain g s1 where g: "scan_sign lit = (g, s1)" by (cases "scan_sign lit")
  from assms(1) obtain i s2 f s3 e where
    i: "scan_int s1 = Some (i, s2)" and f: "scan_frac s2 = Some (f, s3)"
    and e: "scan_exp s3 = Some (e, [])" and lit: "lit = g @ i @ f @ e"
    by (auto simp: num_ok_def scan_num_def g bind_eq_Some_conv)
  have "lit \<noteq> []" using assms(1) by (auto simp: num_ok_def scan_num_def scan_sign_def scan_int_def)
  from scan_sign_end [OF g this] scan_int_end [OF i assms(2)] scan_frac_end [OF f assms(2)]
    scan_exp_end [OF e assms(2)] show ?thesis
    by (simp add: scan_num_def lit)
qed

lemma num_ok_first:
  assumes "num_ok lit"
  shows "\<exists>c r. lit = c # r \<and> (c = CHR ''-'' \<or> is_digit c)"
proof -
  have "lit \<noteq> []" using assms by (auto simp: num_ok_def scan_num_def scan_sign_def scan_int_def)
  then obtain c r where "lit = c # r" by (cases lit) auto
  with assms show ?thesis
    by (auto simp: num_ok_def scan_num_def scan_sign_def scan_int_def is_digit_def digit_val_def Let_def
        split: if_splits)
qed

section \<open>The parser\<close>

definition is_ws :: "char \<Rightarrow> bool" where
  "is_ws c \<longleftrightarrow> (of_char c :: nat) \<in> {32, 9, 10, 13}"

definition skip_ws :: "string \<Rightarrow> string" where
  "skip_ws s = dropWhile is_ws s"

definition parse_word :: "string \<Rightarrow> (json \<times> string) option" where
  "parse_word s =
     (case strip_prefix ''null'' s of Some r \<Rightarrow> Some (JNull, r) | None \<Rightarrow>
     (case strip_prefix ''true'' s of Some r \<Rightarrow> Some (JBool True, r) | None \<Rightarrow>
     (case strip_prefix ''false'' s of Some r \<Rightarrow> Some (JBool False, r) | None \<Rightarrow> None)))"

fun parse_val :: "nat \<Rightarrow> string \<Rightarrow> (json \<times> string) option"
  and parse_elems :: "nat \<Rightarrow> string \<Rightarrow> (json list \<times> string) option"
  and parse_members :: "nat \<Rightarrow> string \<Rightarrow> ((string \<times> json) list \<times> string) option" where
  "parse_val 0 s = None"
| "parse_val (Suc n) s =
     (case s of
        [] \<Rightarrow> None
      | c # r \<Rightarrow>
          if c = CHR ''['' then
            (if has_prefix (skip_ws r) '']'' then Some (JArr [], tl (skip_ws r))
             else map_option (apfst JArr) (parse_elems n (skip_ws r)))
          else if c = CHR ''{'' then
            (if has_prefix (skip_ws r) ''}'' then Some (JObj [], tl (skip_ws r))
             else map_option (apfst JObj) (parse_members n (skip_ws r)))
          else if c = quote_char then map_option (apfst JStr) (read_string r)
          else if c = CHR ''-'' \<or> is_digit c then map_option (apfst JNum) (scan_num s)
          else parse_word s)"
| "parse_elems 0 s = None"
| "parse_elems (Suc n) s =
     (case parse_val n s of
        None \<Rightarrow> None
      | Some (v, r) \<Rightarrow>
          (case skip_ws r of
             [] \<Rightarrow> None
           | c # r1 \<Rightarrow>
               if c = CHR '','' then map_option (apfst (Cons v)) (parse_elems n (skip_ws r1))
               else if c = CHR '']'' then Some ([v], r1)
               else None))"
| "parse_members 0 s = None"
| "parse_members (Suc n) s =
     (case strip_prefix [quote_char] s of
        None \<Rightarrow> None
      | Some s1 \<Rightarrow>
          (case read_string s1 of
             None \<Rightarrow> None
           | Some (k, s2) \<Rightarrow>
               (case strip_prefix '':'' (skip_ws s2) of
                  None \<Rightarrow> None
                | Some s3 \<Rightarrow>
                    (case parse_val n (skip_ws s3) of
                       None \<Rightarrow> None
                     | Some (v, r) \<Rightarrow>
                         (case skip_ws r of
                            [] \<Rightarrow> None
                          | c # r1 \<Rightarrow>
                              if c = CHR '','' then map_option (apfst (Cons (k, v))) (parse_members n (skip_ws r1))
                              else if c = CHR ''}'' then Some ([(k, v)], r1)
                              else None)))))"

definition json_parse :: "string \<Rightarrow> json option" where
  "json_parse s =
     (case parse_val (2 * length s + 2) (skip_ws s) of
        None \<Rightarrow> None
      | Some (v, r) \<Rightarrow> if skip_ws r = [] then Some v else None)"

section \<open>The printer\<close>

text \<open>
  Marshal and MarshalIndent differ in white space only: what is written in front of a member or
  a closing bracket at a nesting depth, and what follows a key.
\<close>

record layout =
  newline :: "nat \<Rightarrow> string"
  colon :: string

definition compact :: layout where
  "compact = \<lparr>newline = (\<lambda>_. []), colon = '':''\<rparr>"

definition indented :: "string \<Rightarrow> string \<Rightarrow> layout" where
  "indented pre ind = \<lparr>newline = (\<lambda>d. char_of (10 :: nat) # pre @ concat (replicate d ind)), colon = '': ''\<rparr>"

definition quoted :: "string \<Rightarrow> string" where
  "quoted s = quote_char # esc_string s @ [quote_char]"

fun print_json :: "layout \<Rightarrow> nat \<Rightarrow> json \<Rightarrow> string"
  and print_elems :: "layout \<Rightarrow> nat \<Rightarrow> json list \<Rightarrow> string"
  and print_members :: "layout \<Rightarrow> nat \<Rightarrow> (string \<times> json) list \<Rightarrow> string" where
  "print_json L d JNull = ''null''"
| "print_json L d (JBool b) = (if b then ''true'' else ''false'')"
| "print_json L d (JNum lit) = lit"
| "print_json L d (JStr s) = quoted s"
| "print_json L d (JArr []) = ''[]''"
| "print_json L d (JArr (x # xs)) =
     ''['' @ newline L (Suc d) @ print_json L (Suc d) x @ print_elems L d xs"
| "print_json L d (JObj []) = ''{}''"
| "print_json L d (JObj ((k, v) # kvs)) =
     ''{'' @ newline L (Suc d) @ quoted k @ colon L @ print_json L (Suc d) v @ print_members L d kvs"
| "print_elems L d [] = newline L d @ '']''"
| "print_elems L d (x # xs) =
     '','' @ newline L (Suc d) @ print_json L (Suc d) x @ print_elems L d xs"
| "print_members L d [] = newline L d @ ''}''"
| "print_members L d ((k, v) # kvs) =
     '','' @ newline L (Suc d) @ quoted k @ colon L @ print_json L (Suc d) v @ print_members L d kvs"

definition json_text :: "json \<Rightarrow> string" where
  "json_text j = print_json compact 0 j"

definition json_text_indent :: "string \<Rightarrow> string \<Rightarrow> json \<Rightarrow> string" where
  "json_text_indent pre ind j = print_json (indented pre ind) 0 j"

section \<open>Reading back what was printed\<close>

text \<open>The values Go can marshal: valid UTF-8 in the strings, numbers as the encoder writes them.\<close>

fun json_ok :: "json \<Rightarrow> bool" where
  "json_ok (JNum lit) = num_ok lit"
| "json_ok (JStr s) = utf8_ok s"
| "json_ok (JArr xs) = (\<forall>x \<in> set xs. json_ok x)"
| "json_ok (JObj kvs) = (\<forall>(k, v) \<in> set kvs. utf8_ok k \<and> json_ok v)"
| "json_ok _ = True"

definition layout_ok :: "layout \<Rightarrow> bool" where
  "layout_ok L \<longleftrightarrow> (\<forall>d. list_all is_ws (newline L d)) \<and>
     (\<exists>w. colon L = CHR '':'' # w \<and> list_all is_ws w)"

text \<open>The fuel a tree needs.\<close>

fun need :: "json \<Rightarrow> nat" and need_list :: "json list \<Rightarrow> nat" and need_members :: "(string \<times> json) list \<Rightarrow> nat" where
  "need (JArr xs) = Suc (need_list xs)"
| "need (JObj kvs) = Suc (need_members kvs)"
| "need JNull = 1"
| "need (JBool _) = 1"
| "need (JNum _) = 1"
| "need (JStr _) = 1"
| "need_list [] = 0"
| "need_list (x # xs) = Suc (max (need x) (need_list xs))"
| "need_members [] = 0"
| "need_members ((k, v) # kvs) = Suc (max (need v) (need_members kvs))"

lemma layout_ok_compact: "layout_ok compact"
  by (simp add: layout_ok_def compact_def)

lemma list_all_concat_replicate: "list_all P x \<Longrightarrow> list_all P (concat (replicate n x))"
  by (induction n) auto

lemma layout_ok_indented:
  "list_all is_ws pre \<Longrightarrow> list_all is_ws ind \<Longrightarrow> layout_ok (indented pre ind)"
  by (auto simp: layout_ok_def indented_def is_ws_def list_all_concat_replicate)

lemma skip_ws_app: "list_all is_ws w \<Longrightarrow> skip_ws (w @ s) = skip_ws s"
  by (induction w) (auto simp: skip_ws_def)

lemma skip_ws_stop: "\<not> is_ws c \<Longrightarrow> skip_ws (c # s) = c # s"
  by (simp add: skip_ws_def)

lemma num_end_ws: "list_all is_ws w \<Longrightarrow> num_end s \<Longrightarrow> num_end (w @ s)"
  by (cases w) (auto simp: num_end_def is_ws_def is_digit_def digit_val_def Let_def)

lemma num_end_close:
  "num_end ('']'' @ t)" "num_end (''}'' @ t)" "num_end ('','' @ t)"
  by (simp_all add: num_end_def is_digit_def digit_val_def)

lemma not_ws: "\<not> is_ws CHR '']''" "\<not> is_ws CHR ''}''" "\<not> is_ws CHR '',''" "\<not> is_ws CHR '':''"
  "\<not> is_ws CHR ''[''" "\<not> is_ws CHR ''{''" "\<not> is_ws quote_char" "\<not> is_ws CHR ''n''"
  "\<not> is_ws CHR ''t''" "\<not> is_ws CHR ''f''" "\<not> is_ws CHR ''-''"
  by (simp_all add: is_ws_def)

lemma not_ws_digit: "is_digit c \<Longrightarrow> \<not> is_ws c \<and> c \<noteq> CHR '']'' \<and> c \<noteq> CHR ''}'' \<and> c \<noteq> CHR ''['' \<and> c \<noteq> CHR ''{'' \<and> c \<noteq> quote_char"
  by (auto simp: is_ws_def is_digit_def digit_val_def Let_def)

lemma print_json_first:
  assumes "json_ok j"
  shows "\<exists>c r. print_json L d j = c # r \<and> \<not> is_ws c \<and> c \<noteq> CHR '']''"
proof (cases j)
  case (JNum lit)
  with assms num_ok_first [of lit] not_ws_digit not_ws show ?thesis by fastforce
next
  case (JArr xs)
  then show ?thesis by (cases xs) (auto simp: not_ws)
next
  case (JObj kvs)
  then show ?thesis by (cases kvs) (auto simp: not_ws)
qed (auto simp: not_ws quoted_def)

lemma skip_print: "json_ok j \<Longrightarrow> skip_ws (print_json L d j @ t) = print_json L d j @ t"
  using print_json_first [of j L d] by (auto simp: skip_ws_stop)

definition reads :: "layout \<Rightarrow> json \<Rightarrow> bool" where
  "reads L j \<longleftrightarrow> (\<forall>n d t. need j \<le> n \<longrightarrow> num_end t \<longrightarrow> parse_val n (print_json L d j @ t) = Some (j, t))"

lemma num_end_elems: "layout_ok L \<Longrightarrow> num_end (print_elems L d xs @ t)"
  by (cases xs) (simp_all add: layout_ok_def num_end_ws num_end_close [simplified])

lemma num_end_members: "layout_ok L \<Longrightarrow> num_end (print_members L d kvs @ t)"
  by (cases kvs) (auto simp: layout_ok_def num_end_ws num_end_close [simplified])

lemma parse_elems_print:
  assumes L: "layout_ok L"
  shows "\<forall>y \<in> set (x # xs). reads L y \<and> json_ok y \<Longrightarrow> need_list (x # xs) \<le> n \<Longrightarrow>
    parse_elems n (print_json L (Suc d) x @ print_elems L d xs @ t) = Some (x # xs, t)"
proof (induction xs arbitrary: x n)
  case Nil
  from Nil.prems(2) obtain m where n: "n = Suc m" by (cases n) auto
  from Nil.prems n num_end_elems [OF L, of d "[]" t]
  have "parse_val m (print_json L (Suc d) x @ newline L d @ '']'' @ t) = Some (x, newline L d @ '']'' @ t)"
    by (simp add: reads_def)
  with L n show ?case by (simp add: layout_ok_def skip_ws_app skip_ws_stop not_ws)
next
  case (Cons y ys)
  from Cons.prems(2) obtain m where n: "n = Suc m" by (cases n) auto
  have "parse_val m (print_json L (Suc d) x @ print_elems L d (y # ys) @ t) = Some (x, print_elems L d (y # ys) @ t)"
    using Cons.prems n num_end_elems [OF L, of d "y # ys" t] unfolding reads_def by simp
  moreover have "parse_elems m (print_json L (Suc d) y @ print_elems L d ys @ t) = Some (y # ys, t)"
    using Cons.prems n by (intro Cons.IH) auto
  moreover have "skip_ws (newline L (Suc d) @ print_json L (Suc d) y @ u) = print_json L (Suc d) y @ u" for u
    using L Cons.prems(1) by (simp add: layout_ok_def skip_ws_app skip_print)
  ultimately show ?case by (simp add: n skip_ws_stop not_ws)
qed

lemma strip_quote: "strip_prefix [quote_char] (quoted k @ u) = Some (esc_string k @ quote_char # u)"
  by (simp add: quoted_def)

lemma skip_colon:
  assumes "layout_ok L" and "json_ok v"
  shows "\<exists>s. strip_prefix '':'' (skip_ws (colon L @ print_json L d v @ u)) = Some s \<and> skip_ws s = print_json L d v @ u"
  using assms by (auto simp: layout_ok_def skip_ws_stop not_ws skip_ws_app skip_print)

lemma parse_members_print:
  assumes L: "layout_ok L"
  shows "\<forall>(k, v) \<in> set ((k, v) # kvs). reads L v \<and> json_ok v \<and> utf8_ok k \<Longrightarrow> need_members ((k, v) # kvs) \<le> n \<Longrightarrow>
    parse_members n (quoted k @ colon L @ print_json L (Suc d) v @ print_members L d kvs @ t) = Some ((k, v) # kvs, t)"
proof (induction kvs arbitrary: k v n)
  case Nil
  from Nil.prems(2) obtain m where n: "n = Suc m" by (cases n) auto
  obtain s where s: "strip_prefix '':'' (skip_ws (colon L @ print_json L (Suc d) v @ print_members L d [] @ t)) = Some s"
    "skip_ws s = print_json L (Suc d) v @ print_members L d [] @ t"
    using skip_colon [OF L] Nil.prems(1) by fastforce
  have "parse_val m (print_json L (Suc d) v @ print_members L d [] @ t) = Some (v, print_members L d [] @ t)"
    using Nil.prems n num_end_members [OF L, of d "[]" t] unfolding reads_def by simp
  with L n s Nil.prems(1) show ?case
    by (simp add: strip_quote read_esc_string layout_ok_def skip_ws_app skip_ws_stop not_ws)
next
  case (Cons kv kvs)
  obtain l w where kv: "kv = (l, w)" by (cases kv)
  from Cons.prems(2) obtain m where n: "n = Suc m" by (cases n) auto
  let ?u = "print_members L d (kv # kvs) @ t"
  obtain s where s: "strip_prefix '':'' (skip_ws (colon L @ print_json L (Suc d) v @ ?u)) = Some s"
    "skip_ws s = print_json L (Suc d) v @ ?u"
    using skip_colon [OF L] Cons.prems(1) by fastforce
  have val: "parse_val m (print_json L (Suc d) v @ ?u) = Some (v, ?u)"
    using Cons.prems n num_end_members [OF L, of d "kv # kvs" t] unfolding reads_def by simp
  have rest: "parse_members m (quoted l @ colon L @ print_json L (Suc d) w @ print_members L d kvs @ t) = Some (kv # kvs, t)"
    unfolding kv using Cons.prems n kv by (intro Cons.IH) auto
  have nl: "skip_ws (newline L (Suc d) @ quoted l @ u) = quoted l @ u" for u
    using L by (simp add: layout_ok_def skip_ws_app quoted_def skip_ws_stop not_ws)
  have "parse_members n (quoted k @ colon L @ print_json L (Suc d) v @ ?u) =
      map_option (apfst (Cons (k, v))) (parse_members m (skip_ws (newline L (Suc d) @ quoted l @ colon L @ print_json L (Suc d) w @ print_members L d kvs @ t)))"
    using n s val Cons.prems(1) by (simp add: strip_quote read_esc_string kv skip_ws_stop not_ws)
  with rest nl show ?case by simp
qed

lemma reads_print: "layout_ok L \<Longrightarrow> json_ok j \<Longrightarrow> reads L j"
proof (induction j)
  case JNull
  show ?case by (auto simp: reads_def parse_word_def is_digit_def digit_val_def elim!: less_eq_nat.simps(2) [THEN iffD1] dest: Suc_le_D)
next
  case (JBool b)
  show ?case by (auto simp: reads_def parse_word_def is_digit_def digit_val_def dest!: Suc_le_D)
next
  case (JNum lit)
  then obtain c r where c: "lit = c # r" "c = CHR ''-'' \<or> is_digit c" using num_ok_first [of lit] by auto
  with not_ws_digit [of c] have ne: "c \<noteq> CHR ''['' \<and> c \<noteq> CHR ''{'' \<and> c \<noteq> quote_char" by auto
  show ?case unfolding reads_def
  proof (intro allI impI)
    fix n d t
    assume "need (JNum lit) \<le> n" and t: "num_end t"
    then obtain m where n: "n = Suc m" by (cases n) auto
    from JNum.prems(2) t have "scan_num (lit @ t) = Some (lit, t)" by (simp add: scan_num_end)
    with c ne n show "parse_val n (print_json L d (JNum lit) @ t) = Some (JNum lit, t)" by auto
  qed
next
  case (JStr x)
  then show ?case
    by (auto simp: reads_def quoted_def read_esc_string dest!: Suc_le_D)
next
  case (JArr xs)
  have IH: "\<forall>y \<in> set xs. reads L y \<and> json_ok y" using JArr by auto
  show ?case
  proof (cases xs)
    case Nil
    then show ?thesis by (auto simp: reads_def skip_ws_stop not_ws has_prefix_def dest!: Suc_le_D)
  next
    case (Cons y ys)
    have "parse_val n (print_json L d (JArr xs) @ t) = Some (JArr xs, t)" if "need (JArr xs) \<le> n" for n d t
    proof -
      from that obtain m where n: "n = Suc m" by (cases n) auto
      have e: "parse_elems m (print_json L (Suc d) y @ print_elems L d ys @ t) = Some (y # ys, t)"
        using that IH n Cons JArr.prems(1) by (intro parse_elems_print) auto
      have w: "skip_ws (newline L (Suc d) @ print_json L (Suc d) y @ u) = print_json L (Suc d) y @ u" for u
        using JArr.prems(1) IH Cons by (simp add: layout_ok_def skip_ws_app skip_print)
      from IH Cons print_json_first [of y L "Suc d"] have "strip_prefix '']'' (print_json L (Suc d) y @ u) = None" for u
        by auto
      with e w n Cons show ?thesis by (simp add: has_prefix_def)
    qed
    then show ?thesis by (simp add: reads_def)
  qed
next
  case (JObj kvs)
  have IH: "\<forall>(k, v) \<in> set kvs. reads L v \<and> json_ok v \<and> utf8_ok k" using JObj by fastforce
  show ?case
  proof (cases kvs)
    case Nil
    then show ?thesis by (auto simp: reads_def skip_ws_stop not_ws has_prefix_def dest!: Suc_le_D)
  next
    case (Cons kv rest)
    obtain k v where kv: "kv = (k, v)" by (cases kv)
    have "parse_val n (print_json L d (JObj kvs) @ t) = Some (JObj kvs, t)" if "need (JObj kvs) \<le> n" for n d t
    proof -
      from that obtain m where n: "n = Suc m" by (cases n) auto
      have e: "parse_members m (quoted k @ colon L @ print_json L (Suc d) v @ print_members L d rest @ t) = Some ((k, v) # rest, t)"
        using that IH n Cons kv JObj.prems(1) by (intro parse_members_print) auto
      have w: "skip_ws (newline L (Suc d) @ quoted k @ u) = quoted k @ u" for u
        using JObj.prems(1) by (simp add: layout_ok_def skip_ws_app quoted_def skip_ws_stop not_ws)
      have "strip_prefix ''}'' (quoted k @ u) = None" for u by (simp add: quoted_def)
      with e w n Cons kv show ?thesis by (simp add: has_prefix_def)
    qed
    then show ?thesis by (simp add: reads_def)
  qed
qed

lemma need_length:
  "need j \<le> 2 * length (print_json L d j) + 1"
  "need_list xs \<le> 2 * length (print_elems L d xs)"
  "need_members kvs \<le> 2 * length (print_members L d kvs)"
  by (induction L d j and L d xs and L d kvs rule: print_json_print_elems_print_members.induct)
    (auto simp: quoted_def)

theorem json_parse_print:
  assumes "layout_ok L" and "json_ok j"
  shows "json_parse (print_json L 0 j) = Some j"
proof -
  have "parse_val (2 * length (print_json L 0 j) + 2) (print_json L 0 j @ []) = Some (j, [])"
  proof -
    have "need j \<le> 2 * length (print_json L 0 j) + 2" using need_length(1) [of j L 0] by simp
    moreover have "num_end []" by (simp add: num_end_def)
    ultimately show ?thesis using reads_print [OF assms] unfolding reads_def by blast
  qed
  moreover have "skip_ws (print_json L 0 j) = print_json L 0 j"
    using skip_print [OF assms(2), of L 0 "[]"] by simp
  ultimately show ?thesis by (simp add: json_parse_def skip_ws_def)
qed

section \<open>The fuel is enough\<close>

lemma skip_ws_length: "length (skip_ws s) \<le> length s"
  by (simp add: skip_ws_def length_dropWhile_le)

lemma read_string_shorter: "read_string s = Some (t, r) \<Longrightarrow> length r < length s"
proof (induction s arbitrary: t r rule: length_induct)
  case (1 s)
  have IH: "length r' < length s'" if "read_string s' = Some (t', r')" "length s' < length s" for s' t' r'
    using 1 that by blast
  show ?case
  proof (cases s)
    case Nil
    with "1.prems" show ?thesis by (simp add: read_string.simps)
  next
    case (Cons c q)
    then have pos: "0 < rune_len s" by (simp add: rune_len_pos)
    consider "c = quote_char" "r = q"
      | x r1 t1 where "read_escape q = Some (x, r1)" "read_string r1 = Some (t1, r)"
      | t1 where "read_string q = Some (t1, r)"
      | t1 where "read_string (drop (rune_len s) s) = Some (t1, r)"
      using "1.prems" Cons
      by (auto simp: read_string.simps [of "c # q"] apfst_eq_pair split: if_splits option.splits prod.splits)
    then show ?thesis
    proof cases
      case 1
      with Cons show ?thesis by simp
    next
      case (2 x r1 t1)
      with read_escape_shorter [OF 2(1)] IH [OF 2(2)] Cons show ?thesis by simp
    next
      case (3 t1)
      with IH [OF 3] Cons show ?thesis by simp
    next
      case (4 t1)
      with IH [OF 4] pos Cons show ?thesis by simp
    qed
  qed
qed

lemma span_digits_length: "length (snd (span_digits s)) \<le> length s"
  by (induction s) auto

lemma scan_num_shorter: "scan_num s = Some (l, r) \<Longrightarrow> length r < length s"
proof -
  assume a: "scan_num s = Some (l, r)"
  obtain g s1 where g: "scan_sign s = (g, s1)" by (cases "scan_sign s")
  from a obtain i s2 f s3 e where
    i: "scan_int s1 = Some (i, s2)" and f: "scan_frac s2 = Some (f, s3)" and e: "scan_exp s3 = Some (e, r)"
    by (auto simp: scan_num_def g bind_eq_Some_conv)
  have "length s1 \<le> length s"
    using g by (auto simp: scan_sign_def split: list.splits if_splits)
  moreover have "length s2 < length s1"
  proof (cases s1)
    case Nil
    with i show ?thesis by (simp add: scan_int_def)
  next
    case (Cons c q)
    with i span_digits_length [of q] show ?thesis
      by (auto simp: scan_int_def apfst_eq_pair split: if_splits)
  qed
  moreover have "length s3 \<le> length s2"
    using f span_digits_length [of "tl s2"] by (auto simp: scan_frac_def split: list.splits if_splits prod.splits)
  moreover have "length r \<le> length s3"
    using e span_digits_length [of "snd (scan_exp_sign (tl s3))"]
    by (auto simp: scan_exp_def scan_exp_sign_def apfst_eq_pair split: list.splits if_splits prod.splits)
  ultimately show ?thesis by linarith
qed

lemma parse_word_shorter: "parse_word s = Some (v, r) \<Longrightarrow> length r < length s"
  by (auto simp: parse_word_def strip_prefix_Some_iff split: option.splits)

lemma strip_prefix_skip_shorter: "strip_prefix (p # ps) (skip_ws s) = Some r \<Longrightarrow> length r < length s"
  using skip_ws_length [of s] by (auto simp: strip_prefix_Some_iff)

lemma skip_ws_cons_shorter: "skip_ws s = c # r \<Longrightarrow> length r < length s"
  using skip_ws_length [of s] by simp

lemma parse_shorter:
  "parse_val n s = Some (v, r) \<Longrightarrow> length r < length s"
  "parse_elems n s = Some (vs, r) \<Longrightarrow> length r < length s"
  "parse_members n s = Some (kvs, r) \<Longrightarrow> length r < length s"
proof (induction n arbitrary: s v r vs kvs)
  case 0
  { case 1 then show ?case by simp }
  { case 2 then show ?case by simp }
  { case 3 then show ?case by simp }
next
  case (Suc n)
  { case 1
    show ?case
    proof (cases s)
      case Nil
      with 1 show ?thesis by simp
    next
      case (Cons c q)
      have sk: "length x < Suc (length q)" if "length x < length (skip_ws q)" for x :: string
        using that skip_ws_length [of q] by linarith
      have tl: "length (skip_ws q) - Suc 0 < Suc (length q)"
        using skip_ws_length [of q] by linarith
      from 1 Cons show ?thesis
        by (auto simp: apfst_eq_pair tl split: if_splits
            dest!: Suc.IH(2) Suc.IH(3) read_string_shorter scan_num_shorter parse_word_shorter intro: sk)
    qed }
  { case 2
    then obtain w r0 where v: "parse_val n s = Some (w, r0)" by (auto split: option.splits)
    with 2 obtain c r1 where c: "skip_ws r0 = c # r1" by (auto split: list.splits)
    from Suc.IH(1) [OF v] skip_ws_cons_shorter [OF c] have r1: "length r1 < length s" by linarith
    from 2 v c consider "r = r1" | us where "parse_elems n (skip_ws r1) = Some (us, r)"
      by (auto simp: apfst_eq_pair split: if_splits)
    then show ?case
    proof cases
      case (2 us)
      from Suc.IH(2) [OF 2] skip_ws_length [of r1] r1 show ?thesis by linarith
    qed (simp add: r1) }
  { case 3
    then obtain s1 k s2 s3 w r0 c r1 where
      a: "strip_prefix [quote_char] s = Some s1" "read_string s1 = Some (k, s2)"
      "strip_prefix '':'' (skip_ws s2) = Some s3" "parse_val n (skip_ws s3) = Some (w, r0)" "skip_ws r0 = c # r1"
      by (auto split: option.splits list.splits)
    from a(1) have "length s1 < length s" by (auto simp: strip_prefix_Some_iff)
    with read_string_shorter [OF a(2)] strip_prefix_skip_shorter [OF a(3)] Suc.IH(1) [OF a(4)]
      skip_ws_length [of s3] skip_ws_cons_shorter [OF a(5)]
    have r1: "length r1 < length s" by linarith
    from 3 a consider "r = r1" | us where "parse_members n (skip_ws r1) = Some (us, r)"
      by (auto simp: apfst_eq_pair split: if_splits)
    then show ?case
    proof cases
      case (2 us)
      from Suc.IH(3) [OF 2] skip_ws_length [of r1] r1 show ?thesis by linarith
    qed (simp add: r1) }
qed

text \<open>Beyond twice the length of the text, more fuel changes nothing.\<close>

lemma parse_fuel:
  "2 * length s < n \<Longrightarrow> n \<le> m \<Longrightarrow> parse_val m s = parse_val n s"
  "2 * length s + 1 < n \<Longrightarrow> n \<le> m \<Longrightarrow> parse_elems m s = parse_elems n s"
  "2 * length s + 1 < n \<Longrightarrow> n \<le> m \<Longrightarrow> parse_members m s = parse_members n s"
proof (induction n arbitrary: s m)
  case 0
  { case 1 then show ?case by simp }
  { case 2 then show ?case by simp }
  { case 3 then show ?case by simp }
next
  case (Suc n)
  { case 1
    then obtain m' where m: "m = Suc m'" "n \<le> m'" by (auto dest: Suc_le_D)
    show ?case
    proof (cases s)
      case (Cons c q)
      with 1 skip_ws_length [of q] have "2 * length (skip_ws q) + 1 < n" by simp
      from Suc.IH(2,3) [OF this m(2)] show ?thesis by (simp add: m Cons)
    qed (simp add: m) }
  { case 2
    then obtain m' where m: "m = Suc m'" "n \<le> m'" by (auto dest: Suc_le_D)
    from 2 have "2 * length s < n" by simp
    from Suc.IH(1) [OF this m(2)] have v: "parse_val m' s = parse_val n s" .
    have "parse_elems m' (skip_ws r1) = parse_elems n (skip_ws r1)"
      if "parse_val n s = Some (w, r0)" "skip_ws r0 = c # r1" for w r0 c r1
      using parse_shorter(1) [OF that(1)] skip_ws_cons_shorter [OF that(2)] skip_ws_length [of r1] 2
      by (intro Suc.IH(2) m) linarith
    with v m show ?case by (auto split: option.splits list.splits) }
  { case 3
    then obtain m' where m: "m = Suc m'" "n \<le> m'" by (auto dest: Suc_le_D)
    show ?case
    proof (cases "strip_prefix [quote_char] s")
      case (Some s1)
      then have s1: "length s1 < length s" by (auto simp: strip_prefix_Some_iff)
      have v: "parse_val m' (skip_ws s3) = parse_val n (skip_ws s3)"
        if "read_string s1 = Some (k, s2)" "strip_prefix '':'' (skip_ws s2) = Some s3" for k s2 s3
        using read_string_shorter [OF that(1)] strip_prefix_skip_shorter [OF that(2)] skip_ws_length [of s3] s1 3
        by (intro Suc.IH(1) m) linarith
      have e: "parse_members m' (skip_ws r1) = parse_members n (skip_ws r1)"
        if "read_string s1 = Some (k, s2)" "strip_prefix '':'' (skip_ws s2) = Some s3"
          "parse_val n (skip_ws s3) = Some (w, r0)" "skip_ws r0 = c # r1" for k s2 s3 w r0 c r1
        using read_string_shorter [OF that(1)] strip_prefix_skip_shorter [OF that(2)] skip_ws_length [of s3]
          parse_shorter(1) [OF that(3)] skip_ws_cons_shorter [OF that(4)] skip_ws_length [of r1] s1 3
        by (intro Suc.IH(3) m) linarith
      from v e Some m show ?thesis by (auto split: option.splits list.splits)
    qed (simp add: m) }
qed

lemma json_parse_fuel:
  "2 * length s + 2 \<le> m \<Longrightarrow> parse_val m (skip_ws s) = parse_val (2 * length s + 2) (skip_ws s)"
  using skip_ws_length [of s] by (intro parse_fuel(1)) auto

end
