(* ===== verification/GoValue.thy ===== *)
theory GoValue
  imports JsonText
begin

text \<open>
  The values the program passes around as \<open>interface{}\<close>: what applications hand to
  EmitEvent, EmitPropertyChange, InvokeAction and WriteProperty, and what \<open>json.Unmarshal\<close>
  makes of a payload. Here are their JSON encoding and decoding, their printing with
  \<open>fmt.Sprint\<close>, and their comparison with \<open>==\<close>, which panics on slices and maps.

  A float64 is represented by the decimal Go prints for it, a mantissa and a power of ten
  without trailing zeros; this is exact for the numbers of at most 15 significant digits. NaN, the
  infinities, negative zero, and the rounding of longer literals are not modelled. A Go int is
  an \<open>int\<close>; decoded it becomes a float64, which is exact up to \<open>2 ^ 53\<close>, and \<open>goval_ok\<close> asks for no more.
\<close>

section \<open>Decimal floating point\<close>

datatype dec = Dec (mant: int) (expo: int)

function norm_dec :: "int \<Rightarrow> int \<Rightarrow> dec" where
  "norm_dec m e = (if m = 0 then Dec 0 0
                   else if m mod 10 = 0 then norm_dec (m div 10) (e + 1)
                   else Dec m e)"
  by pat_completeness auto
termination
  by (relation "measure (\<lambda>(m, e). nat \<bar>m\<bar>)") (auto simp: abs_div)

declare norm_dec.simps [simp del]

definition dec_ok :: "dec \<Rightarrow> bool" where
  "dec_ok d \<longleftrightarrow> (if mant d = 0 then expo d = 0 else mant d mod 10 \<noteq> 0)"

lemma norm_dec_ok: "dec_ok (norm_dec m e)"
proof (induction m e rule: norm_dec.induct)
  case (1 m e)
  then show ?case
    by (cases "m = 0"; cases "m mod 10 = 0") (simp_all add: norm_dec.simps [of m e] norm_dec.simps [of 0 e] dec_ok_def)
qed

lemma norm_dec_id: "dec_ok d \<Longrightarrow> norm_dec (mant d) (expo d) = d"
  by (subst norm_dec.simps) (cases d, auto simp: dec_ok_def)

lemma norm_dec_shift: "norm_dec (m * 10 ^ k) e = (if m = 0 then Dec 0 0 else norm_dec m (e + int k))"
proof (induction k arbitrary: e)
  case 0
  show ?case by (simp add: norm_dec.simps [of 0 e])
next
  case (Suc k)
  have "norm_dec (m * 10 ^ Suc k) e = (if m = 0 then Dec 0 0 else norm_dec (m * 10 ^ k) (e + 1))"
    by (subst norm_dec.simps) simp
  with Suc show ?case by (simp add: algebra_simps)
qed

definition digits_of :: "dec \<Rightarrow> string" where
  "digits_of d = show_nat (nat \<bar>mant d\<bar>)"

text \<open>The position of the decimal point, counted from the first digit.\<close>

definition point_of :: "dec \<Rightarrow> int" where
  "point_of d = int (length (digits_of d)) + expo d"

definition sign_of :: "dec \<Rightarrow> string" where
  "sign_of d = (if mant d < 0 then ''-'' else [])"

text \<open>\<open>strconv.FormatFloat\<close> with the shortest precision, formats \<open>f\<close> and \<open>e\<close>.\<close>

definition format_f :: "dec \<Rightarrow> string" where
  "format_f d =
     (let ds = digits_of d; nd = int (length ds); dp = point_of d in
      sign_of d @
      (if 0 < dp then take (nat dp) (ds @ replicate (nat (dp - nd)) CHR ''0'') else ''0'') @
      (if dp < nd then CHR ''.'' # replicate (nat (- dp)) CHR ''0'' @ drop (nat dp) ds else []))"

definition exp_digits :: "nat \<Rightarrow> string" where
  "exp_digits n = (if n < 10 then CHR ''0'' # show_nat n else show_nat n)"

definition format_e_with :: "(nat \<Rightarrow> string) \<Rightarrow> dec \<Rightarrow> string" where
  "format_e_with neg d =
     (let ds = digits_of d; x = point_of d - 1 in
      sign_of d @ [hd ds] @ (if tl ds = [] then [] else CHR ''.'' # tl ds) @
      (if x < 0 then ''e-'' @ neg (nat (- x)) else ''e+'' @ exp_digits (nat x)))"

text \<open>\<open>fmt.Sprint\<close> of a float64: the exponent form from a million on.\<close>

definition sprint_float :: "dec \<Rightarrow> string" where
  "sprint_float d =
     (if point_of d - 1 < - 4 \<or> 6 \<le> point_of d - 1 then format_e_with exp_digits d else format_f d)"

text \<open>The encoding in JSON: the exponent form below 1e-6 and from 1e21 on, with \<open>e-09\<close> cut to \<open>e-9\<close>.\<close>

definition json_float :: "dec \<Rightarrow> string" where
  "json_float d =
     (if mant d \<noteq> 0 \<and> (point_of d - 1 < - 6 \<or> 21 \<le> point_of d - 1)
      then format_e_with show_nat d else format_f d)"

text \<open>The number a JSON literal denotes.\<close>

definition exp_val :: "string \<Rightarrow> int" where
  "exp_val e =
     (case e of
        [] \<Rightarrow> 0
      | c # r \<Rightarrow>
          (case scan_exp_sign r of (g, ds) \<Rightarrow>
             let n = int (case read_digits 0 ds of Some n \<Rightarrow> n | None \<Rightarrow> 0)
             in if g = ''-'' then - n else n))"

definition dec_of_lit :: "string \<Rightarrow> dec" where
  "dec_of_lit lit =
     (case scan_sign lit of (sg, s1) \<Rightarrow>
      case scan_int s1 of None \<Rightarrow> Dec 0 0 | Some (i, s2) \<Rightarrow>
      case scan_frac s2 of None \<Rightarrow> Dec 0 0 | Some (f, s3) \<Rightarrow>
      case scan_exp s3 of None \<Rightarrow> Dec 0 0 | Some (e, s4) \<Rightarrow>
        let m = int (case read_digits 0 (i @ tl f) of Some n \<Rightarrow> n | None \<Rightarrow> 0)
        in norm_dec (if sg = [] then m else - m) (exp_val e - int (length (tl f))))"

section \<open>A literal by its parts\<close>

definition int_part :: "string \<Rightarrow> bool" where
  "int_part i \<longleftrightarrow> i = ''0'' \<or> (i \<noteq> [] \<and> list_all is_digit i \<and> hd i \<noteq> CHR ''0'')"

definition frac_part :: "string \<Rightarrow> bool" where
  "frac_part f \<longleftrightarrow> f = [] \<or> (\<exists>ds. f = CHR ''.'' # ds \<and> ds \<noteq> [] \<and> list_all is_digit ds)"

definition exp_part :: "string \<Rightarrow> bool" where
  "exp_part e \<longleftrightarrow> e = [] \<or> (\<exists>g ds. e = CHR ''e'' # g # ds \<and> (g = CHR ''+'' \<or> g = CHR ''-'') \<and> ds \<noteq> [] \<and> list_all is_digit ds)"

definition no_digit :: "string \<Rightarrow> bool" where
  "no_digit t \<longleftrightarrow> t = [] \<or> \<not> is_digit (hd t)"

lemma span_digits_all: "list_all is_digit ds \<Longrightarrow> no_digit t \<Longrightarrow> span_digits (ds @ t) = (ds, t)"
  by (induction ds) (cases t, auto simp: no_digit_def)

lemma not_digit: "\<not> is_digit CHR ''.''" "\<not> is_digit CHR ''e''" "\<not> is_digit CHR ''-''" "\<not> is_digit CHR ''+''"
  "is_digit CHR ''0''"
  by (simp_all add: is_digit_def digit_val_def)

lemma scan_sign_digits: "t \<noteq> [] \<Longrightarrow> is_digit (hd t) \<Longrightarrow> scan_sign t = ([], t)"
  using not_digit by (cases t) (auto simp: scan_sign_def)

lemma int_part_hd: "int_part i \<Longrightarrow> i \<noteq> [] \<and> is_digit (hd i)"
  by (auto simp: int_part_def not_digit) (cases i; simp)

lemma scan_int_part: "int_part i \<Longrightarrow> no_digit t \<Longrightarrow> scan_int (i @ t) = Some (i, t)"
proof -
  assume i: "int_part i" and t: "no_digit t"
  show ?thesis
  proof (cases "i = ''0''")
    case True
    then show ?thesis by (simp add: scan_int_def)
  next
    case False
    with i obtain c r where c: "i = c # r" "is_digit c" "c \<noteq> CHR ''0''" "list_all is_digit i"
      by (cases i) (auto simp: int_part_def)
    with span_digits_all [OF c(4) t] show ?thesis by (simp add: scan_int_def)
  qed
qed

lemma scan_frac_part:
  assumes "frac_part f" and "no_digit t" and "t = [] \<or> hd t \<noteq> CHR ''.''"
  shows "scan_frac (f @ t) = Some (f, t)"
proof (cases f)
  case Nil
  with assms show ?thesis by (cases t) (simp_all add: scan_frac_def)
next
  case (Cons c ds)
  with assms span_digits_all [of ds t] show ?thesis by (auto simp: frac_part_def scan_frac_def)
qed

lemma scan_exp_part: "exp_part e \<Longrightarrow> scan_exp e = Some (e, [])"
  using span_digits_all [of _ "[]"] by (auto simp: exp_part_def scan_exp_def scan_exp_sign_def no_digit_def)

lemma exp_part_hd: "exp_part e \<Longrightarrow> no_digit e \<and> (e = [] \<or> hd e \<noteq> CHR ''.'')"
  by (auto simp: exp_part_def no_digit_def not_digit)

lemma frac_part_hd: "frac_part f \<Longrightarrow> no_digit t \<Longrightarrow> no_digit (f @ t)"
  by (auto simp: frac_part_def no_digit_def not_digit)

lemma literal_parts:
  assumes sg: "sg = [] \<or> sg = ''-''" and i: "int_part i" and f: "frac_part f" and e: "exp_part e"
  shows "num_ok (sg @ i @ f @ e)"
    and "dec_of_lit (sg @ i @ f @ e) =
      norm_dec ((if sg = [] then id else uminus) (int (case read_digits 0 (i @ tl f) of Some n \<Rightarrow> n | None \<Rightarrow> 0)))
               (exp_val e - int (length (tl f)))"
proof -
  have s: "scan_sign (sg @ i @ f @ e) = (sg, i @ f @ e)"
    using sg int_part_hd [OF i] scan_sign_digits [of "i @ f @ e"] by auto (simp add: scan_sign_def)
  have "scan_int (i @ f @ e) = Some (i, f @ e)"
    by (rule scan_int_part [OF i]) (rule frac_part_hd [OF f], use exp_part_hd [OF e] in simp)
  moreover have "scan_frac (f @ e) = Some (f, e)"
    using exp_part_hd [OF e] by (intro scan_frac_part f) auto
  moreover have "scan_exp e = Some (e, [])" by (rule scan_exp_part [OF e])
  ultimately show "num_ok (sg @ i @ f @ e)"
    and "dec_of_lit (sg @ i @ f @ e) =
      norm_dec ((if sg = [] then id else uminus) (int (case read_digits 0 (i @ tl f) of Some n \<Rightarrow> n | None \<Rightarrow> 0)))
               (exp_val e - int (length (tl f)))"
    using s by (auto simp: num_ok_def scan_num_def dec_of_lit_def Let_def)
qed

section \<open>Printed numbers read back\<close>

lemma is_digit_char [simp]: "d < 10 \<Longrightarrow> is_digit (digit_char d)"
  by (simp add: is_digit_def)

lemma show_nat_all_digits: "list_all is_digit (show_nat n)"
  by (auto simp: list_all_iff dest!: show_nat_digits)

lemma digit_char_zero: "digit_char 0 = CHR ''0''"
  by (rule of_char_eq_iff [where ?'a = nat, THEN iffD1]) (simp add: digit_char_def)

lemma digit_char_ne_zero: "0 < d \<Longrightarrow> d < 10 \<Longrightarrow> digit_char d \<noteq> CHR ''0''"
  by (metis digit_val_char digit_char_zero option.inject zero_less_numeral less_numeral_extra(3))

lemma show_nat_hd: "0 < n \<Longrightarrow> hd (show_nat n) \<noteq> CHR ''0''"
proof (induction n rule: show_nat.induct)
  case (1 n)
  then show ?case
    by (cases "n < 10") (auto simp: show_nat.simps [of n] digit_char_ne_zero)
qed

lemma show_nat_int_part: "int_part (show_nat n)"
proof (cases "n = 0")
  case True
  then show ?thesis by (simp add: int_part_def show_nat.simps digit_char_zero)
next
  case False
  then show ?thesis using show_nat_hd [of n] by (simp add: int_part_def show_nat_all_digits)
qed

lemma read_digits_zeros: "read_digits n (replicate k CHR ''0'') = Some (n * 10 ^ k)"
  by (induction k arbitrary: n) (auto simp: digit_val_def)

lemma read_digits_pad: "read_digits 0 (replicate k CHR ''0'' @ s) = read_digits 0 s"
  by (simp add: read_digits_append read_digits_zeros)

lemma list_all_replicate_digit: "list_all is_digit (replicate k CHR ''0'')"
  by (simp add: list_all_iff not_digit)

theorem show_int_literal:
  "num_ok (show_int i)" "dec_of_lit (show_int i) = norm_dec i 0"
proof -
  have p: "show_int i = (if i < 0 then ''-'' else []) @ show_nat (nat \<bar>i\<bar>) @ [] @ []"
    by (simp add: show_int_def)
  show "num_ok (show_int i)"
    unfolding p by (rule literal_parts) (auto simp: show_nat_int_part frac_part_def exp_part_def)
  have "dec_of_lit (show_int i) = norm_dec ((if (if i < 0 then ''-'' else []) = [] then id else uminus)
      (int (case read_digits 0 (show_nat (nat \<bar>i\<bar>) @ tl []) of Some n \<Rightarrow> n | None \<Rightarrow> 0))) (exp_val [] - int (length (tl ([] :: string))))"
    unfolding p by (rule literal_parts) (auto simp: show_nat_int_part frac_part_def exp_part_def)
  then show "dec_of_lit (show_int i) = norm_dec i 0"
    by (simp add: read_digits_show exp_val_def split: if_splits)
qed

lemma digits_of_ne: "digits_of d \<noteq> []"
  by (simp add: digits_of_def)

lemma digits_of_all: "list_all is_digit (digits_of d)"
  by (simp add: digits_of_def show_nat_all_digits)

lemma read_digits_of: "read_digits 0 (digits_of d) = Some (nat \<bar>mant d\<bar>)"
  by (simp add: digits_of_def read_digits_show)

lemma digits_of_hd: "mant d \<noteq> 0 \<Longrightarrow> hd (digits_of d) \<noteq> CHR ''0''"
  by (simp add: digits_of_def show_nat_hd)

lemma int_part_prefix:
  assumes "mant d \<noteq> 0" and "xs \<noteq> []" and "hd xs = hd (digits_of d)" and "list_all is_digit xs"
  shows "int_part xs"
  using assms digits_of_hd [of d] by (simp add: int_part_def)

text \<open>The number behind sign and digits, put together again.\<close>

lemma norm_signed: "norm_dec ((if sign_of d = [] then id else uminus) (int (nat \<bar>mant d\<bar>))) e = norm_dec (mant d) e"
  by (simp add: sign_of_def)

lemma norm_signed_shift:
  assumes "dec_ok d"
  shows "norm_dec ((if sign_of d = [] then id else uminus) (int (nat \<bar>mant d\<bar> * 10 ^ k))) (expo d - int k) = d"
proof -
  have "(if sign_of d = [] then id else uminus) (int (nat \<bar>mant d\<bar> * 10 ^ k)) = mant d * 10 ^ k"
    by (simp add: sign_of_def)
  with norm_dec_shift [of "mant d" k "expo d - int k"] norm_dec_id [OF assms] assms show ?thesis
    by (cases d) (auto simp: dec_ok_def)
qed

lemma sign_of_cases: "sign_of d = [] \<or> sign_of d = ''-''"
  by (simp add: sign_of_def)

lemma format_f_reads:
  assumes d: "dec_ok d"
  shows "num_ok (format_f d) \<and> dec_of_lit (format_f d) = d"
proof -
  let ?ds = "digits_of d" and ?dp = "point_of d"
  let ?nd = "int (length (digits_of d))"
  have nd: "0 < ?nd" using digits_of_ne [of d] by simp
  consider (whole) "?nd \<le> ?dp" | (mixed) "0 < ?dp" "?dp < ?nd" | (frac) "?dp \<le> 0" using nd by linarith
  then show ?thesis
  proof cases
    case whole
    define k where "k = nat (expo d)"
    have k: "expo d = int k" using whole by (simp add: k_def point_of_def)
    have form: "format_f d = sign_of d @ (?ds @ replicate k CHR ''0'') @ [] @ []"
    proof -
      have "0 < ?nd + int k" using nd by linarith
      moreover have "nat (?nd + int k) = length ?ds + k" by linarith
      ultimately show ?thesis by (simp add: format_f_def Let_def point_of_def k)
    qed
    have i: "int_part (?ds @ replicate k CHR ''0'')"
    proof (cases "mant d = 0")
      case True
      with d k have "k = 0" by (simp add: dec_ok_def)
      with True show ?thesis using show_nat_int_part [of 0] by (simp add: digits_of_def)
    next
      case False
      then show ?thesis
        by (rule int_part_prefix) (auto simp: digits_of_ne digits_of_all list_all_replicate_digit)
    qed
    note l = literal_parts [OF sign_of_cases [of d] i, of "[]" "[]"]
    have "read_digits 0 (?ds @ replicate k CHR ''0'') = Some (nat \<bar>mant d\<bar> * 10 ^ k)"
      by (simp add: read_digits_append read_digits_of read_digits_zeros)
    with l norm_signed_shift [OF d, of k] k show ?thesis
      unfolding form by (simp add: frac_part_def exp_part_def exp_val_def)
  next
    case mixed
    then have m: "mant d \<noteq> 0" using d by (auto simp: dec_ok_def point_of_def)
    let ?i = "take (nat ?dp) ?ds" and ?f = "CHR ''.'' # drop (nat ?dp) ?ds"
    have form: "format_f d = sign_of d @ ?i @ ?f @ []"
      using mixed by (simp add: format_f_def Let_def)
    have i: "int_part ?i"
      using mixed digits_of_ne [of d] digits_of_all [of d]
      by (intro int_part_prefix [OF m]) (auto simp: hd_take list_all_iff dest: in_set_takeD)
    have f: "frac_part ?f"
      using mixed digits_of_all [of d] by (auto simp: frac_part_def list_all_iff dest: in_set_dropD)
    have "int (length (drop (nat ?dp) ?ds)) = - expo d" using mixed by (simp add: point_of_def)
    with literal_parts [OF sign_of_cases [of d] i f, of "[]"] norm_signed_shift [OF d, of 0] show ?thesis
      unfolding form by (simp add: exp_part_def exp_val_def read_digits_of)
  next
    case frac
    then have m: "mant d \<noteq> 0" using d nd by (auto simp: dec_ok_def point_of_def)
    let ?f = "CHR ''.'' # replicate (nat (- ?dp)) CHR ''0'' @ ?ds"
    have form: "format_f d = sign_of d @ ''0'' @ ?f @ []"
    proof -
      have "?dp < ?nd" using frac nd by linarith
      with frac show ?thesis by (simp add: format_f_def Let_def)
    qed
    have f: "frac_part ?f"
      using digits_of_all [of d] digits_of_ne [of d] by (auto simp: frac_part_def list_all_replicate_digit)
    have i: "int_part ''0''" by (simp add: int_part_def)
    have r: "read_digits 0 (CHR ''0'' # replicate (nat (- ?dp)) CHR ''0'' @ ?ds) = Some (nat \<bar>mant d\<bar>)"
      using read_digits_pad [of "Suc (nat (- ?dp))" ?ds] by (simp add: read_digits_of)
    have "?dp - ?nd = expo d" by (simp add: point_of_def)
    with literal_parts [OF sign_of_cases [of d] i f, of "[]"] norm_signed_shift [OF d, of 0] r frac show ?thesis
      unfolding form by (simp add: exp_part_def exp_val_def)
  qed
qed

lemma read_exp_digits: "read_digits 0 (exp_digits n) = Some n"
  using read_digits_pad [of 1 "show_nat n"] by (simp add: exp_digits_def read_digits_show)

lemma exp_digits_all: "list_all is_digit (exp_digits n) \<and> exp_digits n \<noteq> []"
  by (simp add: exp_digits_def show_nat_all_digits not_digit)

lemma format_e_reads:
  assumes d: "dec_ok d" and m: "mant d \<noteq> 0"
    and neg: "\<And>n. read_digits 0 (neg n) = Some n" "\<And>n. list_all is_digit (neg n)" "\<And>n. neg n \<noteq> []"
  shows "num_ok (format_e_with neg d) \<and> dec_of_lit (format_e_with neg d) = d"
proof -
  let ?ds = "digits_of d" and ?x = "point_of d - 1"
  let ?f = "if tl ?ds = [] then [] else CHR ''.'' # tl ?ds"
  let ?e = "if ?x < 0 then ''e-'' @ neg (nat (- ?x)) else ''e+'' @ exp_digits (nat ?x)"
  have form: "format_e_with neg d = sign_of d @ [hd ?ds] @ ?f @ ?e"
    by (simp add: format_e_with_def Let_def)
  have i: "int_part [hd ?ds]"
    using digits_of_all [of d] digits_of_ne [of d] by (intro int_part_prefix [OF m]) (cases ?ds; auto)+
  have f: "frac_part ?f"
    using digits_of_all [of d] by (cases ?ds) (auto simp: frac_part_def)
  have e: "exp_part ?e" using neg exp_digits_all by (auto simp: exp_part_def)
  have v: "exp_val ?e = ?x"
    by (simp add: exp_val_def scan_exp_sign_def neg read_exp_digits)
  have tlf: "tl ?f = tl ?ds" by simp
  have ds: "[hd ?ds] @ tl ?ds = ?ds" using digits_of_ne [of d] by simp
  have "int (length (tl ?ds)) = ?x - expo d"
    using digits_of_ne [of d] by (cases ?ds) (simp_all add: point_of_def)
  then have x: "exp_val ?e - int (length (tl ?f)) = expo d" unfolding v tlf by simp
  have "read_digits 0 ([hd ?ds] @ tl ?f) = Some (nat \<bar>mant d\<bar>)"
    unfolding tlf ds by (rule read_digits_of)
  then show ?thesis
    using literal_parts [OF sign_of_cases [of d] i f e] norm_signed_shift [OF d, of 0]
    unfolding form x by simp
qed

theorem json_float_reads:
  "dec_ok d \<Longrightarrow> num_ok (json_float d) \<and> dec_of_lit (json_float d) = d"
  using format_f_reads [of d] format_e_reads [of d show_nat]
  by (auto simp: json_float_def read_digits_show show_nat_all_digits)

section \<open>Values behind \<open>interface{}\<close>\<close>

text \<open>The keys of a map value are kept strictly sorted, so that equal maps are equal terms.\<close>

datatype goval =
    GNil
  | GBool bool
  | GInt int
  | GFloat dec
  | GString string
  | GSlice "goval list"
  | GMap "(string \<times> goval) list"

fun put_key :: "string \<Rightarrow> 'v \<Rightarrow> (string \<times> 'v) list \<Rightarrow> (string \<times> 'v) list" where
  "put_key k v [] = [(k, v)]"
| "put_key k v ((l, w) # kvs) =
     (if k = l then (k, v) # kvs
      else if k < l then (k, v) # (l, w) # kvs
      else (l, w) # put_key k v kvs)"

definition keys_sorted :: "(string \<times> 'v) list \<Rightarrow> bool" where
  "keys_sorted kvs \<longleftrightarrow> sorted_wrt (<) (map fst kvs)"

definition from_pairs :: "(string \<times> 'v) list \<Rightarrow> (string \<times> 'v) list" where
  "from_pairs kvs = fold (\<lambda>(k, v). put_key k v) kvs []"

text \<open>\<open>json.Marshal\<close> builds this tree: the keys of a map in sorted order.\<close>

fun to_json :: "goval \<Rightarrow> json" where
  "to_json GNil = JNull"
| "to_json (GBool b) = JBool b"
| "to_json (GInt i) = JNum (show_int i)"
| "to_json (GFloat d) = JNum (json_float d)"
| "to_json (GString s) = JStr s"
| "to_json (GSlice vs) = JArr (map to_json vs)"
| "to_json (GMap kvs) = JObj (map (\<lambda>(k, v). (k, to_json v)) kvs)"

text \<open>\<open>json.Unmarshal\<close> into an \<open>interface{}\<close>: every number becomes a float64, of two equal keys the last counts.\<close>

fun of_json :: "json \<Rightarrow> goval" where
  "of_json JNull = GNil"
| "of_json (JBool b) = GBool b"
| "of_json (JNum lit) = GFloat (dec_of_lit lit)"
| "of_json (JStr s) = GString s"
| "of_json (JArr xs) = GSlice (map of_json xs)"
| "of_json (JObj kvs) = GMap (from_pairs (map (\<lambda>(k, v). (k, of_json v)) kvs))"

text \<open>What a value becomes on its way through JSON.\<close>

fun canon :: "goval \<Rightarrow> goval" where
  "canon (GInt i) = GFloat (norm_dec i 0)"
| "canon (GSlice vs) = GSlice (map canon vs)"
| "canon (GMap kvs) = GMap (map (\<lambda>(k, v). (k, canon v)) kvs)"
| "canon v = v"

text \<open>The values JSON gives: no integers, and the keys of every map in order, each once.\<close>

fun json_typed :: "goval \<Rightarrow> bool" where
  "json_typed (GInt i) = False"
| "json_typed (GSlice vs) = list_all json_typed vs"
| "json_typed (GMap kvs) = (keys_sorted kvs \<and> list_all (\<lambda>(k, v). json_typed v) kvs)"
| "json_typed _ = True"

text \<open>
  The values that can be encoded: decimals in normal form, strings that are UTF-8, and maps with their keys in order. Those whose way through
  JSON is modelled have in addition only integers that a float64 holds exactly.
\<close>

fun marshal_ok :: "goval \<Rightarrow> bool" where
  "marshal_ok (GFloat d) = dec_ok d"
| "marshal_ok (GString s) = utf8_ok s"
| "marshal_ok (GSlice vs) = list_all marshal_ok vs"
| "marshal_ok (GMap kvs) = (keys_sorted kvs \<and> list_all (\<lambda>(k, v). utf8_ok k \<and> marshal_ok v) kvs)"
| "marshal_ok _ = True"

fun goval_ok :: "goval \<Rightarrow> bool" where
  "goval_ok (GInt i) = (\<bar>i\<bar> \<le> 2 ^ 53)"
| "goval_ok (GFloat d) = dec_ok d"
| "goval_ok (GString s) = utf8_ok s"
| "goval_ok (GSlice vs) = list_all goval_ok vs"
| "goval_ok (GMap kvs) = (keys_sorted kvs \<and> list_all (\<lambda>(k, v). utf8_ok k \<and> goval_ok v) kvs)"
| "goval_ok _ = True"

lemma goval_marshal_ok: "goval_ok v \<Longrightarrow> marshal_ok v"
  by (induction v rule: marshal_ok.induct) (auto simp: list_all_iff)

text \<open>\<open>fmt.Sprint\<close> of one value.\<close>

fun sprint :: "goval \<Rightarrow> string" where
  "sprint GNil = ''<nil>''"
| "sprint (GBool b) = (if b then ''true'' else ''false'')"
| "sprint (GInt i) = show_int i"
| "sprint (GFloat d) = sprint_float d"
| "sprint (GString s) = s"
| "sprint (GSlice vs) = ''['' @ join_with CHR '' '' (map sprint vs) @ '']''"
| "sprint (GMap kvs) = ''map['' @ join_with CHR '' '' (map (\<lambda>(k, v). k @ '':'' @ sprint v) kvs) @ '']''"

text \<open>\<open>==\<close> on two interface values: types that differ are unequal, two slices or two maps panic.\<close>

fun iface_eq :: "goval \<Rightarrow> goval \<Rightarrow> bool outcome" where
  "iface_eq (GSlice _) (GSlice _) = Panic UncomparableTypes"
| "iface_eq (GMap _) (GMap _) = Panic UncomparableTypes"
| "iface_eq a b = Ret (a = b)"

lemma iface_eq_Ret_iff: "iface_eq a b = Ret r \<Longrightarrow> r = (a = b)"
  by (induction a b rule: iface_eq.induct) auto

lemma put_key_above: "list_all (\<lambda>(l, w). l < k) kvs \<Longrightarrow> put_key k v kvs = kvs @ [(k, v)]"
  by (induction kvs) (auto split: if_splits)

lemma from_pairs_snoc_sorted:
  "keys_sorted (acc @ kvs) \<Longrightarrow> fold (\<lambda>(k, v). put_key k v) kvs acc = acc @ kvs"
proof (induction kvs arbitrary: acc)
  case Nil
  then show ?case by simp
next
  case (Cons kv kvs)
  obtain k v where kv: "kv = (k, v)" by (cases kv)
  from Cons.prems kv have "put_key k v acc = acc @ [(k, v)]"
    by (intro put_key_above) (auto simp: keys_sorted_def sorted_wrt_append list_all_iff)
  with Cons.IH [of "acc @ [(k, v)]"] Cons.prems kv show ?case by simp
qed

lemma from_pairs_sorted: "keys_sorted kvs \<Longrightarrow> from_pairs kvs = kvs"
  using from_pairs_snoc_sorted [of "[]" kvs] by (simp add: from_pairs_def)

lemma put_key_keys: "set (map fst (put_key k v kvs)) = insert k (set (map fst kvs))"
  by (induction k v kvs rule: put_key.induct) (simp_all add: insert_commute)

lemma put_key_sorted: "keys_sorted kvs \<Longrightarrow> keys_sorted (put_key k v kvs)"
proof (induction kvs)
  case Nil
  then show ?case by (simp add: keys_sorted_def)
next
  case (Cons lw kvs)
  obtain l w where lw: "lw = (l, w)" by (cases lw)
  have "keys_sorted kvs" using Cons.prems by (simp add: keys_sorted_def lw)
  with Cons.IH Cons.prems show ?case
    by (auto simp: lw keys_sorted_def simp del: set_map simp flip: list_all_iff [of "\<lambda>x. l < x"])
      (simp_all only: list_all_iff put_key_keys, auto)
qed

lemma put_key_all: "P v \<Longrightarrow> list_all (\<lambda>(k, v). P v) kvs \<Longrightarrow> list_all (\<lambda>(k, v). P v) (put_key k v kvs)"
  by (induction k v kvs rule: put_key.induct) auto

lemma from_pairs_typed:
  "list_all (\<lambda>(k, v). P v) kvs \<Longrightarrow> keys_sorted (from_pairs kvs) \<and> list_all (\<lambda>(k, v). P v) (from_pairs kvs)"
proof -
  have "list_all (\<lambda>(k, v). P v) kvs \<Longrightarrow> keys_sorted acc \<Longrightarrow> list_all (\<lambda>(k, v). P v) acc \<Longrightarrow>
      keys_sorted (fold (\<lambda>(k, v). put_key k v) kvs acc) \<and> list_all (\<lambda>(k, v). P v) (fold (\<lambda>(k, v). put_key k v) kvs acc)" for acc
    by (induction kvs arbitrary: acc) (auto simp: put_key_sorted put_key_all)
  then show "list_all (\<lambda>(k, v). P v) kvs \<Longrightarrow> ?thesis" by (simp add: from_pairs_def keys_sorted_def)
qed

lemma of_json_typed: "json_typed (of_json j)"
proof (induction j rule: of_json.induct)
  case (6 kvs)
  then have "list_all (\<lambda>(k, v). json_typed v) (map (\<lambda>(k, v). (k, of_json v)) kvs)" by (auto simp: list_all_iff)
  from from_pairs_typed [OF this] show ?case by simp
qed (auto simp: list_all_iff)

lemma from_pairs_keys_sorted: "keys_sorted (from_pairs kvs)"
proof -
  have "keys_sorted acc \<Longrightarrow> keys_sorted (fold (\<lambda>(k, v). put_key k v) kvs acc)" for acc
    by (induction kvs arbitrary: acc) (auto intro: put_key_sorted)
  then show ?thesis by (simp add: from_pairs_def keys_sorted_def)
qed

lemma map_of_put_key: "keys_sorted kvs \<Longrightarrow> map_of (put_key k v kvs) = (map_of kvs)(k \<mapsto> v)"
  by (induction kvs) (auto simp: keys_sorted_def fun_eq_iff)

lemma map_of_from_pairs: "map_of (from_pairs kvs) = map_of (rev kvs)"
proof -
  have "keys_sorted acc \<Longrightarrow> map_of (fold (\<lambda>(k, v). put_key k v) kvs acc) = map_of acc ++ map_of (rev kvs)" for acc
    by (induction kvs arbitrary: acc) (auto simp: put_key_sorted map_of_put_key map_add_def fun_eq_iff split: option.splits)
  then show ?thesis by (simp add: from_pairs_def keys_sorted_def)
qed

lemma keys_sorted_map [simp]: "keys_sorted (map (\<lambda>(k, v). (k, f v)) kvs) = keys_sorted kvs"
proof -
  have "map fst (map (\<lambda>(k, v). (k, f v)) kvs) = map fst kvs" by (induction kvs) auto
  then show ?thesis by (simp only: keys_sorted_def)
qed

lemma to_json_ok: "marshal_ok v \<Longrightarrow> json_ok (to_json v)"
  by (induction v rule: to_json.induct)
     (auto simp: list_all_iff show_int_literal json_float_reads split: prod.splits)

lemma of_to_json: "goval_ok v \<Longrightarrow> of_json (to_json v) = canon v"
proof (induction v rule: to_json.induct)
  case (7 kvs)
  have eq: "map (\<lambda>(k, v). (k, of_json v)) (map (\<lambda>(k, v). (k, to_json v)) kvs) = map (\<lambda>(k, v). (k, canon v)) kvs"
    using 7 by (fastforce simp: list_all_iff)
  have "keys_sorted kvs" using "7.prems" by simp
  then show ?case by (simp only: to_json.simps of_json.simps eq) (simp add: from_pairs_sorted)
qed (auto simp: list_all_iff show_int_literal json_float_reads)

lemma canon_ok: "goval_ok v \<Longrightarrow> goval_ok (canon v)"
  by (induction v rule: canon.induct) (auto simp: list_all_iff norm_dec_ok)

lemma canon_canon [simp]: "canon (canon v) = canon v"
  by (induction v rule: canon.induct) (auto split: prod.splits)

section \<open>Maps with an enumeration\<close>

text \<open>
  A Go map whose contents are encoded is kept as its sorted list of entries; \<open>None\<close> is a nil map.
\<close>

type_synonym 'v table = "(string \<times> 'v) list option"

definition table_get :: "'v table \<Rightarrow> string \<Rightarrow> 'v option" where
  "table_get t k = (case t of None \<Rightarrow> None | Some kvs \<Rightarrow> map_of kvs k)"

definition table_set :: "string \<Rightarrow> 'v \<Rightarrow> 'v table \<Rightarrow> 'v table outcome" where
  "table_set k v t = (case t of None \<Rightarrow> Panic NilMapWrite | Some kvs \<Rightarrow> Ret (Some (put_key k v kvs)))"

definition table_ok :: "'v table \<Rightarrow> bool" where
  "table_ok t \<longleftrightarrow> (case t of None \<Rightarrow> False | Some kvs \<Rightarrow> keys_sorted kvs)"

text \<open>A map of pointers yields nil both for a missing key and for a stored nil.\<close>

definition ptr_of :: "'v option option \<Rightarrow> 'v option" where
  "ptr_of x = (case x of None \<Rightarrow> None | Some p \<Rightarrow> p)"

lemma ptr_of_simps [simp]: "ptr_of None = None" "ptr_of (Some p) = p"
  by (simp_all add: ptr_of_def)

lemma table_set_Some: "table_ok t \<Longrightarrow> table_set k v t = Ret (Some (put_key k v (the t)))"
  by (cases t) (simp_all add: table_ok_def table_set_def)

lemma table_put_key: "table_ok t \<Longrightarrow>
    table_ok (Some (put_key k v (the t))) \<and>
    table_get (Some (put_key k v (the t))) l = (if l = k then Some v else table_get t l)"
proof (cases t)
  case None
  assume "table_ok t"
  with None show ?thesis by (simp add: table_ok_def)
next
  case (Some kvs)
  assume "table_ok t"
  then have s: "keys_sorted kvs" using Some by (simp add: table_ok_def)
  show ?thesis
    unfolding Some table_ok_def table_get_def option.simps option.sel map_of_put_key [OF s]
    by (intro conjI put_key_sorted [OF s] fun_upd_apply)
qed

interpretation table_store: keyed_store table_get table_set table_ok
proof unfold_locales
  fix s s' :: "'b table" and k k' :: string and v :: 'b
  assume ok: "table_ok s"
  show "\<exists>s'. table_set k v s = Ret s'" by (simp add: table_set_Some [OF ok])
  assume "table_set k v s = Ret s'"
  then have s': "s' = Some (put_key k v (the s))" by (simp add: table_set_Some [OF ok])
  show "table_ok s'" "table_get s' k' = (if k' = k then Some v else table_get s k')"
    unfolding s' using table_put_key [OF ok, of k v k'] by (rule conjunct1, rule conjunct2)
qed

lemma table_ok_empty [simp]: "table_ok (Some [])"
  by (simp add: table_ok_def keys_sorted_def)

lemma table_get_empty [simp]: "table_get (Some []) k = None"
  by (simp add: table_get_def)

lemma table_set_cases: "table_ok t \<Longrightarrow> \<exists>t'. table_set k v t = Ret t' \<and> table_ok t' \<and> (\<forall>l. table_get t' l = (if l = k then Some v else table_get t l))"
  by (rule exI [of _ "Some (put_key k v (the t))"]) (use table_set_Some [of t k v] table_put_key [of t k v] in blast)

text \<open>A struct with a map field and a method that writes one entry of it.\<close>

locale table_field =
  fixes tab :: "'s \<Rightarrow> 'v table"
    and set_tab :: "'v table \<Rightarrow> 's \<Rightarrow> 's"
    and put :: "string \<Rightarrow> 'v \<Rightarrow> 's \<Rightarrow> 's outcome"
  assumes tab_set: "tab (set_tab t s) = t"
    and put_eq: "put k v s = map_outcome (\<lambda>t. set_tab t s) (table_set k v (tab s))"
begin

lemma put_nil: "tab s = None \<Longrightarrow> put k v s = Panic NilMapWrite"
  by (simp add: put_eq table_set_def)

lemma put_ok: "table_ok (tab s) \<Longrightarrow> put k v s = Ret (set_tab (Some (put_key k v (the (tab s)))) s)"
  by (simp add: put_eq table_set_Some)

lemma put_entry:
  "table_ok (tab s) \<Longrightarrow> put k v s = Ret s' \<Longrightarrow>
     table_ok (tab s') \<and> table_get (tab s') l = (if l = k then Some v else table_get (tab s) l)"
  using table_put_key [of "tab s" k v l] tab_set [of "Some (put_key k v (the (tab s)))" s] by (auto simp: put_ok)

end

sublocale table_field \<subseteq> keyed_store "\<lambda>s. table_get (tab s)" put "\<lambda>s. table_ok (tab s)"
  by unfold_locales (use put_ok put_entry in blast)+

section \<open>Payloads\<close>

text \<open>The message of a decoding error is that of \<open>encoding/json\<close>; the model only keeps that there is one.\<close>

definition json_error :: error where
  "json_error = ''json: cannot decode''"

definition json_marshal :: "goval \<Rightarrow> string" where
  "json_marshal v = json_text (to_json v)"

definition json_marshal_indent :: "string \<Rightarrow> string \<Rightarrow> goval \<Rightarrow> string" where
  "json_marshal_indent pre ind v = json_text_indent pre ind (to_json v)"

definition json_unmarshal :: "string \<Rightarrow> goval option" where
  "json_unmarshal s = map_option of_json (json_parse s)"

text \<open>Both ways of writing a payload meet one contract with the reader.\<close>

locale json_codec =
  fixes enc :: "goval \<Rightarrow> string"
  assumes reads_back: "goval_ok v \<Longrightarrow> json_unmarshal (enc v) = Some (canon v)"
begin

lemma canon_fixed: "goval_ok v \<Longrightarrow> json_unmarshal (enc (canon v)) = Some (canon v)"
  by (simp add: reads_back canon_ok)

lemma enc_inject: "goval_ok v \<Longrightarrow> goval_ok w \<Longrightarrow> enc v = enc w \<Longrightarrow> canon v = canon w"
  using reads_back [of v] reads_back [of w] by simp

end

interpretation compact_codec: json_codec json_marshal
  by unfold_locales
     (simp add: json_marshal_def json_unmarshal_def json_text_def json_parse_print layout_ok_compact to_json_ok goval_marshal_ok of_to_json)

interpretation indent_codec: json_codec "json_marshal_indent '' '' '' ''"
  by unfold_locales
     (simp add: json_marshal_indent_def json_unmarshal_def json_text_indent_def json_parse_print layout_ok_indented
                to_json_ok goval_marshal_ok of_to_json is_ws_def)

end
