(* ===== verification/ThingTD.thy ===== *)
theory ThingTD
  imports GoValue
begin

text \<open>
  Thing Description documents (\<open>pkg/thing\<close>: thingTD.go, DataSchema.go, ActionAffordance.go,
  EventAffordance.go, InteractionAffordance.go, PropertyAffordance.go): the data, the operations
  that build a document and look things up in it, and its JSON form behind \<open>AsMap\<close>.

  Affordances are kept by value; that a caller can go on changing the affordance it added through its
  pointer is not modelled. The mutex of a document only orders the calls. The time stamps that
  \<open>CreateTD\<close> takes from the clock are arguments. Fields of type uint are \<open>nat\<close>; a slice all of whose
  uses are \<open>omitempty\<close> is a list, the others keep nil apart from empty.
\<close>

section \<open>Data\<close>

datatype data_schema = DataSchema
  (ds_AtType: string) (ds_Title: string) (ds_Titles: "string list")
  (ds_Description: string) (ds_Descriptions: "string list")
  (ds_Const: goval) (ds_Default: goval) (ds_Unit: string)
  (ds_OneOf: "goval list") (ds_Enum: "goval list")
  (ds_ReadOnly: bool) (ds_WriteOnly: bool) (ds_Format: string) (ds_Type: string)
  (ds_ArrayItems: goval) (ds_ArrayMinItems: nat) (ds_ArrayMaxItems: nat)
  (ds_NumberMaximum: dec) (ds_NumberMinimum: dec)
  (ds_Properties: "(string \<times> data_schema) list") (ds_PropertiesRequired: "string list")
  (ds_StringMaxLength: nat) (ds_StringMinLength: nat) (ds_StringPattern: string)
  (ds_StringContentEncoding: string) (ds_StringContentMediaType: string)

text \<open>A composite literal \<open>DataSchema{Title: .., Type: .., ReadOnly: ..}\<close>, the other fields zero.\<close>

definition schema_lit :: "string \<Rightarrow> string \<Rightarrow> bool \<Rightarrow> data_schema" where
  "schema_lit title dataType readOnly =
     DataSchema [] title [] [] [] GNil GNil [] [] [] readOnly False [] dataType GNil 0 0 (Dec 0 0) (Dec 0 0) [] [] 0 0 [] [] []"

record form =
  form_Href :: string
  form_ContentType :: string
  form_Op :: string

record interaction_affordance =
  ia_AtType :: string
  ia_Title :: string
  ia_Titles :: "string list"
  ia_Description :: string
  ia_Descriptions :: "string list"
  ia_Forms :: "form list option"
  ia_UriVariables :: "(string \<times> data_schema) list"

record action_affordance = interaction_affordance +
  aa_Input :: data_schema
  aa_Output :: data_schema
  aa_Safe :: bool
  aa_Idempotent :: bool

record event_affordance = interaction_affordance +
  ea_Data :: data_schema

datatype property_affordance = PropertyAffordance
  (pa_DataSchema: data_schema)
  (pa_Forms: "form list")
  (pa_UriVariables: "(string \<times> data_schema) list")
  (pa_Properties: "(string \<times> property_affordance) list")

record thing_td =
  td_AtContext :: "string list option"
  td_AtType :: string
  td_AtTypes :: string
  td_Base :: string
  td_Created :: string
  td_Modified :: string
  td_Description :: string
  td_Descriptions :: "string list"
  td_ID :: string
  td_Support :: string
  td_Title :: string
  td_Titles :: "(string \<times> string) list"
  td_Properties :: "property_affordance option table"
  td_Actions :: "action_affordance option table"
  td_Events :: "event_affordance option table"
  td_Forms :: "form list"
  td_Security :: string
  td_SecurityDefinitions :: "(string \<times> string) list"

section \<open>Operations\<close>

definition WoTNoSecurityScheme :: string where
  "WoTNoSecurityScheme = ''NoSecurityScheme''"

definition CreateTD :: "string \<Rightarrow> string \<Rightarrow> string \<Rightarrow> string \<Rightarrow> string \<Rightarrow> thing_td" where
  "CreateTD thingID title deviceType now1 now2 =
     (let td = \<lparr>td_AtContext = Some [''http://www.w3.org/ns/thing''], td_AtType = [], td_AtTypes = [],
         td_Base = [], td_Created = now1, td_Modified = now2, td_Description = [], td_Descriptions = [],
         td_ID = thingID, td_Support = [], td_Title = title, td_Titles = [], td_Properties = Some [],
         td_Actions = Some [], td_Events = Some [], td_Forms = [], td_Security = WoTNoSecurityScheme,
         td_SecurityDefinitions = []\<rparr>
      in if deviceType \<noteq> [] then td\<lparr>td_AtType := deviceType\<rparr> else td)"

definition UpdateProperty :: "string \<Rightarrow> property_affordance option \<Rightarrow> thing_td \<Rightarrow> thing_td outcome" where
  "UpdateProperty name affordance tdoc =
     map_outcome (\<lambda>t. tdoc\<lparr>td_Properties := t\<rparr>) (table_set name affordance (td_Properties tdoc))"

definition UpdateAction :: "string \<Rightarrow> action_affordance option \<Rightarrow> thing_td \<Rightarrow> thing_td outcome" where
  "UpdateAction name affordance tdoc =
     map_outcome (\<lambda>t. tdoc\<lparr>td_Actions := t\<rparr>) (table_set name affordance (td_Actions tdoc))"

definition UpdateEvent :: "string \<Rightarrow> event_affordance option \<Rightarrow> thing_td \<Rightarrow> thing_td outcome" where
  "UpdateEvent name affordance tdoc =
     map_outcome (\<lambda>t. tdoc\<lparr>td_Events := t\<rparr>) (table_set name affordance (td_Events tdoc))"

definition UpdateForms :: "form list \<Rightarrow> thing_td \<Rightarrow> thing_td" where
  "UpdateForms formList tdoc = tdoc\<lparr>td_Forms := formList\<rparr>"

definition UpdateTitleDescription :: "string \<Rightarrow> string \<Rightarrow> thing_td \<Rightarrow> thing_td" where
  "UpdateTitleDescription title description tdoc = tdoc\<lparr>td_Title := title, td_Description := description\<rparr>"

definition AddProperty :: "string \<Rightarrow> string \<Rightarrow> string \<Rightarrow> thing_td \<Rightarrow> (property_affordance \<times> thing_td) outcome" where
  "AddProperty name title dataType tdoc =
     (let prop = PropertyAffordance (schema_lit title dataType True) [] [] []
      in map_outcome (Pair prop) (UpdateProperty name (Some prop) tdoc))"

definition AddAction :: "string \<Rightarrow> string \<Rightarrow> string \<Rightarrow> thing_td \<Rightarrow> (action_affordance \<times> thing_td) outcome" where
  "AddAction name title dataType tdoc =
     (let actionAff = \<lparr>ia_AtType = [], ia_Title = title, ia_Titles = [], ia_Description = [],
            ia_Descriptions = [], ia_Forms = None, ia_UriVariables = [],
            aa_Input = schema_lit title dataType True, aa_Output = schema_lit [] [] False,
            aa_Safe = False, aa_Idempotent = False\<rparr>
      in map_outcome (Pair actionAff) (UpdateAction name (Some actionAff) tdoc))"

definition AddEvent :: "string \<Rightarrow> string \<Rightarrow> string \<Rightarrow> thing_td \<Rightarrow> (event_affordance \<times> thing_td) outcome" where
  "AddEvent name title dataType tdoc =
     (let evAff = \<lparr>ia_AtType = [], ia_Title = title, ia_Titles = [], ia_Description = [],
            ia_Descriptions = [], ia_Forms = None, ia_UriVariables = [],
            ea_Data = schema_lit title dataType True\<rparr>
      in map_outcome (Pair evAff) (UpdateEvent name (Some evAff) tdoc))"

definition GetProperty :: "thing_td \<Rightarrow> string \<Rightarrow> property_affordance option" where
  "GetProperty tdoc name = (case table_get (td_Properties tdoc) name of None \<Rightarrow> None | Some p \<Rightarrow> p)"

definition GetAction :: "thing_td \<Rightarrow> string \<Rightarrow> action_affordance option" where
  "GetAction tdoc name = (case table_get (td_Actions tdoc) name of None \<Rightarrow> None | Some p \<Rightarrow> p)"

definition GetEvent :: "thing_td \<Rightarrow> string \<Rightarrow> event_affordance option" where
  "GetEvent tdoc name = (case table_get (td_Events tdoc) name of None \<Rightarrow> None | Some p \<Rightarrow> p)"

definition GetID :: "thing_td \<Rightarrow> string" where
  "GetID tdoc = td_ID tdoc"

section \<open>The JSON form\<close>

text \<open>
  The members of a Go struct: every field with the value it is encoded to, \<open>None\<close> where its tag says
  \<open>omitempty\<close> and it is empty. The embedded structs of an affordance are inlined; the field
  \<open>properties\<close> of a PropertyAffordance hides the one of the DataSchema it embeds.
\<close>

type_synonym fields = "(string \<times> json option) list"

fun present :: "fields \<Rightarrow> (string \<times> json) list" where
  "present [] = []"
| "present ((k, None) # fs) = present fs"
| "present ((k, Some j) # fs) = (k, j) # present fs"

definition struct_json :: "fields \<Rightarrow> json" where
  "struct_json fs = JObj (present fs)"

definition omit_str :: "string \<Rightarrow> json option" where
  "omit_str s = (if s = [] then None else Some (JStr s))"

definition omit_list :: "('a \<Rightarrow> json) \<Rightarrow> 'a list \<Rightarrow> json option" where
  "omit_list f xs = (if xs = [] then None else Some (JArr (map f xs)))"

definition omit_map :: "(string \<times> json) list \<Rightarrow> json option" where
  "omit_map kvs = (if kvs = [] then None else Some (JObj kvs))"

definition omit_value :: "goval \<Rightarrow> json option" where
  "omit_value v = (if v = GNil then None else Some (to_json v))"

definition omit_bool :: "bool \<Rightarrow> json option" where
  "omit_bool b = (if b then Some (JBool True) else None)"

definition omit_uint :: "nat \<Rightarrow> json option" where
  "omit_uint n = (if n = 0 then None else Some (JNum (show_nat n)))"

definition omit_float :: "dec \<Rightarrow> json option" where
  "omit_float d = (if mant d = 0 then None else Some (JNum (json_float d)))"

fun schema_fields :: "data_schema \<Rightarrow> fields" where
  "schema_fields (DataSchema atType title titles descr descrs cnst dflt unit oneOf enum readOnly writeOnly
      format ty items minItems maxItems maximum minimum props required maxLength minLength pattern encoding media) =
    [(''@type'', omit_str atType), (''title'', omit_str title), (''titles'', omit_list JStr titles),
     (''description'', omit_str descr), (''descriptions'', omit_list JStr descrs),
     (''const'', omit_value cnst), (''default'', omit_value dflt), (''unit'', omit_str unit),
     (''oneOf'', omit_list to_json oneOf), (''enum'', omit_list to_json enum),
     (''readOnly'', omit_bool readOnly), (''writeOnly'', omit_bool writeOnly),
     (''format'', omit_str format), (''type'', omit_str ty), (''items'', omit_value items),
     (''minItems'', omit_uint minItems), (''maxItems'', omit_uint maxItems),
     (''maximum'', omit_float maximum), (''minimum'', omit_float minimum),
     (''properties'', omit_map (map (\<lambda>(k, v). (k, struct_json (schema_fields v))) props)),
     (''required'', omit_list JStr required),
     (''maxLength'', omit_uint maxLength), (''minLength'', omit_uint minLength),
     (''pattern'', omit_str pattern), (''contentEncoding'', omit_str encoding),
     (''contentMediaType'', omit_str media)]"

definition schema_json :: "data_schema \<Rightarrow> json" where
  "schema_json ds = struct_json (schema_fields ds)"

definition schemas_json :: "(string \<times> data_schema) list \<Rightarrow> (string \<times> json) list" where
  "schemas_json kvs = map (\<lambda>(k, v). (k, schema_json v)) kvs"

definition form_json :: "form \<Rightarrow> json" where
  "form_json f = JObj [(''href'', JStr (form_Href f)), (''contentType'', JStr (form_ContentType f)),
                       (''op'', JStr (form_Op f))]"

definition interaction_fields :: "'a interaction_affordance_scheme \<Rightarrow> fields" where
  "interaction_fields ia =
    [(''@type'', omit_str (ia_AtType ia)), (''title'', omit_str (ia_Title ia)),
     (''titles'', omit_list JStr (ia_Titles ia)), (''description'', omit_str (ia_Description ia)),
     (''descriptions'', omit_list JStr (ia_Descriptions ia)),
     (''forms'', Some (case ia_Forms ia of None \<Rightarrow> JNull | Some fs \<Rightarrow> JArr (map form_json fs))),
     (''uriVariables'', omit_map (schemas_json (ia_UriVariables ia)))]"

definition action_json :: "action_affordance \<Rightarrow> json" where
  "action_json aa = struct_json (interaction_fields aa @
    [(''input'', Some (schema_json (aa_Input aa))), (''output'', Some (schema_json (aa_Output aa))),
     (''safe'', omit_bool (aa_Safe aa)), (''idempotent'', omit_bool (aa_Idempotent aa))])"

definition event_json :: "event_affordance \<Rightarrow> json" where
  "event_json ea = struct_json (interaction_fields ea @ [(''data'', Some (schema_json (ea_Data ea)))])"

fun property_json :: "property_affordance \<Rightarrow> json" where
  "property_json (PropertyAffordance ds forms uris props) =
     struct_json (filter (\<lambda>(k, v). k \<noteq> ''properties'') (schema_fields ds) @
      [(''forms'', omit_list form_json forms), (''uriVariables'', omit_map (schemas_json uris)),
       (''properties'', omit_map (map (\<lambda>(k, v). (k, property_json v)) props))])"

text \<open>A map of pointers to affordances; a nil pointer is \<open>null\<close>, a nil map is empty.\<close>

definition ptrs_json :: "('a \<Rightarrow> json) \<Rightarrow> 'a option table \<Rightarrow> (string \<times> json) list" where
  "ptrs_json f t = (case t of None \<Rightarrow> [] | Some kvs \<Rightarrow>
     map (\<lambda>(k, p). (k, case p of None \<Rightarrow> JNull | Some a \<Rightarrow> f a)) kvs)"

definition strs_json :: "(string \<times> string) list \<Rightarrow> (string \<times> json) list" where
  "strs_json kvs = map (\<lambda>(k, v). (k, JStr v)) kvs"

definition td_fields :: "thing_td \<Rightarrow> fields" where
  "td_fields td =
    [(''@context'', Some (case td_AtContext td of None \<Rightarrow> JNull | Some xs \<Rightarrow> JArr (map JStr xs))),
     (''@type'', omit_str (td_AtType td)), (''@types'', omit_str (td_AtTypes td)),
     (''base'', omit_str (td_Base td)), (''created'', omit_str (td_Created td)),
     (''modified'', omit_str (td_Modified td)), (''description'', omit_str (td_Description td)),
     (''descriptions'', omit_list JStr (td_Descriptions td)), (''id'', Some (JStr (td_ID td))),
     (''support'', omit_str (td_Support td)), (''title'', Some (JStr (td_Title td))),
     (''titles'', omit_map (strs_json (td_Titles td))),
     (''properties'', omit_map (ptrs_json property_json (td_Properties td))),
     (''actions'', omit_map (ptrs_json action_json (td_Actions td))),
     (''events'', omit_map (ptrs_json event_json (td_Events td))),
     (''forms'', omit_list form_json (td_Forms td)), (''security'', Some (JStr (td_Security td))),
     (''securityDefinitions'', omit_map (strs_json (td_SecurityDefinitions td)))]"

definition AsMap :: "thing_td \<Rightarrow> (string \<times> goval) list option" where
  "AsMap tdoc =
     (let asJSON = json_text (struct_json (td_fields tdoc)) in
      case json_unmarshal asJSON of Some (GMap asMap) \<Rightarrow> Some asMap | _ \<Rightarrow> None)"

section \<open>Well-formed documents\<close>

text \<open>Texts are valid UTF-8, numbers are decimals Go can hold, the maps of affordances are made.\<close>

definition strs_ok :: "string list \<Rightarrow> bool" where
  "strs_ok ss \<longleftrightarrow> list_all utf8_ok ss"

definition named_ok :: "('a \<Rightarrow> bool) \<Rightarrow> (string \<times> 'a) list \<Rightarrow> bool" where
  "named_ok P kvs \<longleftrightarrow> list_all (\<lambda>(k, v). utf8_ok k \<and> P v) kvs"

lemma named_ok_cong [fundef_cong]:
  "kvs = kvs' \<Longrightarrow> (\<And>k v. (k, v) \<in> set kvs' \<Longrightarrow> P v = Q v) \<Longrightarrow> named_ok P kvs = named_ok Q kvs'"
  by (fastforce simp: named_ok_def list_all_iff)

fun schema_ok :: "data_schema \<Rightarrow> bool" where
  "schema_ok (DataSchema atType title titles descr descrs cnst dflt unit oneOf enum readOnly writeOnly
      format ty items minItems maxItems maximum minimum props required maxLength minLength pattern encoding media) =
    (strs_ok [atType, title, descr, unit, format, ty, pattern, encoding, media] \<and>
     strs_ok titles \<and> strs_ok descrs \<and> strs_ok required \<and>
     list_all marshal_ok [cnst, dflt, items] \<and> list_all marshal_ok oneOf \<and> list_all marshal_ok enum \<and>
     dec_ok maximum \<and> dec_ok minimum \<and> named_ok schema_ok props)"

definition form_ok :: "form \<Rightarrow> bool" where
  "form_ok f \<longleftrightarrow> strs_ok [form_Href f, form_ContentType f, form_Op f]"

definition interaction_ok :: "'a interaction_affordance_scheme \<Rightarrow> bool" where
  "interaction_ok ia \<longleftrightarrow>
     strs_ok [ia_AtType ia, ia_Title ia, ia_Description ia] \<and> strs_ok (ia_Titles ia) \<and>
     strs_ok (ia_Descriptions ia) \<and> list_all form_ok (case ia_Forms ia of None \<Rightarrow> [] | Some fs \<Rightarrow> fs) \<and>
     named_ok schema_ok (ia_UriVariables ia)"

definition action_ok :: "action_affordance \<Rightarrow> bool" where
  "action_ok aa \<longleftrightarrow> interaction_ok aa \<and> schema_ok (aa_Input aa) \<and> schema_ok (aa_Output aa)"

definition event_ok :: "event_affordance \<Rightarrow> bool" where
  "event_ok ea \<longleftrightarrow> interaction_ok ea \<and> schema_ok (ea_Data ea)"

fun property_ok :: "property_affordance \<Rightarrow> bool" where
  "property_ok (PropertyAffordance ds forms uris props) =
     (schema_ok ds \<and> list_all form_ok forms \<and> named_ok schema_ok uris \<and> named_ok property_ok props)"

definition ptrs_ok :: "('a \<Rightarrow> bool) \<Rightarrow> 'a option table \<Rightarrow> bool" where
  "ptrs_ok P t \<longleftrightarrow> table_ok t \<and>
     named_ok (\<lambda>p. case p of None \<Rightarrow> True | Some a \<Rightarrow> P a) (case t of None \<Rightarrow> [] | Some kvs \<Rightarrow> kvs)"

definition td_ok :: "thing_td \<Rightarrow> bool" where
  "td_ok td \<longleftrightarrow>
     strs_ok (case td_AtContext td of None \<Rightarrow> [] | Some xs \<Rightarrow> xs) \<and>
     strs_ok [td_AtType td, td_AtTypes td, td_Base td, td_Created td, td_Modified td, td_Description td,
              td_ID td, td_Support td, td_Title td, td_Security td] \<and>
     strs_ok (td_Descriptions td) \<and> named_ok utf8_ok (td_Titles td) \<and>
     ptrs_ok property_ok (td_Properties td) \<and> ptrs_ok action_ok (td_Actions td) \<and>
     ptrs_ok event_ok (td_Events td) \<and> list_all form_ok (td_Forms td) \<and>
     named_ok utf8_ok (td_SecurityDefinitions td)"

definition fields_ok :: "fields \<Rightarrow> bool" where
  "fields_ok fs \<longleftrightarrow> list_all (\<lambda>(k, x). list_all (\<lambda>c. of_char c < (128 :: nat)) k \<and>
      (case x of None \<Rightarrow> True | Some j \<Rightarrow> json_ok j)) fs"

abbreviation opt_ok :: "json option \<Rightarrow> bool" where
  "opt_ok x \<equiv> (case x of None \<Rightarrow> True | Some j \<Rightarrow> json_ok j)"

lemma utf8_ok_ascii: "list_all (\<lambda>c. of_char c < (128 :: nat)) s \<Longrightarrow> utf8_ok s"
  by (induction s) (simp_all add: utf8_ok.simps)

lemma fields_ok_Nil [simp]: "fields_ok []"
  by (simp add: fields_ok_def)

lemma fields_ok_Cons [simp]:
  "fields_ok ((k, x) # fs) \<longleftrightarrow> list_all (\<lambda>c. of_char c < (128 :: nat)) k \<and> opt_ok x \<and> fields_ok fs"
  by (simp add: fields_ok_def)

lemma fields_ok_append [simp]: "fields_ok (fs @ gs) \<longleftrightarrow> fields_ok fs \<and> fields_ok gs"
  by (simp add: fields_ok_def)

lemma struct_json_ok: "fields_ok fs \<Longrightarrow> json_ok (struct_json fs)"
  by (induction fs rule: present.induct) (auto simp: struct_json_def utf8_ok_ascii)

lemma omit_ok [simp]:
  "opt_ok (omit_str s) \<longleftrightarrow> utf8_ok s"
  "opt_ok (omit_bool b)"
  "opt_ok (omit_uint n)"
  "opt_ok (omit_list f xs) \<longleftrightarrow> list_all (\<lambda>x. json_ok (f x)) xs"
  "opt_ok (omit_map kvs) \<longleftrightarrow> named_ok json_ok kvs"
  "marshal_ok v \<Longrightarrow> opt_ok (omit_value v)"
  "dec_ok d \<Longrightarrow> opt_ok (omit_float d)"
  using show_int_literal(1) [of "int n"]
  by (auto simp: omit_str_def omit_bool_def omit_uint_def omit_list_def omit_map_def omit_value_def omit_float_def
    named_ok_def list_all_iff to_json_ok json_float_reads show_int_def utf8_ok.simps)

lemma named_map_ok: "named_ok P kvs \<Longrightarrow> (\<And>k v. (k, v) \<in> set kvs \<Longrightarrow> P v \<Longrightarrow> json_ok (f v)) \<Longrightarrow>
    named_ok json_ok (map (\<lambda>(k, v). (k, f v)) kvs)"
  by (fastforce simp: named_ok_def list_all_iff)

lemma strs_ok_json: "strs_ok ss \<Longrightarrow> list_all (\<lambda>x. json_ok (JStr x)) ss"
  by (simp add: strs_ok_def)

lemma values_ok_json: "list_all marshal_ok vs \<Longrightarrow> list_all (\<lambda>x. json_ok (to_json x)) vs"
  by (auto simp: list_all_iff to_json_ok)

lemma schema_fields_ok: "schema_ok ds \<Longrightarrow> fields_ok (schema_fields ds)"
proof (induction ds rule: schema_fields.induct)
  case (1 atType title titles descr descrs cnst dflt unit oneOf enum readOnly writeOnly
      format ty items minItems maxItems maximum minimum props required maxLength minLength pattern encoding media)
  have "named_ok json_ok (map (\<lambda>(k, v). (k, struct_json (schema_fields v))) props)"
    using "1.prems" "1.IH" by (intro named_map_ok [of schema_ok]) (auto intro: struct_json_ok)
  with "1.prems" show ?case
    by (simp add: strs_ok_json values_ok_json) (simp add: strs_ok_def)
qed

lemma schema_json_ok: "schema_ok ds \<Longrightarrow> json_ok (schema_json ds)"
  by (simp add: schema_json_def struct_json_ok schema_fields_ok)

lemma schemas_json_ok: "named_ok schema_ok kvs \<Longrightarrow> named_ok json_ok (schemas_json kvs)"
  unfolding schemas_json_def by (erule named_map_ok) (rule schema_json_ok)

lemma strs_json_ok: "named_ok utf8_ok kvs \<Longrightarrow> named_ok json_ok (strs_json kvs)"
  unfolding strs_json_def by (erule named_map_ok) simp

lemma forms_json_ok: "list_all form_ok fs \<Longrightarrow> list_all (\<lambda>x. json_ok (form_json x)) fs"
  by (auto simp: list_all_iff form_ok_def form_json_def strs_ok_def intro!: utf8_ok_ascii)

lemma interaction_fields_ok: "interaction_ok ia \<Longrightarrow> fields_ok (interaction_fields ia)"
  using forms_json_ok [of "case ia_Forms ia of None \<Rightarrow> [] | Some fs \<Rightarrow> fs"]
  by (auto simp: interaction_ok_def interaction_fields_def strs_ok_json schemas_json_ok list_all_iff strs_ok_def
      split: option.splits)

lemma action_json_ok: "action_ok aa \<Longrightarrow> json_ok (action_json aa)"
  unfolding action_json_def
  by (rule struct_json_ok) (simp add: action_ok_def interaction_fields_ok schema_json_ok)

lemma event_json_ok: "event_ok ea \<Longrightarrow> json_ok (event_json ea)"
  unfolding event_json_def
  by (rule struct_json_ok) (simp add: event_ok_def interaction_fields_ok schema_json_ok)

lemma property_json_ok: "property_ok pa \<Longrightarrow> json_ok (property_json pa)"
proof (induction pa rule: property_json.induct)
  case (1 ds forms uris props)
  have sub: "named_ok json_ok (map (\<lambda>(k, v). (k, property_json v)) props)"
    using "1.prems" "1.IH" by (intro named_map_ok [of property_ok]) auto
  have "fields_ok (filter (\<lambda>(k, v). k \<noteq> ''properties'') (schema_fields ds))"
    using "1.prems" schema_fields_ok [of ds] by (auto simp: fields_ok_def list_all_iff)
  with "1.prems" sub show ?case
    by (simp add: struct_json_ok forms_json_ok schemas_json_ok)
qed

lemma ptrs_json_ok:
  "ptrs_ok P t \<Longrightarrow> (\<And>a. P a \<Longrightarrow> json_ok (f a)) \<Longrightarrow> named_ok json_ok (ptrs_json f t)"
  by (cases t) (fastforce simp: ptrs_ok_def ptrs_json_def named_ok_def list_all_iff split: option.splits)+

lemma affordances_json_ok:
  "ptrs_ok property_ok ps \<Longrightarrow> named_ok json_ok (ptrs_json property_json ps)"
  "ptrs_ok action_ok as \<Longrightarrow> named_ok json_ok (ptrs_json action_json as)"
  "ptrs_ok event_ok es \<Longrightarrow> named_ok json_ok (ptrs_json event_json es)"
  using ptrs_json_ok property_json_ok action_json_ok event_json_ok by blast+

lemma td_fields_ok: "td_ok td \<Longrightarrow> fields_ok (td_fields td)"
  unfolding td_ok_def td_fields_def
  by (simp add: strs_ok_json strs_json_ok forms_json_ok affordances_json_ok)
     (auto simp: strs_ok_def list_all_iff split: option.splits)

section \<open>The document read back from its JSON form\<close>

lemma map_of_rev_distinct: "distinct (map fst kvs) \<Longrightarrow> map_of (rev kvs) = map_of kvs"
  by (simp add: map_of_inject_set rev_map [symmetric])

lemma present_keys: "set (map fst (present fs)) \<subseteq> set (map fst fs)"
  by (induction fs rule: present.induct) auto

lemma distinct_present: "distinct (map fst fs) \<Longrightarrow> distinct (map fst (present fs))"
proof (induction fs rule: present.induct)
  case (3 k j fs)
  then show ?case using present_keys [of fs] by auto
qed auto

lemma map_of_present:
  "distinct (map fst fs) \<Longrightarrow> map_of (present fs) k = (case map_of fs k of None \<Rightarrow> None | Some x \<Rightarrow> x)"
proof (induction fs rule: present.induct)
  case (2 l fs)
  then show ?case by (auto simp: map_of_eq_None_iff [THEN iffD2])
qed auto

lemma of_struct_json:
  assumes "distinct (map fst fs)"
  shows "\<exists>kvs. of_json (struct_json fs) = GMap kvs \<and> keys_sorted kvs \<and>
           (\<forall>k. map_of kvs k = (case map_of fs k of None \<Rightarrow> None | Some x \<Rightarrow> map_option of_json x))"
proof -
  let ?ms = "map (\<lambda>(k, v). (k, of_json v)) (present fs)"
  have "map fst ?ms = map fst (present fs)" by auto
  with distinct_present [OF assms] have "distinct (map fst ?ms)" by (simp only:)
  then have "map_of (from_pairs ?ms) = map_of ?ms"
    by (simp add: map_of_from_pairs map_of_rev_distinct)
  moreover have "map_of ?ms k = map_option of_json (map_of (present fs) k)" for k
    by (simp add: map_of_map)
  ultimately show ?thesis
    using map_of_present [OF assms] from_pairs_keys_sorted [of ?ms]
    by (auto simp: struct_json_def split: option.splits)
qed

lemma AsMap_struct:
  assumes "td_ok td"
  shows "\<exists>kvs. AsMap td = Some kvs \<and> keys_sorted kvs \<and>
           (\<forall>k. map_of kvs k = (case map_of (td_fields td) k of None \<Rightarrow> None | Some x \<Rightarrow> map_option of_json x))"
proof -
  have "distinct (map fst (td_fields td))" by (simp add: td_fields_def)
  from of_struct_json [OF this] obtain kvs where
    kvs: "of_json (struct_json (td_fields td)) = GMap kvs" "keys_sorted kvs"
      "\<forall>k. map_of kvs k = (case map_of (td_fields td) k of None \<Rightarrow> None | Some x \<Rightarrow> map_option of_json x)"
    by blast
  have "json_parse (json_text (struct_json (td_fields td))) = Some (struct_json (td_fields td))"
    unfolding json_text_def
    by (intro json_parse_print layout_ok_compact struct_json_ok td_fields_ok assms)
  with kvs show ?thesis by (simp add: AsMap_def json_unmarshal_def)
qed

lemma of_ptrs_json:
  assumes "ptrs_ok P t"
  shows "\<exists>ps. of_json (JObj (ptrs_json f t)) = GMap ps \<and> map fst ps = map fst (the t) \<and>
    (\<forall>k. map_of ps k = map_option (\<lambda>p. case p of None \<Rightarrow> GNil | Some a \<Rightarrow> of_json (f a)) (table_get t k))"
proof -
  from assms obtain kvs where t: "t = Some kvs" "keys_sorted kvs"
    by (auto simp: ptrs_ok_def table_ok_def split: option.splits)
  let ?ps = "map (\<lambda>(k, p). (k, case p of None \<Rightarrow> GNil | Some a \<Rightarrow> of_json (f a))) kvs"
  have "map (\<lambda>(k, v). (k, of_json v)) (ptrs_json f t) = ?ps"
    by (auto simp: t ptrs_json_def split: option.splits)
  then have "of_json (JObj (ptrs_json f t)) = GMap ?ps"
    by (simp only: of_json.simps) (simp add: from_pairs_sorted t)
  moreover have "map fst ?ps = map fst (the t)" by (auto simp: t)
  moreover have "map_of ?ps k = map_option (\<lambda>p. case p of None \<Rightarrow> GNil | Some a \<Rightarrow> of_json (f a)) (table_get t k)" for k
    by (simp add: t table_get_def map_of_map)
  ultimately show ?thesis by blast
qed

section \<open>The affordance tables of a document\<close>

interpretation td_properties: table_field td_Properties "\<lambda>t td. td\<lparr>td_Properties := t\<rparr>" UpdateProperty
  by unfold_locales (simp_all add: UpdateProperty_def)

interpretation td_actions: table_field td_Actions "\<lambda>t td. td\<lparr>td_Actions := t\<rparr>" UpdateAction
  by unfold_locales (simp_all add: UpdateAction_def)

interpretation td_events: table_field td_Events "\<lambda>t td. td\<lparr>td_Events := t\<rparr>" UpdateEvent
  by unfold_locales (simp_all add: UpdateEvent_def)

definition tables_made :: "thing_td \<Rightarrow> bool" where
  "tables_made td \<longleftrightarrow> table_ok (td_Properties td) \<and> table_ok (td_Actions td) \<and> table_ok (td_Events td)"

text \<open>The calls an application builds a document with, and a history of them.\<close>

datatype td_call =
    CallAddProperty string string string
  | CallAddAction string string string
  | CallAddEvent string string string
  | CallUpdateProperty string "property_affordance option"
  | CallUpdateAction string "action_affordance option"
  | CallUpdateEvent string "event_affordance option"
  | CallUpdateForms "form list"
  | CallUpdateTitleDescription string string

fun run_call :: "td_call \<Rightarrow> thing_td \<Rightarrow> thing_td outcome" where
  "run_call (CallAddProperty n t d) td = map_outcome snd (AddProperty n t d td)"
| "run_call (CallAddAction n t d) td = map_outcome snd (AddAction n t d td)"
| "run_call (CallAddEvent n t d) td = map_outcome snd (AddEvent n t d td)"
| "run_call (CallUpdateProperty n a) td = UpdateProperty n a td"
| "run_call (CallUpdateAction n a) td = UpdateAction n a td"
| "run_call (CallUpdateEvent n a) td = UpdateEvent n a td"
| "run_call (CallUpdateForms fs) td = Ret (UpdateForms fs td)"
| "run_call (CallUpdateTitleDescription t d) td = Ret (UpdateTitleDescription t d td)"

fun run_calls :: "td_call list \<Rightarrow> thing_td \<Rightarrow> thing_td outcome" where
  "run_calls [] td = Ret td"
| "run_calls (c # cs) td = bind_outcome (run_call c td) (run_calls cs)"

text \<open>What a document promises its readers: three functions of a name, two texts and a list.\<close>

record td_view =
  v_id :: string
  v_title :: string
  v_description :: string
  v_forms :: "form list"
  v_properties :: "string \<Rightarrow> property_affordance option"
  v_actions :: "string \<Rightarrow> action_affordance option"
  v_events :: "string \<Rightarrow> event_affordance option"

definition view_of :: "thing_td \<Rightarrow> td_view" where
  "view_of td = \<lparr>v_id = GetID td, v_title = td_Title td, v_description = td_Description td,
     v_forms = td_Forms td, v_properties = GetProperty td, v_actions = GetAction td, v_events = GetEvent td\<rparr>"

definition interaction_lit :: "string \<Rightarrow> interaction_affordance" where
  "interaction_lit title = \<lparr>ia_AtType = [], ia_Title = title, ia_Titles = [], ia_Description = [],
     ia_Descriptions = [], ia_Forms = None, ia_UriVariables = []\<rparr>"

fun view_call :: "td_call \<Rightarrow> td_view \<Rightarrow> td_view" where
  "view_call (CallAddProperty n t d) v = v\<lparr>v_properties := (v_properties v)(n \<mapsto>
      PropertyAffordance (schema_lit t d True) [] [] [])\<rparr>"
| "view_call (CallAddAction n t d) v = v\<lparr>v_actions := (v_actions v)(n \<mapsto>
      interaction_affordance.extend (interaction_lit t)
        \<lparr>aa_Input = schema_lit t d True, aa_Output = schema_lit [] [] False, aa_Safe = False, aa_Idempotent = False\<rparr>)\<rparr>"
| "view_call (CallAddEvent n t d) v = v\<lparr>v_events := (v_events v)(n \<mapsto>
      interaction_affordance.extend (interaction_lit t) \<lparr>ea_Data = schema_lit t d True\<rparr>)\<rparr>"
| "view_call (CallUpdateProperty n a) v = v\<lparr>v_properties := (v_properties v)(n := a)\<rparr>"
| "view_call (CallUpdateAction n a) v = v\<lparr>v_actions := (v_actions v)(n := a)\<rparr>"
| "view_call (CallUpdateEvent n a) v = v\<lparr>v_events := (v_events v)(n := a)\<rparr>"
| "view_call (CallUpdateForms fs) v = v\<lparr>v_forms := fs\<rparr>"
| "view_call (CallUpdateTitleDescription t d) v = v\<lparr>v_title := t, v_description := d\<rparr>"

lemma GetProperty_fun: "GetProperty td = (\<lambda>n. ptr_of (table_get (td_Properties td) n))"
  by (simp add: GetProperty_def ptr_of_def fun_eq_iff)

lemma GetAction_fun: "GetAction td = (\<lambda>n. ptr_of (table_get (td_Actions td) n))"
  by (simp add: GetAction_def ptr_of_def fun_eq_iff)

lemma GetEvent_fun: "GetEvent td = (\<lambda>n. ptr_of (table_get (td_Events td) n))"
  by (simp add: GetEvent_def ptr_of_def fun_eq_iff)

lemmas td_gets = GetProperty_fun GetAction_fun GetEvent_fun GetID_def

lemma update_property_view:
  assumes "tables_made td"
  shows "\<exists>td'. UpdateProperty n a td = Ret td' \<and> tables_made td' \<and>
      view_of td' = (view_of td)\<lparr>v_properties := (v_properties (view_of td))(n := a)\<rparr>"
proof -
  from assms have ok: "table_ok (td_Properties td)" by (simp add: tables_made_def)
  from td_properties.put_entry [OF ok td_properties.put_ok [OF ok, of n a]] assms show ?thesis
    by (simp add: td_properties.put_ok [OF ok] tables_made_def view_of_def td_gets fun_eq_iff)
qed

lemma update_action_view:
  assumes "tables_made td"
  shows "\<exists>td'. UpdateAction n a td = Ret td' \<and> tables_made td' \<and>
      view_of td' = (view_of td)\<lparr>v_actions := (v_actions (view_of td))(n := a)\<rparr>"
proof -
  from assms have ok: "table_ok (td_Actions td)" by (simp add: tables_made_def)
  from td_actions.put_entry [OF ok td_actions.put_ok [OF ok, of n a]] assms show ?thesis
    by (simp add: td_actions.put_ok [OF ok] tables_made_def view_of_def td_gets fun_eq_iff)
qed

lemma update_event_view:
  assumes "tables_made td"
  shows "\<exists>td'. UpdateEvent n a td = Ret td' \<and> tables_made td' \<and>
      view_of td' = (view_of td)\<lparr>v_events := (v_events (view_of td))(n := a)\<rparr>"
proof -
  from assms have ok: "table_ok (td_Events td)" by (simp add: tables_made_def)
  from td_events.put_entry [OF ok td_events.put_ok [OF ok, of n a]] assms show ?thesis
    by (simp add: td_events.put_ok [OF ok] tables_made_def view_of_def td_gets fun_eq_iff)
qed

lemma run_call_view:
  assumes "tables_made td"
  shows "\<exists>td'. run_call c td = Ret td' \<and> tables_made td' \<and> view_of td' = view_call c (view_of td)"
proof (cases c)
  case (CallAddProperty n t d)
  with update_property_view [OF assms, of n "Some (PropertyAffordance (schema_lit t d True) [] [] [])"]
  show ?thesis by (auto simp: AddProperty_def)
next
  case (CallAddAction n t d)
  with update_action_view [OF assms, of n] show ?thesis
    by (force simp: AddAction_def Let_def interaction_lit_def interaction_affordance.defs map_outcome_Ret_iff)
next
  case (CallAddEvent n t d)
  with update_event_view [OF assms, of n] show ?thesis
    by (force simp: AddEvent_def Let_def interaction_lit_def interaction_affordance.defs map_outcome_Ret_iff)
qed (use update_property_view update_action_view update_event_view assms in
      \<open>auto simp: UpdateForms_def UpdateTitleDescription_def tables_made_def view_of_def td_gets\<close>)

lemma run_calls_view:
  "tables_made td \<Longrightarrow> \<exists>td'. run_calls cs td = Ret td' \<and> tables_made td' \<and> view_of td' = fold view_call cs (view_of td)"
proof (induction cs arbitrary: td)
  case Nil
  then show ?case by simp
next
  case (Cons c cs)
  from run_call_view [OF Cons.prems, of c] obtain td1 where
    "run_call c td = Ret td1" "tables_made td1" "view_of td1 = view_call c (view_of td)" by blast
  with Cons.IH [of td1] show ?case by simp
qed

lemma CreateTD_made: "tables_made (CreateTD thingID title deviceType now1 now2)"
  by (simp add: CreateTD_def Let_def tables_made_def)

section \<open>Properties\<close>

text \<open>
  C13: However a document made by CreateTD is built with the Add and Update calls, no call panics, and
  what its readers see is the abstract document: the last affordance written under each name, nil for the
  names never written, the last title, description and forms, and the ID it was created with.
\<close>

theorem created_td_refines:
  "\<exists>td. run_calls cs (CreateTD thingID title deviceType now1 now2) = Ret td \<and>
     view_of td = fold view_call cs \<lparr>v_id = thingID, v_title = title, v_description = [], v_forms = [],
       v_properties = (\<lambda>_. None), v_actions = (\<lambda>_. None), v_events = (\<lambda>_. None)\<rparr>"
proof -
  have "view_of (CreateTD thingID title deviceType now1 now2) = \<lparr>v_id = thingID, v_title = title, v_description = [],
      v_forms = [], v_properties = (\<lambda>_. None), v_actions = (\<lambda>_. None), v_events = (\<lambda>_. None)\<rparr>"
    by (simp add: view_of_def td_gets CreateTD_def Let_def)
  with run_calls_view [OF CreateTD_made, of cs thingID title deviceType now1 now2] show ?thesis by metis
qed

text \<open>
  A document whose maps were never made, such as one decoded from a text that leaves them out, makes every
  attempt to add an affordance panic; reading it finds nothing.
\<close>

theorem unmade_td_panics:
  assumes "td_Properties td = None" and "td_Actions td = None" and "td_Events td = None"
  shows "AddProperty n t d td = Panic NilMapWrite \<and> AddAction n t d td = Panic NilMapWrite \<and>
    AddEvent n t d td = Panic NilMapWrite \<and> UpdateProperty n pa td = Panic NilMapWrite \<and>
    UpdateAction n aa td = Panic NilMapWrite \<and> UpdateEvent n ea td = Panic NilMapWrite \<and>
    GetProperty td m = None \<and> GetAction td m = None \<and> GetEvent td m = None"
  using assms td_properties.put_nil [of td] td_actions.put_nil [of td] td_events.put_nil [of td]
  by (simp add: AddProperty_def AddAction_def AddEvent_def Let_def td_gets table_get_def)

definition unmade_td :: thing_td where
  "unmade_td = (CreateTD ''urn:a'' ''A'' [] [] []) \<lparr>td_Properties := None, td_Actions := None, td_Events := None\<rparr>"

theorem unmade_td_panics_witness:
  "AddProperty ''p'' ''P'' ''string'' unmade_td = Panic NilMapWrite \<and> GetProperty unmade_td ''p'' = None"
  using unmade_td_panics [of unmade_td "''p''" "''P''" "''string''" None None None "''p''"]
  by (simp add: unmade_td_def)

lemma schema_fields_distinct: "distinct (map fst (schema_fields ds))"
  by (cases ds) simp

lemma schema_type_field:
  "map_of (schema_fields ds) ''type'' = Some (omit_str (ds_Type ds))"
  "map_of (schema_fields ds) ''readOnly'' = Some (omit_bool (ds_ReadOnly ds))"
  by (cases ds; simp)+

text \<open>
  C31: AsMap of a well-formed document never fails. It has the ID and the title, and every property under its name,
  with its type and its read-only flag. The nested properties an entry shows are those of the affordance; the
  Properties of the schema the affordance embeds are never part of it.
\<close>

theorem as_map_property:
  assumes "td_ok td" and "GetProperty td n = Some pa"
  shows "\<exists>doc ps p. AsMap td = Some doc \<and> map_of doc ''id'' = Some (GString (GetID td)) \<and>
    map_of doc ''title'' = Some (GString (td_Title td)) \<and>
    map_of doc ''properties'' = Some (GMap ps) \<and> map_of ps n = Some (GMap p) \<and>
    map_of p ''type'' = (if ds_Type (pa_DataSchema pa) = [] then None else Some (GString (ds_Type (pa_DataSchema pa)))) \<and>
    map_of p ''readOnly'' = (if ds_ReadOnly (pa_DataSchema pa) then Some (GBool True) else None) \<and>
    (map_of p ''properties'' = None \<longleftrightarrow> pa_Properties pa = [])"
proof -
  from AsMap_struct [OF assms(1)] obtain doc where doc: "AsMap td = Some doc"
    "\<And>k. map_of doc k = (case map_of (td_fields td) k of None \<Rightarrow> None | Some x \<Rightarrow> map_option of_json x)"
    by blast
  from assms(1) have "ptrs_ok property_ok (td_Properties td)" by (simp add: td_ok_def)
  from of_ptrs_json [OF this, of property_json] obtain ps where ps:
    "of_json (JObj (ptrs_json property_json (td_Properties td))) = GMap ps"
    "\<And>k. map_of ps k = map_option (\<lambda>p. case p of None \<Rightarrow> GNil | Some a \<Rightarrow> of_json (property_json a)) (table_get (td_Properties td) k)"
    by blast
  have tg: "table_get (td_Properties td) n = Some (Some pa)"
    using assms(2) by (auto simp: GetProperty_def split: option.splits)
  then have ne: "ptrs_json property_json (td_Properties td) \<noteq> []"
    by (auto simp: ptrs_json_def table_get_def split: option.splits)
  obtain ds fs us qs where pa: "pa = PropertyAffordance ds fs us qs" by (cases pa)
  let ?fs = "filter (\<lambda>(k, v). k \<noteq> ''properties'') (schema_fields ds) @
      [(''forms'', omit_list form_json fs), (''uriVariables'', omit_map (schemas_json us)),
       (''properties'', omit_map (map (\<lambda>(k, v). (k, property_json v)) qs))]"
  have "distinct (map fst ?fs)" by (cases ds) simp
  from of_struct_json [OF this] obtain p where p: "of_json (struct_json ?fs) = GMap p"
    "\<And>k. map_of p k = (case map_of ?fs k of None \<Rightarrow> None | Some x \<Rightarrow> map_option of_json x)" by blast
  have f: "map_of ?fs ''type'' = Some (omit_str (ds_Type ds))"
    "map_of ?fs ''readOnly'' = Some (omit_bool (ds_ReadOnly ds))"
    "map_of ?fs ''properties'' = Some (omit_map (map (\<lambda>(k, v). (k, property_json v)) qs))"
    by (cases ds; simp)+
  have "map_of ps n = Some (GMap p)" using ps(2) [of n] tg p(1) pa by simp
  moreover have "map_of doc ''properties'' = Some (GMap ps)"
    using doc(2) [of "''properties''"] ps(1) ne by (simp add: td_fields_def omit_map_def)
  moreover have "map_of doc ''id'' = Some (GString (GetID td))" "map_of doc ''title'' = Some (GString (td_Title td))"
    using doc(2) [of "''id''"] doc(2) [of "''title''"] by (simp_all add: td_fields_def GetID_def)
  moreover have "map_of p ''type'' = (if ds_Type ds = [] then None else Some (GString (ds_Type ds)))"
    "map_of p ''readOnly'' = (if ds_ReadOnly ds then Some (GBool True) else None)"
    "map_of p ''properties'' = None \<longleftrightarrow> qs = []"
    unfolding p(2) f by (simp_all add: omit_str_def omit_bool_def omit_map_def)
  ultimately show ?thesis using doc(1) pa by auto
qed

definition lamp_td :: thing_td where
  "lamp_td = (CreateTD ''urn:zone:lamp:light'' ''Lamp'' ''light'' ''2022'' ''2022'')
     \<lparr>td_Properties := Some [(''on'', Some (PropertyAffordance (schema_lit ''On'' ''boolean'' True) [] [] []))]\<rparr>"

lemma lamp_td_ok: "td_ok lamp_td"
  by (simp add: lamp_td_def td_ok_def CreateTD_def strs_ok_def ptrs_ok_def table_ok_def keys_sorted_def named_ok_def
      schema_lit_def dec_ok_def utf8_ok_ascii utf8_ok.simps WoTNoSecurityScheme_def)

theorem as_map_property_witness:
  "\<exists>doc ps p. AsMap lamp_td = Some doc \<and> map_of doc ''properties'' = Some (GMap ps) \<and>
     map_of ps ''on'' = Some (GMap p) \<and> map_of p ''type'' = Some (GString ''boolean'')"
proof -
  let ?pa = "PropertyAffordance (schema_lit ''On'' ''boolean'' True) [] [] []"
  have "GetProperty lamp_td ''on'' = Some ?pa"
    by (simp add: lamp_td_def GetProperty_def table_get_def CreateTD_def)
  then show ?thesis
    using lamp_td_ok as_map_property [of lamp_td "''on''" ?pa] by (auto simp: schema_lit_def)
qed

end
