(* ===== verification/ThingStore.thy ===== *)
theory ThingStore
  imports ThingTD
begin

text \<open>
  The in-memory store of Thing Descriptions (\<open>pkg/thing/ThingStore.go\<close>). Documents are
  kept by value under their ID. \<open>Load\<close> and \<open>Save\<close> have no body yet, they are the identity here.
  The map is never nil in a store made by \<open>NewThingStore\<close>.
\<close>

record thing_store =
  ts_accountID :: string
  ts_tdMap :: "string \<rightharpoonup> thing_td"

definition NewThingStore :: "string \<Rightarrow> thing_store" where
  "NewThingStore accountID = \<lparr>ts_accountID = accountID, ts_tdMap = Map.empty\<rparr>"

definition Update :: "thing_td \<Rightarrow> thing_store \<Rightarrow> thing_store" where
  "Update td ts = ts\<lparr>ts_tdMap := (ts_tdMap ts)(td_ID td \<mapsto> td)\<rparr>"

definition AddTD :: "thing_td \<Rightarrow> thing_store \<Rightarrow> thing_store" where
  "AddTD td ts = Update td ts"

definition GetByID :: "thing_store \<Rightarrow> string \<Rightarrow> thing_td option" where
  "GetByID ts thingID = ts_tdMap ts thingID"

text \<open>The list is made with one empty string per entry, the keys are appended behind them in range order.\<close>

definition GetIDs :: "string list \<Rightarrow> thing_store \<Rightarrow> string list" where
  "GetIDs order ts = fold (\<lambda>key idList. idList @ [key]) order (replicate (length order) [])"

definition Load :: "thing_store \<Rightarrow> thing_store" where
  "Load ts = ts"

definition Save :: "thing_store \<Rightarrow> thing_store" where
  "Save ts = ts"

text \<open>Every document is filed under its own ID.\<close>

definition filed :: "thing_store \<Rightarrow> bool" where
  "filed ts \<longleftrightarrow> (\<forall>k td. GetByID ts k = Some td \<longrightarrow> td_ID td = k)"

lemma filed_update: "filed ts \<Longrightarrow> filed (Update td ts)"
  by (simp add: filed_def GetByID_def Update_def)

lemma filed_new: "filed (NewThingStore a)"
  by (simp add: filed_def GetByID_def NewThingStore_def)

definition store_init :: "thing_store \<Rightarrow> bool" where
  "store_init ts \<longleftrightarrow> (\<exists>a. ts = NewThingStore a)"

inductive store_step :: "thing_store \<Rightarrow> thing_store \<Rightarrow> bool" where
  step_add: "store_step ts (AddTD td ts)"
| step_update: "store_step ts (Update td ts)"
| step_load: "store_step ts (Load ts)"
| step_save: "store_step ts (Save ts)"

interpretation store_system: transition_system store_init store_step filed
  by unfold_locales (auto simp: store_init_def filed_new AddTD_def Load_def Save_def filed_update elim!: store_step.cases)

lemma GetByID_Update: "GetByID (Update td ts) k = (if k = td_ID td then Some td else GetByID ts k)"
  by (simp add: GetByID_def Update_def)

lemma find_snoc: "find P (xs @ [x]) = (case find P xs of Some y \<Rightarrow> Some y | None \<Rightarrow> if P x then Some x else None)"
  by (induction xs) auto

section \<open>Properties\<close>

text \<open>
  After any history of AddTD calls on a new store, GetByID finds the last document added with that ID,
  and nothing under an ID that was never added.
\<close>

theorem get_by_id_last_added:
  "GetByID (fold AddTD tds (NewThingStore accountID)) k = find (\<lambda>td. td_ID td = k) (rev tds)"
proof -
  have "GetByID (fold AddTD tds ts) k =
      (case find (\<lambda>td. td_ID td = k) (rev tds) of Some td \<Rightarrow> Some td | None \<Rightarrow> GetByID ts k)" for ts
    by (induction tds arbitrary: ts)
       (auto simp: AddTD_def GetByID_Update find_snoc split: option.splits)
  then show ?thesis by (simp add: GetByID_def NewThingStore_def split: option.splits)
qed

text \<open>
  In every state the store can reach, a document is filed under its own ID, so what GetByID finds has the ID asked for.\<close>

theorem store_filed:
  assumes "reachable store_init store_step ts" and "GetByID ts k = Some td"
  shows "GetID td = k"
  using store_system.reachable_inv [OF assms(1)] assms(2) by (simp add: filed_def GetID_def)

theorem store_filed_witness:
  "GetID (CreateTD ''urn:a'' ''A'' [] [] []) = ''urn:a''"
proof -
  let ?td = "CreateTD ''urn:a'' ''A'' [] [] []"
  have "store_init (NewThingStore ''acc'')" by (auto simp: store_init_def)
  then have "reachable store_init store_step (NewThingStore ''acc'')" by (rule reach_init)
  then have "reachable store_init store_step (AddTD ?td (NewThingStore ''acc''))"
    by (rule reach_step) (rule step_add)
  moreover have "GetByID (AddTD ?td (NewThingStore ''acc'')) ''urn:a'' = Some ?td"
    by (simp add: AddTD_def GetByID_Update CreateTD_def Let_def)
  ultimately show ?thesis by (rule store_filed)
qed

text \<open>
  GetIDs returns each ID of the store once, in range order, but behind as many empty strings as there are IDs:
  the list it appends to is made with the final length.
\<close>

theorem get_ids_doubled:
  assumes "range_order (ts_tdMap ts) order"
  shows "GetIDs order ts = replicate (card (dom (ts_tdMap ts))) [] @ order \<and>
    length (GetIDs order ts) = 2 * card (dom (ts_tdMap ts))"
proof -
  have "fold (\<lambda>key l. l @ [key]) ks acc = acc @ ks" for ks acc :: "string list"
    by (induction ks arbitrary: acc) auto
  moreover have "length order = card (dom (ts_tdMap ts))"
    using assms distinct_card [of order] by (simp add: range_order_def)
  ultimately show ?thesis by (simp add: GetIDs_def)
qed

theorem get_ids_doubled_witness:
  "GetIDs [''urn:a''] (AddTD (CreateTD ''urn:a'' ''A'' [] [] []) (NewThingStore ''acc'')) = [[], ''urn:a'']"
proof -
  have "range_order (ts_tdMap (AddTD (CreateTD ''urn:a'' ''A'' [] [] []) (NewThingStore ''acc''))) [''urn:a'']"
    by (simp add: range_order_def AddTD_def Update_def NewThingStore_def CreateTD_def Let_def)
  from get_ids_doubled [OF this] show ?thesis
    by (simp add: AddTD_def Update_def NewThingStore_def CreateTD_def Let_def)
qed

end
