(* ===== verification/InteractionOutput.thy ===== *)
theory InteractionOutput
  imports ThingTD
begin

text \<open>
  The value of a property, event or action as applications read it
  (\<open>pkg/thing/InteractionOutput.go\<close>): made from a JSON payload or from a native value, and read as
  a string, a boolean, an integer, an array or a map. The log messages are left out. A nil byte slice
  is \<open>None\<close>; \<open>json.Unmarshal\<close> refuses it as it does the empty one.
\<close>

record interaction_output =
  io_Schema :: "data_schema option"
  io_jsonEncoded :: "string option"
  io_Value :: goval

definition WoTDataTypeObject :: string where
  "WoTDataTypeObject = ''object''"

definition bytes :: "string option \<Rightarrow> string" where
  "bytes b = (case b of None \<Rightarrow> [] | Some s \<Rightarrow> s)"

text \<open>\<open>json.Unmarshal\<close> into a bool, an int, a slice and a map: what it leaves in the variable, and its error.\<close>

definition unmarshal_bool :: "string \<Rightarrow> bool \<Rightarrow> bool \<times> error option" where
  "unmarshal_bool s b =
     (case json_parse s of
        Some (JBool x) \<Rightarrow> (x, None)
      | Some JNull \<Rightarrow> (b, None)
      | _ \<Rightarrow> (b, Some json_error))"

definition unmarshal_int :: "string \<Rightarrow> int \<Rightarrow> int \<times> error option" where
  "unmarshal_int s i =
     (case json_parse s of
        Some (JNum lit) \<Rightarrow> (case parse_int 64 lit of (n, None) \<Rightarrow> (n, None) | (n, Some e) \<Rightarrow> (i, Some json_error))
      | Some JNull \<Rightarrow> (i, None)
      | _ \<Rightarrow> (i, Some json_error))"

definition unmarshal_slice :: "string \<Rightarrow> goval list \<Rightarrow> goval list \<times> error option" where
  "unmarshal_slice s xs =
     (case json_parse s of
        Some (JArr js) \<Rightarrow> (map of_json js, None)
      | Some JNull \<Rightarrow> ([], None)
      | _ \<Rightarrow> (xs, Some json_error))"

definition unmarshal_map :: "string \<Rightarrow> goval table \<Rightarrow> goval table \<times> error option" where
  "unmarshal_map s m =
     (case json_parse s of
        Some (JObj kvs) \<Rightarrow>
          (Some (fold (\<lambda>(k, v). put_key k (of_json v)) kvs (case m of None \<Rightarrow> [] | Some old \<Rightarrow> old)), None)
      | Some JNull \<Rightarrow> (None, None)
      | _ \<Rightarrow> (m, Some json_error))"

section \<open>Operations\<close>

definition ValueAsArray :: "interaction_output \<Rightarrow> goval list" where
  "ValueAsArray io = fst (unmarshal_slice (bytes (io_jsonEncoded io)) [])"

definition ValueAsString :: "interaction_output \<Rightarrow> string" where
  "ValueAsString io =
     (let s = (case io_jsonEncoded io of
                 None \<Rightarrow> io_Value io
               | Some b \<Rightarrow> (case json_unmarshal b of None \<Rightarrow> io_Value io | Some v \<Rightarrow> v))
      in sprint s)"

definition ValueAsBoolean :: "interaction_output \<Rightarrow> bool" where
  "ValueAsBoolean io = fst (unmarshal_bool (bytes (io_jsonEncoded io)) False)"

definition ValueAsInt :: "interaction_output \<Rightarrow> int" where
  "ValueAsInt io =
     (if io_Value io = GString ''true'' \<or> io_Value io = GBool True then 1
      else if io_Value io = GString ''false'' \<or> io_Value io = GBool False then 0
      else fst (unmarshal_int (bytes (io_jsonEncoded io)) 0))"

definition ValueAsMap :: "interaction_output \<Rightarrow> goval table" where
  "ValueAsMap io = fst (unmarshal_map (bytes (io_jsonEncoded io)) (Some []))"

text \<open>
  For an object the decoded map goes to a second variable \<open>val\<close>, declared in the branch, and the outer
  one keeps nil.
\<close>

definition NewInteractionOutputFromJson :: "string option \<Rightarrow> data_schema option \<Rightarrow> interaction_output" where
  "NewInteractionOutputFromJson jsonEncoded schema =
     (let val =
        (if (case schema of None \<Rightarrow> False | Some sch \<Rightarrow> ds_Type sch = WoTDataTypeObject) then GNil
         else case json_unmarshal (bytes jsonEncoded) of
                Some sVal \<Rightarrow> sVal
              | None \<Rightarrow> GString (bytes jsonEncoded))
      in \<lparr>io_Schema = schema, io_jsonEncoded = jsonEncoded, io_Value = val\<rparr>)"

definition NewInteractionOutput :: "goval \<Rightarrow> data_schema option \<Rightarrow> interaction_output" where
  "NewInteractionOutput data schema =
     \<lparr>io_Schema = schema, io_jsonEncoded = Some (json_marshal data), io_Value = data\<rparr>"

definition object_schema :: "data_schema option \<Rightarrow> bool" where
  "object_schema schema \<longleftrightarrow> (case schema of None \<Rightarrow> False | Some sch \<Rightarrow> ds_Type sch = WoTDataTypeObject)"

section \<open>Integers printed through a float\<close>

lemma show_nat_Suc_digit: "show_nat (n * 10) = (if n = 0 then ''0'' else show_nat n @ ''0'')"
  by (subst show_nat.simps) (simp add: digit_char_zero)

lemma show_nat_shift: "0 < n \<Longrightarrow> show_nat (n * 10 ^ k) = show_nat n @ replicate k CHR ''0''"
proof (induction k)
  case (Suc k)
  have "show_nat (n * 10 ^ Suc k) = show_nat ((n * 10 ^ k) * 10)" by (simp add: ac_simps)
  also have "\<dots> = show_nat (n * 10 ^ k) @ ''0''" using Suc.prems by (simp add: show_nat_Suc_digit)
  finally show ?case using Suc by (simp add: replicate_append_same)
qed simp

lemma norm_dec_value:
  "i \<noteq> 0 \<Longrightarrow> \<exists>k. i = mant (norm_dec i e) * 10 ^ k \<and> expo (norm_dec i e) = e + int k \<and> mant (norm_dec i e) \<noteq> 0"
proof (induction i e rule: norm_dec.induct)
  case (1 m e)
  show ?case
  proof (cases "m mod 10 = 0")
    case True
    with "1.prems" have "m div 10 \<noteq> 0" "m = m div 10 * 10" by auto
    with "1.IH" "1.prems" True obtain k where k: "m div 10 = mant (norm_dec (m div 10) (e + 1)) * 10 ^ k"
      "expo (norm_dec (m div 10) (e + 1)) = e + 1 + int k" "mant (norm_dec (m div 10) (e + 1)) \<noteq> 0" by blast
    then have "m = mant (norm_dec (m div 10) (e + 1)) * 10 ^ Suc k"
      using \<open>m = m div 10 * 10\<close> by (metis mult.assoc power_Suc2)
    with k True "1.prems" show ?thesis
      by (intro exI [of _ "Suc k"]) (simp add: norm_dec.simps [of m e])
  next
    case False
    with "1.prems" show ?thesis by (intro exI [of _ 0]) (simp add: norm_dec.simps [of m e])
  qed
qed

lemma float_of_int:
  assumes "i \<noteq> 0"
  shows "point_of (norm_dec i 0) = int (length (show_nat (nat \<bar>i\<bar>)))" and "format_f (norm_dec i 0) = show_int i"
proof -
  let ?d = "norm_dec i 0"
  from norm_dec_value [OF assms, of 0] obtain k where
    k: "i = mant ?d * 10 ^ k" "expo ?d = int k" "mant ?d \<noteq> 0" by auto
  have a: "nat \<bar>i\<bar> = nat \<bar>mant ?d\<bar> * 10 ^ k"
    by (subst k(1)) (simp add: abs_mult nat_mult_distrib nat_power_eq)
  have sh: "show_nat (nat \<bar>i\<bar>) = digits_of ?d @ replicate k CHR ''0''"
    unfolding a digits_of_def using k(3) by (intro show_nat_shift) simp
  show p: "point_of ?d = int (length (show_nat (nat \<bar>i\<bar>)))" by (simp add: sh point_of_def k(2))
  have "sign_of ?d = (if i < 0 then ''-'' else [])"
    unfolding sign_of_def by (subst (2) k(1)) (simp add: mult_less_0_iff)
  moreover have "0 < length (digits_of ?d)" using digits_of_ne [of ?d] by simp
  then have "0 < point_of ?d" unfolding point_of_def k(2) by linarith
  moreover have "\<not> point_of ?d < int (length (digits_of ?d))"
    "nat (point_of ?d - int (length (digits_of ?d))) = k"
    by (simp_all add: point_of_def k(2))
  moreover have "take (nat (point_of ?d)) (digits_of ?d @ replicate k CHR ''0'') = digits_of ?d @ replicate k CHR ''0''"
    by (simp add: point_of_def k(2) nat_add_distrib)
  moreover have "show_int i = (if i < 0 then ''-'' else []) @ digits_of ?d @ replicate k CHR ''0''"
    unfolding sh [symmetric] by (simp add: show_int_def)
  ultimately show "format_f ?d = show_int i" by (simp add: format_f_def Let_def)
qed

lemma show_nat_length: "0 < k \<Longrightarrow> length (show_nat n) \<le> k \<longleftrightarrow> n < 10 ^ k"
proof (induction n arbitrary: k rule: show_nat.induct)
  case (1 n)
  show ?case
  proof (cases "n < 10")
    case True
    moreover have "(10 :: nat) ^ 1 \<le> 10 ^ k" using "1.prems" by (intro power_increasing) auto
    ultimately show ?thesis using "1.prems" by (simp add: show_nat.simps [of n])
  next
    case False
    then have len: "length (show_nat n) = Suc (length (show_nat (n div 10)))" by (simp add: show_nat.simps [of n])
    show ?thesis
    proof (cases "k = 1")
      case True
      with False len show ?thesis by simp
    next
      case k: False
      with "1.prems" obtain j where j: "k = Suc j" "0 < j" by (cases k) auto
      from "1.IH" [OF False j(2)] len j have "length (show_nat n) \<le> k \<longleftrightarrow> n div 10 < 10 ^ j" by simp
      also have "\<dots> \<longleftrightarrow> n < 10 ^ k" by (simp add: j div_less_iff_less_mult mult.commute)
      finally show ?thesis .
    qed
  qed
qed

lemma sprint_float_of_int:
  "sprint (GFloat (norm_dec i 0)) =
     (if \<bar>i\<bar> < 1000000 then show_int i else format_e_with exp_digits (norm_dec i 0))"
proof (cases "i = 0")
  case True
  have "norm_dec 0 0 = Dec 0 0" by (simp add: norm_dec.simps)
  with True show ?thesis
    by (simp add: sprint_float_def point_of_def digits_of_def format_f_def show_int_def show_nat.simps sign_of_def digit_char_zero)
next
  case False
  have "point_of (norm_dec i 0) - 1 < 6 \<longleftrightarrow> length (show_nat (nat \<bar>i\<bar>)) \<le> 6"
    by (simp add: float_of_int [OF False]) linarith
  also have "\<dots> \<longleftrightarrow> \<bar>i\<bar> < 1000000" by (simp add: show_nat_length) linarith
  finally have p: "point_of (norm_dec i 0) - 1 < 6 \<longleftrightarrow> \<bar>i\<bar> < 1000000" .
  have "\<not> point_of (norm_dec i 0) - 1 < - 4" by (simp add: float_of_int [OF False])
  then show ?thesis using p by (simp add: sprint_float_def float_of_int [OF False]) linarith
qed

lemma json_unmarshal_marshal: "goval_ok v \<Longrightarrow> json_unmarshal (json_marshal v) = Some (canon v)"
  by (rule compact_codec.reads_back)

lemma parse_marshal: "marshal_ok v \<Longrightarrow> json_parse (json_marshal v) = Some (to_json v)"
  by (simp add: json_marshal_def json_text_def json_parse_print layout_ok_compact to_json_ok)

text \<open>The type of what is made from JSON.\<close>

definition value_typed :: "interaction_output \<Rightarrow> bool" where
  "value_typed io \<longleftrightarrow> json_typed (io_Value io) \<and> (object_schema (io_Schema io) \<longrightarrow> io_Value io = GNil)"

lemma json_unmarshal_typed: "json_unmarshal s = Some v \<Longrightarrow> json_typed v"
  by (auto simp: json_unmarshal_def of_json_typed)

lemma from_json_typed: "value_typed (NewInteractionOutputFromJson b schema)"
  by (auto simp: value_typed_def NewInteractionOutputFromJson_def object_schema_def json_unmarshal_typed split: option.split)

text \<open>
  What a reader makes of a payload: the value decoded, or the text itself when it is no JSON; and what the reader of a value that was encoded
  gets. With the schema of an object both are nil.
\<close>

definition payload_value :: "string \<Rightarrow> goval" where
  "payload_value payload = (case json_unmarshal payload of Some v \<Rightarrow> v | None \<Rightarrow> GString payload)"

definition read_as :: "data_schema \<Rightarrow> goval \<Rightarrow> goval" where
  "read_as schema v = (if object_schema (Some schema) then GNil else canon v)"

lemma json_typed_canon: "json_typed v \<Longrightarrow> canon v = v"
  by (induction v rule: canon.induct) (auto simp: list_all_iff intro!: map_idI)

lemma payload_value_canon [simp]: "canon (payload_value payload) = payload_value payload"
  by (simp add: payload_value_def json_typed_canon json_unmarshal_typed split: option.split)

lemma from_json_payload:
  "io_Value (NewInteractionOutputFromJson (Some payload) (Some schema)) = read_as schema (payload_value payload)"
  by (simp add: NewInteractionOutputFromJson_def object_schema_def read_as_def bytes_def split: option.split)
    (simp add: payload_value_def json_typed_canon json_unmarshal_typed)

lemma payload_value_encoded: "json_unmarshal payload = Some v \<Longrightarrow> payload_value payload = v"
  by (simp add: payload_value_def)

lemma read_as_canon [simp]: "read_as schema (canon v) = read_as schema v"
  by (simp add: read_as_def)

section \<open>Properties\<close>

text \<open>
  A value that one side marshals and the other side makes an InteractionOutput of comes out as the same value,
  integers as floats, whenever the schema is not that of an object.
\<close>

theorem output_from_json_value:
  assumes "goval_ok v" and "\<not> object_schema schema"
  shows "io_Value (NewInteractionOutputFromJson (Some (json_marshal v)) schema) = canon v"
  using assms by (simp add: NewInteractionOutputFromJson_def object_schema_def bytes_def json_unmarshal_marshal)

theorem output_from_json_value_witness:
  "io_Value (NewInteractionOutputFromJson (Some (json_marshal (GSlice [GInt 20, GString ''on'']))) None) =
     GSlice [GFloat (Dec 2 1), GString ''on'']"
proof -
  have "norm_dec 20 0 = Dec 2 1" by (simp add: norm_dec.simps)
  then show ?thesis
    using output_from_json_value [of "GSlice [GInt 20, GString ''on'']" None]
    by (simp add: object_schema_def utf8_ok_ascii)
qed

text \<open>
  With the schema of an object the Value is nil whatever the payload holds: the decoded map is stored in a
  shadowing variable. ValueAsMap decodes the payload again and does return the map.
\<close>

theorem output_from_json_object:
  assumes "object_schema schema" and "goval_ok (GMap kvs)"
  shows "io_Value (NewInteractionOutputFromJson b schema) = GNil \<and>
    ValueAsMap (NewInteractionOutputFromJson (Some (json_marshal (GMap kvs))) schema) =
      Some (map (\<lambda>(k, v). (k, canon v)) kvs)"
proof -
  have "fold (\<lambda>(k, v). put_key k (of_json v)) ms acc = fold (\<lambda>(k, v). put_key k v) (map (\<lambda>(k, v). (k, of_json v)) ms) acc"
    for ms :: "(string \<times> json) list" and acc
    by (induction ms arbitrary: acc) auto
  then have "unmarshal_map (json_marshal (GMap kvs)) (Some []) = (case of_json (to_json (GMap kvs)) of GMap m \<Rightarrow> (Some m, None))"
    using parse_marshal [OF goval_marshal_ok [OF assms(2)]] by (simp add: unmarshal_map_def from_pairs_def)
  also have "\<dots> = (Some (map (\<lambda>(k, v). (k, canon v)) kvs), None)"
    unfolding of_to_json [OF assms(2)] by simp
  finally show ?thesis
    using assms(1) by (simp add: NewInteractionOutputFromJson_def object_schema_def ValueAsMap_def bytes_def)
qed

theorem output_from_json_object_witness:
  "io_Value (NewInteractionOutputFromJson (Some (json_marshal (GMap [(''on'', GBool True)])))
      (Some (schema_lit ''Lamp'' ''object'' False))) = GNil"
  using output_from_json_object [of "Some (schema_lit ''Lamp'' ''object'' False)" "[(''on'', GBool True)]"
      "Some (json_marshal (GMap [(''on'', GBool True)]))"]
  by (simp add: object_schema_def schema_lit_def WoTDataTypeObject_def keys_sorted_def utf8_ok_ascii)

text \<open>
  An integer that a float64 holds exactly is printed by ValueAsString as itself below a million and in the exponent form of its
  float64 from a million on, also when it was given as a native integer.
\<close>

theorem value_as_string_int:
  "\<bar>i\<bar> \<le> 2 ^ 53 \<Longrightarrow> ValueAsString (NewInteractionOutput (GInt i) schema) =
     (if \<bar>i\<bar> < 1000000 then show_int i else format_e_with exp_digits (norm_dec i 0))"
  using json_unmarshal_marshal [of "GInt i"] sprint_float_of_int [of i]
  by (simp add: ValueAsString_def NewInteractionOutput_def)

text \<open>
  Reading back what a native value was made into: a valid string with ValueAsString, a boolean with
  ValueAsBoolean and as 1 or 0 with ValueAsInt, an integer of 64 bits with ValueAsInt.
\<close>

theorem native_value_reads_back:
  "utf8_ok s \<Longrightarrow> - (2 ^ 63) \<le> i \<Longrightarrow> i < 2 ^ 63 \<Longrightarrow>
     ValueAsString (NewInteractionOutput (GString s) schema) = s \<and>
     ValueAsBoolean (NewInteractionOutput (GBool b) schema) = b \<and>
     ValueAsInt (NewInteractionOutput (GBool b) schema) = (if b then 1 else 0) \<and>
     ValueAsInt (NewInteractionOutput (GInt i) schema) = i"
  using json_unmarshal_marshal [of "GString s"] parse_marshal [of "GBool b"] parse_marshal [of "GInt i"]
    parse_int_show [of 64 i]
  by (simp add: ValueAsString_def NewInteractionOutput_def ValueAsBoolean_def ValueAsInt_def bytes_def
      unmarshal_bool_def unmarshal_int_def)

theorem native_value_reads_back_witness:
  "ValueAsString (NewInteractionOutput (GString ''on'') None) = ''on'' \<and>
   ValueAsInt (NewInteractionOutput (GInt (- 42)) None) = - 42"
  using native_value_reads_back [of "''on''" "- 42" None True] by (simp add: utf8_ok_ascii)

text \<open>
  A payload that is no JSON is kept as its text by NewInteractionOutputFromJson, which is what ValueAsString then
  returns; the other readers return false, an empty array, an empty map and the integer of a boolean word.
\<close>

theorem invalid_payload:
  assumes "json_parse (bytes b) = None" and "\<not> object_schema schema"
  defines "io \<equiv> NewInteractionOutputFromJson b schema"
  shows "io_Value io = GString (bytes b) \<and> ValueAsString io = bytes b \<and> ValueAsBoolean io = False \<and>
    ValueAsArray io = [] \<and> ValueAsMap io = Some [] \<and> ValueAsInt io = 0"
proof -
  have "json_parse ''true'' = Some (JBool True)" by code_simp
  then have "bytes b \<noteq> ''true''" using assms(1) by auto
  then show ?thesis
    using assms(1,2)
    by (cases b)
       (simp_all add: io_def NewInteractionOutputFromJson_def object_schema_def bytes_def json_unmarshal_def ValueAsString_def
         ValueAsBoolean_def ValueAsArray_def ValueAsMap_def ValueAsInt_def unmarshal_bool_def unmarshal_slice_def
         unmarshal_map_def unmarshal_int_def)
qed

theorem invalid_payload_witness:
  "ValueAsString (NewInteractionOutputFromJson (Some ''on'') None) = ''on'' \<and>
   ValueAsMap (NewInteractionOutputFromJson None None) = Some []"
proof -
  have "json_parse (bytes (Some ''on'')) = None" "json_parse (bytes None) = None"
    by code_simp+
  then show ?thesis
    using invalid_payload [of "Some ''on''" None] invalid_payload [of None None]
    by (simp add: object_schema_def bytes_def)
qed

end
