(* ===== verification/Topics.thy ===== *)
theory Topics
  imports GoStrings
begin

text \<open>
  The MQTT topics of things (\<open>pkg/consumedthing/Topics.go\<close>): \<open>things/{thingID}/{type}/{name}\<close>. The
  bindings fill in the ID with \<open>strings.ReplaceAll\<close> and add the name behind a slash, the receivers take
  a topic apart at its slashes.
\<close>

definition TopicTypeTD :: string where
  "TopicTypeTD = ''td''"

definition TopicTypeEvent :: string where
  "TopicTypeEvent = ''event''"

definition TopicTypeAction :: string where
  "TopicTypeAction = ''action''"

definition TopicThingTD :: string where
  "TopicThingTD = ''things/{thingID}/'' @ TopicTypeTD"

definition TopicEmitEvent :: string where
  "TopicEmitEvent = ''things/{thingID}/'' @ TopicTypeEvent"

definition TopicInvokeAction :: string where
  "TopicInvokeAction = ''things/{thingID}/'' @ TopicTypeAction"

definition CreateTopic :: "string \<Rightarrow> string \<Rightarrow> string" where
  "CreateTopic thingID topicMessageType =
     (let thingID = (if thingID = [] then ''+'' else thingID)
      in ''things/'' @ thingID @ ''/'' @ topicMessageType)"

definition SplitTopic :: "string \<Rightarrow> string \<times> string \<times> string" where
  "SplitTopic topic =
     (let parts = split_on CHR ''/'' topic in
      if length parts < 2 then ([], [], [])
      else (parts ! 1,
            if 2 < length parts then parts ! 2 else [],
            if 3 < length parts then parts ! 3 else []))"

text \<open>A template with the ID of the thing filled in.\<close>

definition thing_topic :: "string \<Rightarrow> string \<Rightarrow> string" where
  "thing_topic template thingID = replace_all template ''{thingID}'' thingID"

definition no_slash :: "string \<Rightarrow> bool" where
  "no_slash s \<longleftrightarrow> CHR ''/'' \<notin> set s"

lemma fill_template:
  assumes "CHR ''{'' \<notin> set ty"
  shows "thing_topic (''things/{thingID}/'' @ ty) thingID = ''things/'' @ thingID @ ''/'' @ ty"
proof -
  let ?old = "''{thingID}''"
  have t: "''things/{thingID}/'' @ ty = ''things/'' @ ?old @ (''/'' @ ty)" by simp
  have "replace_ne ?old thingID (''/'' @ ty) = ''/'' @ ty"
    using replace_ne_skip [of ?old "''/'' @ ty" thingID "[]"] assms by simp
  then have "replace_ne ?old thingID (''things/'' @ ?old @ (''/'' @ ty)) = ''things/'' @ thingID @ ''/'' @ ty"
    using replace_ne_skip [of ?old "''things/''" thingID "?old @ (''/'' @ ty)"]
      replace_ne_hit [of ?old thingID "''/'' @ ty"]
    by (simp del: append.simps)
  then show ?thesis unfolding thing_topic_def replace_all_def t by simp
qed

lemma thing_topics:
  "thing_topic TopicEmitEvent thingID = ''things/'' @ thingID @ ''/event''"
  "thing_topic TopicInvokeAction thingID = ''things/'' @ thingID @ ''/action''"
  "thing_topic TopicThingTD thingID = ''things/'' @ thingID @ ''/td''"
  unfolding TopicEmitEvent_def TopicTypeEvent_def TopicInvokeAction_def TopicTypeAction_def TopicThingTD_def TopicTypeTD_def
  using fill_template [of "''event''" thingID] fill_template [of "''action''" thingID] fill_template [of "''td''" thingID]
  by simp_all

lemma split_topic_parts:
  assumes "no_slash thingID" and "no_slash ty"
  shows "split_on CHR ''/'' (''things/'' @ thingID @ ''/'' @ ty @ rest) =
     (if rest = [] then [''things'', thingID, ty]
      else ''things'' # thingID # split_on CHR ''/'' (ty @ rest))"
proof -
  have "split_on CHR ''/'' (''things'' @ CHR ''/'' # (thingID @ CHR ''/'' # (ty @ rest))) =
      ''things'' # thingID # split_on CHR ''/'' (ty @ rest)"
    using assms by (subst split_on_sep; simp add: split_on_sep no_slash_def)
  then show ?thesis using assms split_on_no_sep [of "CHR ''/''" ty] by (simp add: no_slash_def)
qed

lemma split_named_topic:
  assumes "no_slash thingID" and "no_slash ty"
  shows "split_on CHR ''/'' (''things/'' @ thingID @ ''/'' @ ty @ ''/'' @ name) =
      ''things'' # thingID # ty # split_on CHR ''/'' name"
  using split_topic_parts [OF assms, of "''/'' @ name"] split_on_sep [of "CHR ''/''" ty name] assms(2)
  by (simp add: no_slash_def)

section \<open>Properties\<close>

text \<open>
  A topic made for a thing and a message type splits back into them, with an empty subject; the empty
  thing ID becomes the wildcard.
\<close>

theorem split_create_topic:
  assumes "no_slash thingID" and "no_slash ty"
  shows "SplitTopic (CreateTopic thingID ty) = (if thingID = [] then ''+'' else thingID, ty, [])"
  using split_topic_parts [of thingID ty "[]"] split_topic_parts [of "''+''" ty "[]"] assms
  by (simp add: SplitTopic_def CreateTopic_def Let_def no_slash_def)

theorem split_create_topic_witness:
  "SplitTopic (CreateTopic [] ''event'') = (''+'', ''event'', [])"
  using split_create_topic [of "[]" "''event''"] by (simp add: no_slash_def)

text \<open>
  The topics the bindings publish on, the template with the ID filled in and the name behind it, split into the ID,
  the type and the name, whatever the ID contains but a slash. Of a name with a slash only the part before it is left.
\<close>

theorem split_binding_topic:
  assumes "no_slash thingID"
  shows "SplitTopic (thing_topic TopicEmitEvent thingID @ ''/'' @ name) =
      (thingID, TopicTypeEvent, takeWhile (\<lambda>c. c \<noteq> CHR ''/'') name) \<and>
    SplitTopic (thing_topic TopicInvokeAction thingID @ ''/'' @ name) =
      (thingID, TopicTypeAction, takeWhile (\<lambda>c. c \<noteq> CHR ''/'') name) \<and>
    SplitTopic (thing_topic TopicThingTD thingID) = (thingID, TopicTypeTD, [])"
proof -
  have h: "hd (split_on CHR ''/'' s) = takeWhile (\<lambda>c. c \<noteq> CHR ''/'') s" for s
    by (induction s) (auto split: list.splits)
  have n: "SplitTopic (''things/'' @ thingID @ ''/'' @ ty @ ''/'' @ name) =
      (thingID, ty, takeWhile (\<lambda>c. c \<noteq> CHR ''/'') name)" if "no_slash ty" for ty
    unfolding SplitTopic_def split_named_topic [OF assms that] h [symmetric]
    by (cases "split_on CHR ''/'' name") (simp_all add: Let_def)
  show ?thesis
    using n [of "''event''"] n [of "''action''"] split_create_topic [OF assms, of "''td''"]
      split_topic_parts [OF assms, of "''td''" "[]"]
    by (simp add: thing_topics TopicTypeEvent_def TopicTypeAction_def TopicTypeTD_def no_slash_def SplitTopic_def)
qed

theorem split_binding_topic_witness:
  "SplitTopic (thing_topic TopicInvokeAction ''urn:{thingID}'' @ ''/'' @ ''on'') = (''urn:{thingID}'', TopicTypeAction, ''on'')"
  using split_binding_topic [of "''urn:{thingID}''" "''on''"] by (simp add: no_slash_def)

end
