(* ===== verification/MqttClient.thy ===== *)
theory MqttClient
  imports GoValue
begin

text \<open>
  The MQTT client (\<open>pkg/mqttclient/MqttClient.go\<close>): a wrapper around the Paho client that keeps the
  subscriptions, so that they can be made again after a reconnect.

  Paho is a third party library. What the wrapper does to it is the list of calls an operation returns;
  what Paho answers (connected or not, the error of a token) is an argument. Handlers and certificates are
  type parameters. The closures the wrapper hands to Paho are the datatype \<open>callback\<close>: one that
  calls a handler, and the one of \<open>resubscribe\<close>, which reads the loop variable \<open>subscription\<close>; in the Go
  of go.mod (1.18) all iterations share that variable, so every closure of the loop sees its last value. The sleeps and
  the log are left out.
\<close>

section \<open>Data\<close>

record 'h topic_subscription =
  sub_topic :: string
  sub_handler :: 'h

datatype 'h callback =
    CallHandler 'h
  | CallSubscription "'h topic_subscription option"

record ('c, 'k) paho_options =
  po_broker :: string
  po_clientID :: string
  po_username :: string
  po_password :: string
  po_certificate :: "'k option"
  po_rootCA :: "'c option"
  po_insecureSkipVerify :: bool

datatype ('h, 'c, 'k) paho_call =
    PahoNewClient "('c, 'k) paho_options"
  | PahoConnect
  | PahoDisconnect nat
  | PahoPublish string nat bool string
  | PahoSubscribe string nat "'h callback"
  | PahoUnsubscribe string

record ('h, 'c, 'k) mqtt_client =
  mc_hostPort :: string
  mc_pubQos :: nat
  mc_subQos :: nat
  mc_timeout :: int
  mc_appID :: string
  mc_isRunning :: bool
  mc_jsonIndent :: string
  mc_pahoClient :: "('c, 'k) paho_options option"
  mc_subscriptions :: "string \<rightharpoonup> 'h topic_subscription option"
  mc_tlsVerifyServerCert :: bool
  mc_caCert :: "'c option"

definition DefaultTimeoutSec :: int where
  "DefaultTimeoutSec = 3"

section \<open>Operations\<close>

definition NewMqttClient :: "string \<Rightarrow> 'c option \<Rightarrow> int \<Rightarrow> ('h, 'c, 'k) mqtt_client" where
  "NewMqttClient appID caCert timeoutSec =
     (let timeoutSec = (if timeoutSec \<le> 0 then DefaultTimeoutSec else timeoutSec)
      in \<lparr>mc_hostPort = [], mc_pubQos = 1, mc_subQos = 1, mc_timeout = timeoutSec, mc_appID = appID,
          mc_isRunning = False, mc_jsonIndent = [], mc_pahoClient = None, mc_subscriptions = Map.empty,
          mc_tlsVerifyServerCert = True, mc_caCert = caCert\<rparr>)"

text \<open>
  The retry loop of \<open>connect\<close>. \<open>attempt n\<close> is the error of the token of attempt \<open>n\<close>. The result is the error
  returned and the number of attempts made; with a timeout of 0 the loop may never end, then it is \<open>None\<close>.
\<close>

partial_function (option) connect_loop ::
    "(nat \<Rightarrow> error option) \<Rightarrow> int \<Rightarrow> nat \<Rightarrow> int \<Rightarrow> int \<Rightarrow> error option \<Rightarrow> (error option \<times> nat) option" where
  "connect_loop attempt timeout n retryDelaySec retryDuration err =
     (if timeout = 0 \<or> retryDuration < timeout then
        (case attempt n of
           None \<Rightarrow> Some (None, Suc n)
         | Some e \<Rightarrow>
             connect_loop attempt timeout (Suc n)
               (if retryDelaySec < 120 then retryDelaySec + 1 else retryDelaySec)
               (retryDuration + 1 + retryDelaySec) (Some e))
      else Some (err, n))"

text \<open>What \<open>connect\<close> gets from its environment.\<close>

record connect_env =
  env_hostName :: string
  env_timeStamp :: int
  env_isConnected :: bool
  env_attempt :: "nat \<Rightarrow> error option"

definition client_id :: "connect_env \<Rightarrow> string \<Rightarrow> string \<Rightarrow> string" where
  "client_id env appID username =
     appID @ ''-'' @ env_hostName env @ ''-'' @ username @ ''-'' @ show_int (env_timeStamp env)"

definition connect ::
    "connect_env \<Rightarrow> string \<Rightarrow> string \<Rightarrow> string \<Rightarrow> 'k option \<Rightarrow> ('h, 'c, 'k) mqtt_client \<Rightarrow>
      (error option \<times> ('h, 'c, 'k) mqtt_client \<times> ('h, 'c, 'k) paho_call list) option" where
  "connect env hostPort username accessToken clientCert client =
     (let closing = (if mc_pahoClient client \<noteq> None \<and> env_isConnected env
                     then [PahoDisconnect (1000 * nat DefaultTimeoutSec)] else []);
          opts = \<lparr>po_broker = ''tls://'' @ hostPort @ ''/'', po_clientID = client_id env (mc_appID client) username,
                  po_username = username, po_password = accessToken, po_certificate = clientCert,
                  po_rootCA = mc_caCert client, po_insecureSkipVerify = \<not> mc_tlsVerifyServerCert client\<rparr>;
          client' = client\<lparr>mc_hostPort := hostPort, mc_pahoClient := Some opts, mc_isRunning := True\<rparr>
      in map_option
           (\<lambda>(err, n). (err, client', closing @ PahoNewClient opts # replicate n PahoConnect))
           (connect_loop (env_attempt env) (mc_timeout client) 0 1 0 None))"

definition ConnectWithAccessToken ::
    "connect_env \<Rightarrow> string \<Rightarrow> string \<Rightarrow> string \<Rightarrow> ('h, 'c, 'k) mqtt_client \<Rightarrow>
      (error option \<times> ('h, 'c, 'k) mqtt_client \<times> ('h, 'c, 'k) paho_call list) option" where
  "ConnectWithAccessToken env hostPort userName accessToken client =
     connect env hostPort userName accessToken None client"

definition ConnectWithClientCert ::
    "connect_env \<Rightarrow> string \<Rightarrow> 'k option \<Rightarrow> ('h, 'c, 'k) mqtt_client \<Rightarrow>
      (error option \<times> ('h, 'c, 'k) mqtt_client \<times> ('h, 'c, 'k) paho_call list) option" where
  "ConnectWithClientCert env hostPort clientCert client =
     (case clientCert of
        None \<Rightarrow> Some (Some ''clientCert is nil'', client, [])
      | Some cert \<Rightarrow> connect env hostPort (mc_appID client) [] (Some cert) client)"

definition Disconnect :: "('h, 'c, 'k) mqtt_client \<Rightarrow> ('h, 'c, 'k) mqtt_client \<times> ('h, 'c, 'k) paho_call list" where
  "Disconnect client =
     (let client = client\<lparr>mc_isRunning := False\<rparr> in
      if mc_pahoClient client \<noteq> None then
        (client\<lparr>mc_pahoClient := None, mc_subscriptions := Map.empty\<rparr>, [PahoDisconnect (nat DefaultTimeoutSec * 1000)])
      else (client, []))"

text \<open>\<open>answer\<close> is the error of the token Paho returns.\<close>

definition Publish :: "bool \<Rightarrow> error option \<Rightarrow> string \<Rightarrow> string \<Rightarrow> ('h, 'c, 'k) mqtt_client \<Rightarrow>
      error option \<times> ('h, 'c, 'k) paho_call list" where
  "Publish isConnected answer topic message client =
     (if mc_pahoClient client = None \<or> \<not> isConnected then (Some ''no connection with server'', [])
      else (answer, [PahoPublish topic (mc_pubQos client) False message]))"

definition object_text :: "json \<Rightarrow> ('h, 'c, 'k) mqtt_client \<Rightarrow> string" where
  "object_text object client =
     (if mc_jsonIndent client \<noteq> [] then json_text_indent (mc_jsonIndent client) (mc_jsonIndent client) object
      else json_text object)"

definition PublishObject :: "bool \<Rightarrow> error option \<Rightarrow> string \<Rightarrow> json \<Rightarrow> ('h, 'c, 'k) mqtt_client \<Rightarrow>
      error option \<times> ('h, 'c, 'k) paho_call list" where
  "PublishObject isConnected answer topic object client =
     Publish isConnected answer topic (object_text object client) client"

definition SetPrettyPrint :: "bool \<Rightarrow> ('h, 'c, 'k) mqtt_client \<Rightarrow> ('h, 'c, 'k) mqtt_client" where
  "SetPrettyPrint enable client = client\<lparr>mc_jsonIndent := (if enable then '' '' else [])\<rparr>"

text \<open>\<open>order\<close> is the order in which the map is ranged over; a nil Paho client panics at the first call.\<close>

definition resubscribe :: "string list \<Rightarrow> ('h, 'c, 'k) mqtt_client \<Rightarrow> ('h, 'c, 'k) paho_call list outcome" where
  "resubscribe order client =
     (if order = [] then Ret []
      else if mc_pahoClient client = None then Panic NilDereference
      else
        let subscription = (case mc_subscriptions client (last order) of None \<Rightarrow> None | Some p \<Rightarrow> p)
        in Ret (concat (map (\<lambda>topic. [PahoUnsubscribe topic,
             PahoSubscribe topic (mc_pubQos client) (CallSubscription subscription)]) order)))"

definition Subscribe :: "string \<Rightarrow> 'h \<Rightarrow> ('h, 'c, 'k) mqtt_client \<Rightarrow> ('h, 'c, 'k) mqtt_client \<times> ('h, 'c, 'k) paho_call list" where
  "Subscribe topic handler client =
     (let subscription = \<lparr>sub_topic = topic, sub_handler = handler\<rparr>
      in (client\<lparr>mc_subscriptions := (mc_subscriptions client)(topic \<mapsto> Some subscription)\<rparr>,
          if mc_pahoClient client \<noteq> None
          then [PahoSubscribe topic (mc_subQos client) (CallHandler handler)] else []))"

definition Unsubscribe :: "string \<Rightarrow> ('h, 'c, 'k) mqtt_client \<Rightarrow> ('h, 'c, 'k) mqtt_client \<times> ('h, 'c, 'k) paho_call list" where
  "Unsubscribe topic client =
     (case (case mc_subscriptions client topic of None \<Rightarrow> None | Some p \<Rightarrow> p) of
        None \<Rightarrow> (client, [])
      | Some subscription \<Rightarrow>
          if mc_pahoClient client \<noteq> None then
            (client\<lparr>mc_subscriptions := (mc_subscriptions client)(topic \<mapsto> None)\<rparr>, [PahoUnsubscribe topic])
          else (client, []))"

text \<open>What happens when Paho runs a callback: the handler called, or the nil dereference.\<close>

fun run_callback :: "'h callback \<Rightarrow> 'h outcome" where
  "run_callback (CallHandler h) = Ret h"
| "run_callback (CallSubscription (Some s)) = Ret (sub_handler s)"
| "run_callback (CallSubscription None) = Panic NilDereference"

section \<open>The retry loop\<close>

text \<open>
  \<open>spent k\<close> is what the loop counts as the duration of \<open>k\<close> failed attempts, \<open>tries t\<close> the number of attempts
  a timeout of \<open>t\<close> leaves room for.
\<close>

definition delay :: "nat \<Rightarrow> int" where
  "delay k = min (int k + 1) 120"

fun spent :: "nat \<Rightarrow> int" where
  "spent 0 = 0"
| "spent (Suc k) = spent k + 1 + delay k"

definition tries :: "int \<Rightarrow> nat" where
  "tries timeout = length (takeWhile (\<lambda>k. spent k < timeout) [0..<nat timeout])"

definition loop_result :: "(nat \<Rightarrow> error option) \<Rightarrow> nat \<Rightarrow> error option \<times> nat" where
  "loop_result attempt t =
     (case find (\<lambda>k. attempt k = None) [0..<t] of
        Some k \<Rightarrow> (None, Suc k)
      | None \<Rightarrow> (attempt (t - 1), t))"

lemma spent_mono: "i \<le> j \<Longrightarrow> spent i \<le> spent j"
proof (induction j)
  case (Suc j)
  then show ?case by (cases "i = Suc j") (auto simp: delay_def intro: order_trans)
qed simp

lemma spent_ge: "2 * int k \<le> spent k"
  by (induction k) (auto simp: delay_def)

lemma takeWhile_upt_mono:
  assumes mono: "\<And>i j. i \<le> j \<Longrightarrow> P j \<Longrightarrow> P i" and m: "\<not> P m"
  shows "n < length (takeWhile P [0..<m]) \<longleftrightarrow> P n"
proof -
  let ?t = "length (takeWhile P [0..<m])"
  have t: "?t \<le> m" using length_takeWhile_le [of P "[0..<m]"] by simp
  have stop: "\<not> P ?t"
  proof (cases "?t < m")
    case True
    with nth_length_takeWhile [of P "[0..<m]"] show ?thesis by simp
  qed (use t m in simp)
  show ?thesis
  proof
    assume n: "n < ?t"
    then have "takeWhile P [0..<m] ! n = n" using t by (simp add: takeWhile_nth)
    with n show "P n" by (metis nth_mem set_takeWhileD)
  next
    assume "P n"
    with mono [of ?t n] stop show "n < ?t" by (meson not_le)
  qed
qed

lemma tries_less: "n < tries timeout \<longleftrightarrow> spent n < timeout"
  unfolding tries_def
proof (rule takeWhile_upt_mono)
  show "spent i < timeout" if "i \<le> j" "spent j < timeout" for i j
    using spent_mono [OF that(1)] that(2) by simp
  show "\<not> spent (nat timeout) < timeout" using spent_ge [of "nat timeout"] by linarith
qed

lemma find_upt_Suc:
  "n < t \<Longrightarrow> find P [n..<t] = (if P n then Some n else find P [Suc n..<t])"
  by (simp add: upt_conv_Cons)

lemma connect_loop_from:
  assumes "timeout > 0" and "n \<le> tries timeout"
    and "err = (if n = 0 then None else attempt (n - 1))"
  shows "connect_loop attempt timeout n (delay n) (spent n) err =
    Some (case find (\<lambda>k. attempt k = None) [n..<tries timeout] of
        Some k \<Rightarrow> (None, Suc k)
      | None \<Rightarrow> (attempt (tries timeout - 1), tries timeout))"
  using assms(2,3)
proof (induction "tries timeout - n" arbitrary: n err)
  case 0
  then have n: "n = tries timeout" by simp
  then have stop: "\<not> spent n < timeout" using tries_less [of n timeout] by simp
  with assms(1) have "n \<noteq> 0" by (cases n) auto
  with 0 n stop assms(1) show ?case by (subst connect_loop.simps) simp
next
  case (Suc d)
  then have n: "n < tries timeout" by simp
  then have go: "spent n < timeout" by (simp add: tries_less)
  show ?case
  proof (cases "attempt n")
    case None
    with go n show ?thesis by (subst connect_loop.simps) (simp add: find_upt_Suc)
  next
    case (Some e)
    have "connect_loop attempt timeout (Suc n) (delay (Suc n)) (spent (Suc n)) (Some e) =
      Some (case find (\<lambda>k. attempt k = None) [Suc n..<tries timeout] of
          Some k \<Rightarrow> (None, Suc k)
        | None \<Rightarrow> (attempt (tries timeout - 1), tries timeout))"
      using Suc.hyps(2) n Some by (intro Suc.hyps(1)) simp_all
    moreover have "(if delay n < 120 then delay n + 1 else delay n) = delay (Suc n)" by (simp add: delay_def)
    ultimately show ?thesis using go n Some by (subst connect_loop.simps) (simp add: find_upt_Suc)
  qed
qed

lemma connect_loop_result:
  "0 < timeout \<Longrightarrow> connect_loop attempt timeout 0 1 0 None = Some (loop_result attempt (tries timeout))"
  using connect_loop_from [of timeout 0 None attempt] by (simp add: loop_result_def delay_def)

lemma connect_loop_forever:
  assumes "\<And>k. n \<le> k \<Longrightarrow> k < m \<Longrightarrow> attempt k \<noteq> None" and "n \<le> m" and "attempt m = None"
  shows "connect_loop attempt 0 n d s err = Some (None, Suc m)"
  using assms(1,2)
proof (induction "m - n" arbitrary: n d s err)
  case 0
  then show ?case using assms(3) by (subst connect_loop.simps) simp
next
  case (Suc x)
  then have "n < m" by simp
  with Suc.prems(1) [of n] obtain e where e: "attempt n = Some e" by auto
  have "connect_loop attempt 0 (Suc n) d' s' (Some e) = Some (None, Suc m)" for d' s'
    using Suc by (intro Suc.hyps(1)) simp_all
  with e show ?case by (subst connect_loop.simps) simp
qed

lemma tries_default: "tries DefaultTimeoutSec = 2"
  by (simp add: tries_def DefaultTimeoutSec_def upt_rec delay_def numeral_eq_Suc)

lemma connect_loop_some:
  assumes "connect_loop attempt 0 n d s err = Some r"
  shows "fst r = None \<and> attempt (snd r - 1) = None"
proof -
  have "connect_loop attempt timeout n d s err = Some r \<Longrightarrow>
      timeout = 0 \<longrightarrow> fst r = None \<and> attempt (snd r - 1) = None" for timeout
    by (rule connect_loop.raw_induct [where P = "\<lambda>attempt timeout n d s err r.
          timeout = 0 \<longrightarrow> fst r = None \<and> attempt (snd r - 1) = None"])
       (auto split: option.splits if_splits)
  with assms show ?thesis by blast
qed

section \<open>Which handler a message reaches\<close>

text \<open>
  The callback that the calls on Paho leave in place for a topic: the last one it was given for that very topic.
  A new or a disconnected client has none; the sessions are clean.
\<close>

fun route_call :: "('h, 'c, 'k) paho_call \<Rightarrow> (string \<Rightarrow> 'h callback option) \<Rightarrow> string \<Rightarrow> 'h callback option" where
  "route_call (PahoSubscribe t q cb) r = r(t := Some cb)"
| "route_call (PahoUnsubscribe t) r = r(t := None)"
| "route_call (PahoNewClient opts) r = (\<lambda>_. None)"
| "route_call (PahoDisconnect ms) r = (\<lambda>_. None)"
| "route_call PahoConnect r = r"
| "route_call (PahoPublish t q x m) r = r"

definition routes :: "('h, 'c, 'k) paho_call list \<Rightarrow> (string \<Rightarrow> 'h callback option) \<Rightarrow> string \<Rightarrow> 'h callback option" where
  "routes calls r = fold route_call calls r"

text \<open>What the application asked for.\<close>

definition handler_of :: "('h, 'c, 'k) mqtt_client \<Rightarrow> string \<Rightarrow> 'h option" where
  "handler_of client topic =
     map_option sub_handler (case mc_subscriptions client topic of None \<Rightarrow> None | Some p \<Rightarrow> p)"

lemma routes_append: "routes (xs @ ys) r = routes ys (routes xs r)"
  by (simp add: routes_def)

interpretation subscriptions: keyed_store handler_of "\<lambda>t h c. Ret (fst (Subscribe t h c))" "\<lambda>_. True"
  by unfold_locales (auto simp: Subscribe_def Let_def handler_of_def)

lemma Unsubscribe_connected:
  "mc_pahoClient c \<noteq> None \<Longrightarrow>
     handler_of (fst (Unsubscribe t c)) t' = (if t' = t then None else handler_of c t') \<and>
     routes (snd (Unsubscribe t c)) r = (if handler_of c t = None then r else r(t := None)) \<and>
     mc_pahoClient (fst (Unsubscribe t c)) = mc_pahoClient c"
  by (auto simp: Unsubscribe_def handler_of_def routes_def split: option.splits)

lemma Subscribe_connected:
  "mc_pahoClient c \<noteq> None \<Longrightarrow>
     handler_of (fst (Subscribe t h c)) t' = (if t' = t then Some h else handler_of c t') \<and>
     routes (snd (Subscribe t h c)) r = r(t := Some (CallHandler h)) \<and>
     mc_pahoClient (fst (Subscribe t h c)) = mc_pahoClient c"
  by (auto simp: Subscribe_def Let_def handler_of_def routes_def)

text \<open>
  What an application does on a connection, until it is lost: a call of the client with the answer of Paho. The state is the client and the callbacks
  that Paho has.
\<close>

datatype 'h mqtt_op =
    OpSubscribe string 'h
  | OpUnsubscribe string
  | OpPublish bool "error option" string string
  | OpPublishObject bool "error option" string json
  | OpPrettyPrint bool

type_synonym ('h, 'c, 'k) session = "('h, 'c, 'k) mqtt_client \<times> (string \<Rightarrow> 'h callback option)"

fun session_do :: "'h mqtt_op \<Rightarrow> ('h, 'c, 'k) session \<Rightarrow> ('h, 'c, 'k) session" where
  "session_do (OpSubscribe t h) (c, r) = (case Subscribe t h c of (c, calls) \<Rightarrow> (c, routes calls r))"
| "session_do (OpUnsubscribe t) (c, r) = (case Unsubscribe t c of (c, calls) \<Rightarrow> (c, routes calls r))"
| "session_do (OpPublish up ans t m) (c, r) = (case Publish up ans t m c of (err, calls) \<Rightarrow> (c, routes calls r))"
| "session_do (OpPublishObject up ans t obj) (c, r) = (case PublishObject up ans t obj c of (err, calls) \<Rightarrow> (c, routes calls r))"
| "session_do (OpPrettyPrint b) (c, r) = (SetPrettyPrint b c, r)"

definition session_run :: "'h mqtt_op list \<Rightarrow> ('h, 'c, 'k) session \<Rightarrow> ('h, 'c, 'k) session" where
  "session_run ops s = fold session_do ops s"

text \<open>The handler that the last call about a topic leaves, read off the calls alone.\<close>

fun about :: "string \<Rightarrow> 'h mqtt_op \<Rightarrow> bool" where
  "about topic (OpSubscribe t h) \<longleftrightarrow> t = topic"
| "about topic (OpUnsubscribe t) \<longleftrightarrow> t = topic"
| "about topic _ \<longleftrightarrow> False"

definition last_handler :: "'h mqtt_op list \<Rightarrow> string \<Rightarrow> 'h option" where
  "last_handler ops topic =
     (case find (about topic) (rev ops) of
        Some (OpSubscribe t h) \<Rightarrow> Some h
      | _ \<Rightarrow> None)"

lemma last_handler_snoc:
  "last_handler (ops @ [x]) t = (if about t x then (case x of OpSubscribe t h \<Rightarrow> Some h | _ \<Rightarrow> None) else last_handler ops t)"
  by (simp add: last_handler_def split: mqtt_op.split)

lemma session_do_connected:
  assumes "mc_pahoClient c \<noteq> None" and "\<forall>t. r t = map_option CallHandler (handler_of c t)" and "session_do x (c, r) = (c', r')"
  shows "mc_pahoClient c' \<noteq> None \<and> (\<forall>t. r' t = map_option CallHandler (handler_of c' t)) \<and>
    (\<forall>t. handler_of c' t = (if about t x then (case x of OpSubscribe t h \<Rightarrow> Some h | _ \<Rightarrow> None) else handler_of c t))"
proof (cases x)
  case (OpSubscribe t h)
  with assms Subscribe_connected [OF assms(1), of t h] show ?thesis by (auto split: prod.splits)
next
  case (OpUnsubscribe t)
  with assms Unsubscribe_connected [OF assms(1), of t] show ?thesis by (auto split: prod.splits if_splits)
qed (use assms in \<open>auto simp: PublishObject_def Publish_def SetPrettyPrint_def routes_def handler_of_def split: if_splits\<close>)

lemma session_run_connected:
  assumes "mc_pahoClient c \<noteq> None" and "mc_subscriptions c = Map.empty"
  shows "case session_run ops (c, \<lambda>_. None) of (c', r') \<Rightarrow> mc_pahoClient c' \<noteq> None \<and>
    (\<forall>t. r' t = map_option CallHandler (handler_of c' t)) \<and> (\<forall>t. handler_of c' t = last_handler ops t)"
proof (induction ops rule: rev_induct)
  case Nil
  with assms show ?case by (simp add: session_run_def handler_of_def last_handler_def)
next
  case (snoc x ops)
  obtain c1 r1 where 1: "session_run ops (c, \<lambda>_. None) = (c1, r1)" by (metis surj_pair)
  obtain c2 r2 where 2: "session_do x (c1, r1) = (c2, r2)" by (metis surj_pair)
  from snoc.IH 1 have "mc_pahoClient c1 \<noteq> None" "\<forall>t. r1 t = map_option CallHandler (handler_of c1 t)" "\<forall>t. handler_of c1 t = last_handler ops t"
    by simp_all
  with session_do_connected [OF this(1,2) 2] 1 2 show ?case by (simp add: session_run_def last_handler_snoc)
qed

lemma filter_connect: "length (filter (\<lambda>x. x = PahoConnect) (replicate n PahoConnect)) = n"
  by simp

lemma loop_result_attempts: "0 < t \<Longrightarrow> snd (loop_result attempt t) \<le> t"
  by (auto simp: loop_result_def find_Some_iff split: option.splits)

lemma loop_result_ok: "0 < t \<Longrightarrow> fst (loop_result attempt t) = None \<longleftrightarrow> (\<exists>k < t. attempt k = None)"
proof (cases "find (\<lambda>k. attempt k = None) [0..<t]")
  case None
  assume "0 < t"
  from None have "\<forall>k < t. attempt k \<noteq> None" unfolding find_None_iff by auto
  moreover from this \<open>0 < t\<close> have "attempt (t - 1) \<noteq> None" by simp
  ultimately show ?thesis using None by (auto simp: loop_result_def)
next
  case (Some k)
  then have "k < t" "attempt k = None" by (auto simp: find_Some_iff)
  with Some show ?thesis by (auto simp: loop_result_def)
qed

section \<open>Properties\<close>

lemma connect_result:
  assumes "0 < mc_timeout client"
  shows "\<exists>err client' calls. connect env hostPort username accessToken cert client = Some (err, client', calls) \<and>
    (err = None \<longleftrightarrow> (\<exists>k. spent k < mc_timeout client \<and> env_attempt env k = None)) \<and>
    length (filter (\<lambda>x. x = PahoConnect) calls) \<le> tries (mc_timeout client) \<and>
    mc_subscriptions client' = mc_subscriptions client \<and> mc_pahoClient client' \<noteq> None \<and> mc_isRunning client'"
proof -
  let ?t = "tries (mc_timeout client)"
  have "0 < ?t" using assms by (simp add: tries_less)
  from loop_result_ok [OF this, of "env_attempt env"] loop_result_attempts [OF this, of "env_attempt env"]
    connect_loop_result [OF assms, of "env_attempt env"]
  show ?thesis
    by (cases "loop_result (env_attempt env) ?t") (simp add: connect_def Let_def tries_less [symmetric])
qed

text \<open>
  C18: With a positive timeout connect always returns. It returns nil exactly if an attempt succeeds that starts while the
  counted duration is below the timeout, it makes at most as many attempts as fit, and it keeps the subscriptions,
  for the handler that Paho calls on connect.
\<close>

theorem connect_returns:
  assumes "0 < mc_timeout client"
  shows "\<exists>err client' calls. connect env hostPort username accessToken cert client = Some (err, client', calls) \<and>
    (err = None \<longleftrightarrow> (\<exists>k. spent k < mc_timeout client \<and> env_attempt env k = None)) \<and>
    length (filter (\<lambda>x. x = PahoConnect) calls) \<le> tries (mc_timeout client) \<and>
    mc_subscriptions client' = mc_subscriptions client \<and> mc_pahoClient client' \<noteq> None \<and> mc_isRunning client'"
  using assms by (rule connect_result)

definition refused_then_up :: connect_env where
  "refused_then_up = \<lparr>env_hostName = ''host'', env_timeStamp = 1650000000000, env_isConnected = False,
     env_attempt = (\<lambda>n. if n = 0 then Some ''refused'' else None)\<rparr>"

theorem connect_returns_witness:
  "\<exists>client' calls. connect refused_then_up ''localhost:9883'' ''user1'' ''token'' None
      (NewMqttClient ''app1'' (None :: unit option) 0 :: (nat, unit, unit) mqtt_client) = Some (None, client', calls)"
proof -
  have "0 < mc_timeout (NewMqttClient ''app1'' (None :: unit option) 0 :: (nat, unit, unit) mqtt_client)"
    by (simp add: NewMqttClient_def DefaultTimeoutSec_def)
  moreover have "spent 1 < mc_timeout (NewMqttClient ''app1'' (None :: unit option) 0 :: (nat, unit, unit) mqtt_client)"
    by (simp add: NewMqttClient_def DefaultTimeoutSec_def delay_def)
  moreover have "env_attempt refused_then_up 1 = None" by (simp add: refused_then_up_def)
  ultimately show ?thesis
    using connect_returns [of "NewMqttClient ''app1'' (None :: unit option) 0 :: (nat, unit, unit) mqtt_client"
        refused_then_up "''localhost:9883''" "''user1''" "''token''" None] by blast
qed

text \<open>
  A client made without a timeout gets the default of 3 seconds, which is room for two attempts: it connects
  exactly if the first or the second attempt succeeds, and otherwise returns the error of the second.
\<close>

theorem connect_default_timeout:
  assumes "timeoutSec \<le> 0"
  shows "\<exists>client' calls. ConnectWithAccessToken env hostPort userName accessToken (NewMqttClient appID ca timeoutSec) =
      Some (if env_attempt env 0 = None then None else env_attempt env 1, client', calls) \<and>
    length (filter (\<lambda>x. x = PahoConnect) calls) = (if env_attempt env 0 = None then 1 else 2)"
proof -
  let ?c = "NewMqttClient appID ca timeoutSec" and ?a = "env_attempt env"
  have c: "mc_timeout ?c = DefaultTimeoutSec" "mc_pahoClient ?c = None"
    using assms by (simp_all add: NewMqttClient_def)
  have "loop_result ?a 2 = (if ?a 0 = None then None else ?a 1, if ?a 0 = None then 1 else 2)"
    by (simp add: loop_result_def upt_rec numeral_eq_Suc)
  moreover have "connect_loop ?a DefaultTimeoutSec 0 1 0 None = Some (loop_result ?a 2)"
    by (rule connect_loop_result [of DefaultTimeoutSec, unfolded tries_default]) (simp add: DefaultTimeoutSec_def)
  ultimately show ?thesis
    unfolding ConnectWithAccessToken_def connect_def Let_def c by (simp only: option.map prod.case) simp
qed

theorem connect_default_timeout_witness:
  "\<exists>client' calls. ConnectWithAccessToken refused_then_up ''h'' ''u'' ''t'' (NewMqttClient ''a'' (None :: unit option) 0) =
     Some (None, client' :: (nat, unit, unit) mqtt_client, calls)"
  using connect_default_timeout [of 0 refused_then_up "''h''" "''u''" "''t''" "''a''" "None :: unit option"]
  by (auto simp: refused_then_up_def)

text \<open>
  PublishObject refuses to publish without a connection, touching Paho in no way. With one it publishes exactly one
  message, with the QoS of the client and not retained, whose payload decodes to the value given, with pretty printing on or off.
\<close>

theorem publish_object_payload:
  assumes "goval_ok v"
  shows "PublishObject isConnected answer topic (to_json v) (SetPrettyPrint enable client) =
      (if mc_pahoClient client = None \<or> \<not> isConnected then (Some ''no connection with server'', [])
       else (answer, [PahoPublish topic (mc_pubQos client) False (object_text (to_json v) (SetPrettyPrint enable client))])) \<and>
    json_unmarshal (object_text (to_json v) (SetPrettyPrint enable client)) = Some (canon v)"
proof -
  have "object_text (to_json v) (SetPrettyPrint enable client) =
      (if enable then json_marshal_indent '' '' '' '' v else json_marshal v)"
    by (simp add: object_text_def SetPrettyPrint_def json_marshal_def json_marshal_indent_def)
  with compact_codec.reads_back [OF assms] indent_codec.reads_back [OF assms] show ?thesis
    by (simp add: PublishObject_def Publish_def SetPrettyPrint_def)
qed

theorem publish_object_payload_witness:
  "json_unmarshal (object_text (to_json (GSlice [GBool True])) (SetPrettyPrint True (NewMqttClient ''a'' None 0 :: (nat, unit, unit) mqtt_client))) =
     Some (GSlice [GBool True])"
  using publish_object_payload [of "GSlice [GBool True]" True None "''t''" True "NewMqttClient ''a'' None 0 :: (nat, unit, unit) mqtt_client"] by simp

text \<open>
  C12: On a connection made before the first subscription, after any sequence of calls of Subscribe, Unsubscribe, Publish, PublishObject and
  SetPrettyPrint, the callback Paho holds for a topic calls the handler of the last subscription to that topic, and there is none for a topic that
  was never subscribed to or that was unsubscribed from since. The handlers are those the calls were given, not those the client remembers.
\<close>

theorem session_routes:
  assumes "mc_pahoClient client \<noteq> None" and "mc_subscriptions client = Map.empty"
  shows "snd (session_run ops (client, \<lambda>_. None)) topic = map_option CallHandler (last_handler ops topic)"
  using session_run_connected [OF assms, of ops] by (simp split: prod.splits)

definition online_client :: "(nat, unit, unit) mqtt_client" where
  "online_client = (NewMqttClient ''app1'' None 0)\<lparr>mc_pahoClient := Some \<lparr>po_broker = ''tls://h/'', po_clientID = ''a'',
     po_username = [], po_password = [], po_certificate = None, po_rootCA = None, po_insecureSkipVerify = False\<rparr>\<rparr>"

theorem session_routes_witness:
  "let r = snd (session_run [OpSubscribe ''a/b'' (7 :: nat), OpSubscribe ''c'' 1, OpSubscribe ''a/b'' 8, OpUnsubscribe ''c''] (online_client, \<lambda>_. None))
   in r ''a/b'' = Some (CallHandler 8) \<and> r ''c'' = None"
proof -
  have "mc_pahoClient online_client \<noteq> None" "mc_subscriptions online_client = Map.empty"
    by (simp_all add: online_client_def NewMqttClient_def)
  from session_routes [OF this] show ?thesis by (simp add: Let_def last_handler_def)
qed

lemma routes_resubscribe_keep:
  "r t = Some cb \<Longrightarrow>
     routes (concat (map (\<lambda>topic. [PahoUnsubscribe topic, PahoSubscribe topic q cb]) ts)) r t = Some cb"
  by (induction ts arbitrary: r) (auto simp: routes_def)

lemma routes_resubscribe:
  "t \<in> set order \<Longrightarrow>
     routes (concat (map (\<lambda>topic. [PahoUnsubscribe topic :: ('h, 'c, 'k) paho_call, PahoSubscribe topic q cb]) order)) r t = Some cb"
proof (induction order arbitrary: r)
  case (Cons x order)
  let ?f = "\<lambda>topic. [PahoUnsubscribe topic :: ('h, 'c, 'k) paho_call, PahoSubscribe topic q cb]"
  have step: "routes (concat (map ?f (x # order))) r = routes (concat (map ?f order)) ((r(x := None))(x := Some cb))"
    by (simp add: routes_def)
  show ?case
  proof (cases "t = x")
    case True
    show ?thesis unfolding step by (rule routes_resubscribe_keep) (simp add: True)
  next
    case False
    with Cons.prems have "t \<in> set order" by simp
    then show ?thesis unfolding step by (rule Cons.IH)
  qed
qed simp

lemma resubscribe_routes:
  assumes "range_order (mc_subscriptions client) order" and "mc_pahoClient client \<noteq> None"
    and "mc_subscriptions client topic \<noteq> None"
  shows "\<exists>calls cb. resubscribe order client = Ret calls \<and> routes calls r topic = Some cb \<and>
    run_callback cb = (case handler_of client (last order) of Some h \<Rightarrow> Ret h | None \<Rightarrow> Panic NilDereference)"
proof -
  let ?sub = "case mc_subscriptions client (last order) of None \<Rightarrow> None | Some p \<Rightarrow> p"
  let ?calls = "concat (map (\<lambda>t. [PahoUnsubscribe t, PahoSubscribe t (mc_pubQos client) (CallSubscription ?sub)]) order)"
  have t: "topic \<in> set order" using assms(1,3) by (auto simp: range_order_def)
  then have "resubscribe order client = Ret ?calls" using assms(2) by (auto simp: resubscribe_def Let_def)
  moreover have "routes ?calls r topic = Some (CallSubscription ?sub)" by (rule routes_resubscribe [OF t])
  moreover have "run_callback (CallSubscription ?sub) =
      (case handler_of client (last order) of Some h \<Rightarrow> Ret h | None \<Rightarrow> Panic NilDereference)"
    by (cases ?sub) (simp_all add: handler_of_def)
  ultimately show ?thesis by blast
qed

text \<open>
  C37: After a reconnect every topic reaches one and the same handler, that of the topic the map was ranged over last; if that
  topic had been unsubscribed, every message panics. Only a client with a single subscription is sure to get its handler back.
\<close>

theorem resubscribe_last_handler:
  assumes "range_order (mc_subscriptions client) order" and "mc_pahoClient client \<noteq> None"
    and "mc_subscriptions client topic \<noteq> None"
  shows "\<exists>calls cb. resubscribe order client = Ret calls \<and> routes calls r topic = Some cb \<and>
    run_callback cb = (case handler_of client (last order) of Some h \<Rightarrow> Ret h | None \<Rightarrow> Panic NilDereference)"
  using assms by (rule resubscribe_routes)

theorem resubscribe_last_handler_witness:
  "\<exists>calls cb. resubscribe [''a'', ''b''] (fst (Subscribe ''b'' 2 (fst (Subscribe ''a'' 1 online_client)))) = Ret calls \<and>
     routes calls (\<lambda>_. None) ''a'' = Some cb \<and> run_callback cb = Ret 2"
proof -
  let ?c = "fst (Subscribe ''b'' 2 (fst (Subscribe ''a'' 1 online_client)))"
  have "range_order (mc_subscriptions ?c) [''a'', ''b'']" "mc_pahoClient ?c \<noteq> None" "mc_subscriptions ?c ''a'' \<noteq> None"
    "handler_of ?c ''b'' = Some 2"
    by (auto simp: range_order_def Subscribe_def online_client_def NewMqttClient_def handler_of_def)
  with resubscribe_last_handler [of ?c "[''a'', ''b'']" "''a''" "\<lambda>_. None"] show ?thesis by simp
qed

text \<open>
  C40: Unsubscribe keeps the topic in the table with a nil entry, so the next reconnect subscribes to it again; without a
  Paho client it does nothing at all, and the handler stays.
\<close>

theorem unsubscribe_keeps_topic:
  assumes "handler_of client topic = Some h" and "client' = fst (Unsubscribe topic client)"
  shows "(mc_pahoClient client = None \<longrightarrow> client' = client) \<and>
    (mc_pahoClient client \<noteq> None \<longrightarrow> handler_of client' topic = None \<and>
      (\<forall>order. range_order (mc_subscriptions client') order \<longrightarrow>
         (\<exists>calls cb. resubscribe order client' = Ret calls \<and> routes calls r topic = Some cb)))"
proof (cases "mc_pahoClient client = None")
  case True
  then show ?thesis using assms by (auto simp: Unsubscribe_def split: option.splits)
next
  case False
  with assms have c: "mc_subscriptions client' topic = Some None" "mc_pahoClient client' \<noteq> None"
    by (auto simp: Unsubscribe_def handler_of_def split: option.splits)
  then show ?thesis
    using False resubscribe_routes [of client' _ topic r] by (fastforce simp: handler_of_def)
qed

theorem unsubscribe_keeps_topic_witness:
  "\<exists>calls cb. resubscribe [''a''] (fst (Unsubscribe ''a'' (fst (Subscribe ''a'' (1 :: nat) online_client)))) = Ret calls \<and>
     routes calls (\<lambda>_. None) ''a'' = Some cb"
proof -
  let ?c = "fst (Subscribe ''a'' (1 :: nat) online_client)"
  have "handler_of ?c ''a'' = Some 1" by (rule subscriptions.look_put_same [OF TrueI refl])
  moreover have "mc_pahoClient ?c \<noteq> None" "range_order (mc_subscriptions (fst (Unsubscribe ''a'' ?c))) [''a'']"
    by (auto simp: range_order_def Subscribe_def Unsubscribe_def online_client_def NewMqttClient_def)
  ultimately show ?thesis
    using unsubscribe_keeps_topic [of ?c "''a''" 1 "fst (Unsubscribe ''a'' ?c)" "\<lambda>_. None"] by blast
qed

end
