(* ===== verification/Accounts.thy ===== *)
theory Accounts
  imports ThingTD
begin

text \<open>
  The account of a hub (\<open>pkg/accounts/AccountRecord.go\<close>): the addresses and ports a factory connects to, and its JSON form.
  The ports are Go ints. The store of accounts has no content in the source.
\<close>

record account_record =
  ar_Address :: string
  ar_ID :: string
  ar_DisplayName :: string
  ar_LoginName :: string
  ar_AuthPort :: int
  ar_DirectoryPort :: int
  ar_MqttPort :: int
  ar_Enabled :: bool
  ar_RememberMe :: bool

text \<open>The tag, the position and the value of every field.\<close>

definition account_tags :: "account_record \<Rightarrow> (string \<times> json) list" where
  "account_tags a =
    [(''address'', JStr (ar_Address a)), (''id'', JStr (ar_ID a)), (''name'', JStr (ar_DisplayName a)),
     (''loginName'', JStr (ar_LoginName a)), (''authPort'', JNum (show_int (ar_AuthPort a))),
     (''directoryPort'', JNum (show_int (ar_DirectoryPort a))), (''authPort'', JNum (show_int (ar_MqttPort a))),
     (''enabled'', JBool (ar_Enabled a)), (''rememberMe'', JBool (ar_RememberMe a))]"

text \<open>\<open>encoding/json\<close> leaves out all fields of a struct that share a tagged name.\<close>

definition account_json :: "account_record \<Rightarrow> json" where
  "account_json a =
     (let tags = map fst (account_tags a)
      in JObj (filter (\<lambda>(k, v). count_list tags k = 1) (account_tags a)))"

text \<open>
  The JSON form of an account holds neither its AuthPort nor its MqttPort: both have the tag authPort.\<close>

theorem account_ports_lost:
  "account_json a = account_json (a\<lparr>ar_AuthPort := p, ar_MqttPort := q\<rparr>) \<and>
   (\<exists>kvs. account_json a = JObj kvs \<and> map fst kvs =
      [''address'', ''id'', ''name'', ''loginName'', ''directoryPort'', ''enabled'', ''rememberMe''])"
  by (simp add: account_json_def account_tags_def)

end
