(* ===== verification/ConsumedThing.thy ===== *)
theory ConsumedThing
  imports InteractionOutput Topics MqttClient
begin

text \<open>
  Consumed things (\<open>pkg/consumedthing\<close>: ConsumedThing.go, Subscription.go) and their MQTT binding
  (ConsumedThingProtocolBinding.go): the value cache, the single subscriber per event and property, the requests
  that leave through the hooks, and the binding that feeds events in and carries requests out.

  Listeners are a type parameter; calling a nil listener panics. An operation that
  calls listeners returns the list of those calls, in order, with the value passed. A hook is the reference of the binding
  whose method it is; what the method does is an argument of the operations that call it. The log is left out;
  the mutexes are in Locking.
\<close>

section \<open>Data\<close>

record 'l subscription =
  sub_SubType :: string
  sub_Name :: string
  sub_interaction :: "event_affordance option"
  sub_Handler :: "'l option"

record 'l consumed_thing =
  ct_InvokeActionHook :: "nat option"
  ct_WritePropertyHook :: "nat option"
  ct_activeObservations :: "string \<rightharpoonup> 'l subscription"
  ct_activeSubscriptions :: "string \<rightharpoonup> 'l subscription"
  ct_TD :: thing_td
  ct_valueStore :: "string \<rightharpoonup> interaction_output"

type_synonym 'l listener_call = "'l \<times> string \<times> interaction_output"

definition SubscriptionTypeEvent :: string where
  "SubscriptionTypeEvent = ''event''"

definition SubscriptionTypeProperty :: string where
  "SubscriptionTypeProperty = ''property''"

section \<open>Operations of the thing\<close>

definition CreateConsumedThing :: "thing_td \<Rightarrow> 'l consumed_thing" where
  "CreateConsumedThing td =
     \<lparr>ct_InvokeActionHook = None, ct_WritePropertyHook = None, ct_activeObservations = Map.empty,
      ct_activeSubscriptions = Map.empty, ct_TD = td, ct_valueStore = Map.empty\<rparr>"

definition GetThingDescription :: "'l consumed_thing \<Rightarrow> thing_td" where
  "GetThingDescription cThing = ct_TD cThing"

definition getValue :: "'l consumed_thing \<Rightarrow> string \<Rightarrow> interaction_output option" where
  "getValue cThing key = ct_valueStore cThing key"

definition putValue :: "string \<Rightarrow> interaction_output \<Rightarrow> 'l consumed_thing \<Rightarrow> 'l consumed_thing" where
  "putValue key value cThing = cThing\<lparr>ct_valueStore := (ct_valueStore cThing)(key \<mapsto> value)\<rparr>"

text \<open>Calling the handler of a subscription, if there is one.\<close>

definition notify :: "'l subscription option \<Rightarrow> string \<Rightarrow> interaction_output \<Rightarrow> 'l listener_call list outcome" where
  "notify found name evData =
     (case found of
        None \<Rightarrow> Ret []
      | Some subscription \<Rightarrow>
          (case sub_Handler subscription of None \<Rightarrow> Panic NilDereference | Some h \<Rightarrow> Ret [(h, name, evData)]))"

definition HandleEvent ::
    "string \<Rightarrow> string \<Rightarrow> 'l consumed_thing \<Rightarrow> ('l consumed_thing \<times> 'l listener_call list) outcome" where
  "HandleEvent eventName message cThing =
     (case GetEvent (ct_TD cThing) eventName of
        None \<Rightarrow> Ret (cThing, [])
      | Some eventAffordance \<Rightarrow>
          let evData = NewInteractionOutputFromJson (Some message) (Some (ea_Data eventAffordance));
              cThing = putValue eventName evData cThing
          in map_outcome (Pair cThing) (notify (ct_activeSubscriptions cThing eventName) eventName evData))"

definition HandlePropertyChange ::
    "string \<Rightarrow> string \<Rightarrow> 'l consumed_thing \<Rightarrow> ('l consumed_thing \<times> 'l listener_call list) outcome" where
  "HandlePropertyChange propName message cThing =
     (case GetProperty (ct_TD cThing) propName of
        None \<Rightarrow> Ret (cThing, [])
      | Some propAffordance \<Rightarrow>
          let evData = NewInteractionOutputFromJson (Some message) (Some (pa_DataSchema propAffordance));
              cThing = putValue propName evData cThing
          in map_outcome (Pair cThing) (notify (ct_activeObservations cThing propName) propName evData))"

definition no_action_error :: "string \<Rightarrow> thing_td \<Rightarrow> error" where
  "no_action_error actionName td =
     ''can'' @ apostrophe @ ''t invoke action '' @ apostrophe @ actionName @ apostrophe @
     ''. Action is not defined in TD '' @ apostrophe @ td_ID td @ apostrophe"

text \<open>\<open>hook b name data\<close> is what the method of binding \<open>b\<close> returns and does.\<close>

definition InvokeAction ::
    "(nat \<Rightarrow> string \<Rightarrow> goval \<Rightarrow> error option \<times> 'e list) \<Rightarrow> string \<Rightarrow> goval \<Rightarrow> 'l consumed_thing \<Rightarrow>
      error option \<times> 'e list" where
  "InvokeAction hook actionName data cThing =
     (case GetAction (ct_TD cThing) actionName of
        None \<Rightarrow> (Some (no_action_error actionName (ct_TD cThing)), [])
      | Some aa \<Rightarrow>
          (case ct_InvokeActionHook cThing of
             None \<Rightarrow> (Some (''Missing hook for action: '' @ actionName), [])
           | Some b \<Rightarrow> hook b actionName data))"

definition ObserveProperty :: "string \<Rightarrow> 'l option \<Rightarrow> 'l consumed_thing \<Rightarrow> error option \<times> 'l consumed_thing" where
  "ObserveProperty name listener cThing =
     (if ct_activeObservations cThing name \<noteq> None then (Some ''NotAllowed'', cThing)
      else if listener = None then (Some ''TypeError'', cThing)
      else
        let sub = \<lparr>sub_SubType = SubscriptionTypeProperty, sub_Name = name, sub_interaction = None, sub_Handler = listener\<rparr>
        in (None, cThing\<lparr>ct_activeObservations := (ct_activeObservations cThing)(name \<mapsto> sub)\<rparr>))"

definition ReadProperty :: "'l consumed_thing \<Rightarrow> string \<Rightarrow> interaction_output option \<times> error option" where
  "ReadProperty cThing name =
     (case getValue cThing name of
        None \<Rightarrow> (None, Some (''Property '' @ name @ '' does not exist on thing '' @ td_ID (ct_TD cThing)))
      | Some value \<Rightarrow> (Some value, None))"

definition ReadMultipleProperties :: "'l consumed_thing \<Rightarrow> string list \<Rightarrow> (string \<rightharpoonup> interaction_output option)" where
  "ReadMultipleProperties cThing names =
     fold (\<lambda>name res. res(name \<mapsto> fst (ReadProperty cThing name))) names Map.empty"

definition property_names :: "thing_td \<Rightarrow> string list" where
  "property_names td = (case td_Properties td of None \<Rightarrow> [] | Some kvs \<Rightarrow> map fst kvs)"

definition ReadAllProperties :: "'l consumed_thing \<Rightarrow> (string \<rightharpoonup> interaction_output option)" where
  "ReadAllProperties cThing =
     fold (\<lambda>name res. res(name \<mapsto> fst (ReadProperty cThing name))) (property_names (ct_TD cThing)) Map.empty"

definition Stop :: "'l consumed_thing \<Rightarrow> 'l consumed_thing" where
  "Stop cThing = cThing\<lparr>ct_activeSubscriptions := Map.empty, ct_activeObservations := Map.empty,
     ct_valueStore := Map.empty\<rparr>"

definition SubscribeEvent :: "string \<Rightarrow> 'l option \<Rightarrow> 'l consumed_thing \<Rightarrow> error option \<times> 'l consumed_thing" where
  "SubscribeEvent eventName handler cThing =
     (if ct_activeSubscriptions cThing eventName \<noteq> None then (Some ''NotAllowed'', cThing)
      else
        let sub = \<lparr>sub_SubType = SubscriptionTypeEvent, sub_Name = eventName,
               sub_interaction = GetEvent (ct_TD cThing) eventName, sub_Handler = handler\<rparr>
        in (None, cThing\<lparr>ct_activeSubscriptions := (ct_activeSubscriptions cThing)(eventName \<mapsto> sub)\<rparr>))"

definition WriteProperty ::
    "(nat \<Rightarrow> string \<Rightarrow> goval \<Rightarrow> error option \<times> 'e list) \<Rightarrow> string \<Rightarrow> goval \<Rightarrow> 'l consumed_thing \<Rightarrow>
      error option \<times> 'e list" where
  "WriteProperty hook propName value cThing =
     (case ct_WritePropertyHook cThing of
        None \<Rightarrow> (Some ''WriteProperty is not supported for ConsumedThing. No hook is installed'', [])
      | Some b \<Rightarrow> hook b propName value)"

text \<open>The entries of the map come in range order.\<close>

fun WriteMultipleProperties ::
    "(nat \<Rightarrow> string \<Rightarrow> goval \<Rightarrow> error option \<times> 'e list) \<Rightarrow> (string \<times> goval) list \<Rightarrow> 'l consumed_thing \<Rightarrow>
      error option \<times> 'e list" where
  "WriteMultipleProperties hook [] cThing = (None, [])"
| "WriteMultipleProperties hook ((propName, value) # properties) cThing =
     (case WriteProperty hook propName value cThing of
        (Some err, es) \<Rightarrow> (Some err, es)
      | (None, es) \<Rightarrow> apsnd (append es) (WriteMultipleProperties hook properties cThing))"

section \<open>The binding\<close>

text \<open>
  The binding points at its thing by a reference and at the TD it was made for. The clients it is given at
  \<open>Start\<close> are those of the factory.
\<close>

record ct_binding =
  cb_td :: thing_td
  cb_cThing :: nat

definition event_name :: "string \<Rightarrow> string option" where
  "event_name topic =
     (let parts = split_on CHR ''/'' topic in if length parts < 4 then None else Some (parts ! 3))"

definition handleEvent ::
    "ct_binding \<Rightarrow> string \<Rightarrow> string \<Rightarrow> 'l consumed_thing \<Rightarrow> ('l consumed_thing \<times> 'l listener_call list) outcome" where
  "handleEvent binding topic message cThing =
     (case event_name topic of
        None \<Rightarrow> Ret (cThing, [])
      | Some eventName \<Rightarrow>
          bind_outcome
            (if table_get (td_Events (cb_td binding)) eventName \<noteq> None
             then HandleEvent eventName message cThing else Ret (cThing, []))
            (\<lambda>(cThing, calls).
               map_outcome (apsnd (append calls))
                 (if table_get (td_Properties (cb_td binding)) eventName \<noteq> None
                  then HandlePropertyChange eventName message cThing else Ret (cThing, []))))"

text \<open>
  The error for an unknown action is stored in a variable that shadows the one returned.
\<close>

definition binding_InvokeAction ::
    "bool \<Rightarrow> error option \<Rightarrow> ct_binding \<Rightarrow> ('h, 'c, 'k) mqtt_client \<Rightarrow> string \<Rightarrow> goval \<Rightarrow>
      error option \<times> ('h, 'c, 'k) paho_call list" where
  "binding_InvokeAction isConnected answer binding mqttClient actionName data =
     (case GetAction (cb_td binding) actionName of
        None \<Rightarrow> (None, [])
      | Some action \<Rightarrow>
          PublishObject isConnected answer (thing_topic TopicInvokeAction (td_ID (cb_td binding)) @ ''/'' @ actionName)
            (to_json data) mqttClient)"

definition binding_WriteProperty ::
    "bool \<Rightarrow> error option \<Rightarrow> ct_binding \<Rightarrow> ('h, 'c, 'k) mqtt_client \<Rightarrow> string \<Rightarrow> goval \<Rightarrow>
      error option \<times> ('h, 'c, 'k) paho_call list" where
  "binding_WriteProperty isConnected answer binding mqttClient propName propValue =
     PublishObject isConnected answer (thing_topic TopicInvokeAction (td_ID (cb_td binding)) @ ''/'' @ propName)
       (to_json propValue) mqttClient"

definition binding_topic :: "ct_binding \<Rightarrow> string" where
  "binding_topic binding = thing_topic TopicEmitEvent (td_ID (cb_td binding)) @ ''/#''"

text \<open>\<open>h\<close> stands for the method value \<open>binding.handleEvent\<close>.\<close>

definition binding_Start ::
    "'h \<Rightarrow> ct_binding \<Rightarrow> ('h, 'c, 'k) mqtt_client \<Rightarrow> ('h, 'c, 'k) mqtt_client \<times> ('h, 'c, 'k) paho_call list" where
  "binding_Start h binding mqttClient = Subscribe (binding_topic binding) h mqttClient"

definition binding_Stop ::
    "ct_binding \<Rightarrow> ('h, 'c, 'k) mqtt_client \<Rightarrow> ('h, 'c, 'k) mqtt_client \<times> ('h, 'c, 'k) paho_call list" where
  "binding_Stop binding mqttClient = Unsubscribe (binding_topic binding) mqttClient"

text \<open>The new binding, and the thing with its hooks installed. \<open>ref\<close> and \<open>bref\<close> are the references of the two.\<close>

definition CreateConsumedThingProtocolBinding ::
    "nat \<Rightarrow> nat \<Rightarrow> 'l consumed_thing \<Rightarrow> ct_binding \<times> 'l consumed_thing" where
  "CreateConsumedThingProtocolBinding ref bref cThing =
     (\<lparr>cb_td = ct_TD cThing, cb_cThing = ref\<rparr>,
      cThing\<lparr>ct_InvokeActionHook := Some bref, ct_WritePropertyHook := Some bref\<rparr>)"

section \<open>One subscriber per name\<close>

text \<open>
  What ObserveProperty and SubscribeEvent have in common: a name takes one subscriber, later ones are refused and change
  nothing. They differ in which listeners they accept.
\<close>

locale single_subscriber =
  fixes subscribe :: "string \<Rightarrow> 'l option \<Rightarrow> 's \<Rightarrow> error option \<times> 's"
    and active :: "'s \<Rightarrow> string \<Rightarrow> 'l option option"
    and accepts :: "'l option \<Rightarrow> bool"
  assumes taken: "active s n \<noteq> None \<Longrightarrow> subscribe n h s = (Some ''NotAllowed'', s)"
    and refused: "active s n = None \<Longrightarrow> \<not> accepts h \<Longrightarrow> \<exists>e. subscribe n h s = (Some e, s)"
    and added: "active s n = None \<Longrightarrow> accepts h \<Longrightarrow> \<exists>s'. subscribe n h s = (None, s') \<and>
        (\<forall>m. active s' m = (if m = n then Some h else active s m))"
begin

lemma subscribe_active:
  "active (snd (subscribe n h s)) m =
     (if m = n \<and> active s n = None \<and> accepts h then Some h else active s m)"
  using taken [of s n h] refused [of s n h] added [of s n h]
  by (cases "active s n = None"; cases "accepts h") auto

lemma subscribe_error: "fst (subscribe n h s) = None \<longleftrightarrow> active s n = None \<and> accepts h"
  using taken [of s n h] refused [of s n h] added [of s n h]
  by (cases "active s n = None"; cases "accepts h") auto

lemma first_wins:
  "active (fold (\<lambda>(n, h) s. snd (subscribe n h s)) reqs s) m =
     (case active s m of
        Some h \<Rightarrow> Some h
      | None \<Rightarrow> map_option snd (find (\<lambda>(n, h). n = m \<and> accepts h) reqs))"
  by (induction reqs arbitrary: s) (auto simp: subscribe_active split: option.splits)

end

definition observer :: "'l consumed_thing \<Rightarrow> string \<Rightarrow> 'l option option" where
  "observer cThing name = map_option sub_Handler (ct_activeObservations cThing name)"

definition subscriber :: "'l consumed_thing \<Rightarrow> string \<Rightarrow> 'l option option" where
  "subscriber cThing name = map_option sub_Handler (ct_activeSubscriptions cThing name)"

interpretation observers: single_subscriber ObserveProperty observer "\<lambda>h. h \<noteq> None"
  by unfold_locales (auto simp: ObserveProperty_def observer_def)

interpretation subscribers: single_subscriber SubscribeEvent subscriber "\<lambda>_. True"
  by unfold_locales (auto simp: SubscribeEvent_def subscriber_def)

section \<open>The value cache\<close>

interpretation value_store: keyed_store getValue "\<lambda>k v c. Ret (putValue k v c)" "\<lambda>_. True"
  by unfold_locales (auto simp: getValue_def putValue_def)

lemma fold_upd: "fold (\<lambda>n res. res(n \<mapsto> f n)) ns m = (\<lambda>n. if n \<in> set ns then Some (f n) else m n)"
  by (induction ns arbitrary: m) (auto simp: fun_eq_iff)

lemma notify_frame: "notify (ct_activeSubscriptions (putValue k v c) n) = notify (ct_activeSubscriptions c n)"
  "notify (ct_activeObservations (putValue k v c) n) = notify (ct_activeObservations c n)"
  "ct_TD (putValue k v c) = ct_TD c"
  by (simp_all add: putValue_def)

text \<open>The value an incoming message becomes, by its name.\<close>

definition event_value :: "thing_td \<Rightarrow> string \<Rightarrow> string \<Rightarrow> interaction_output option" where
  "event_value td name message =
     map_option (\<lambda>ea. NewInteractionOutputFromJson (Some message) (Some (ea_Data ea))) (GetEvent td name)"

definition property_value :: "thing_td \<Rightarrow> string \<Rightarrow> string \<Rightarrow> interaction_output option" where
  "property_value td name message =
     map_option (\<lambda>pa. NewInteractionOutputFromJson (Some message) (Some (pa_DataSchema pa))) (GetProperty td name)"

definition store_value :: "string \<Rightarrow> interaction_output option \<Rightarrow> 'l consumed_thing \<Rightarrow> 'l consumed_thing" where
  "store_value name v c = (case v of None \<Rightarrow> c | Some io \<Rightarrow> putValue name io c)"

definition listener_calls :: "'l option option \<Rightarrow> string \<Rightarrow> interaction_output option \<Rightarrow> 'l listener_call list" where
  "listener_calls h name v = (case (h, v) of (Some (Some l), Some io) \<Rightarrow> [(l, name, io)] | _ \<Rightarrow> [])"

lemma HandleEvent_eq:
  assumes "subscriber c name \<noteq> Some None"
  shows "HandleEvent name message c =
    Ret (store_value name (event_value (ct_TD c) name message) c,
         listener_calls (subscriber c name) name (event_value (ct_TD c) name message))"
  using assms
  by (cases "GetEvent (ct_TD c) name"; cases "ct_activeSubscriptions c name")
     (auto simp: HandleEvent_def event_value_def store_value_def listener_calls_def subscriber_def notify_def notify_frame
        Let_def putValue_def split: option.splits)

lemma HandlePropertyChange_eq:
  assumes "observer c name \<noteq> Some None"
  shows "HandlePropertyChange name message c =
    Ret (store_value name (property_value (ct_TD c) name message) c,
         listener_calls (observer c name) name (property_value (ct_TD c) name message))"
  using assms
  by (cases "GetProperty (ct_TD c) name"; cases "ct_activeObservations c name")
     (auto simp: HandlePropertyChange_def property_value_def store_value_def listener_calls_def observer_def notify_def
        Let_def putValue_def split: option.splits)

lemma event_name_topic:
  assumes "no_slash thingID" and "no_slash name"
  shows "event_name (thing_topic TopicEmitEvent thingID @ ''/'' @ name) = Some name"
proof -
  have "split_on CHR ''/'' (''things/'' @ thingID @ ''/'' @ ''event'' @ ''/'' @ name) = [''things'', thingID, ''event'', name]"
    using split_named_topic [OF assms(1), of "''event''" name] assms(2) split_on_no_sep [of "CHR ''/''" name]
    by (simp add: no_slash_def)
  then show ?thesis by (simp add: event_name_def thing_topics)
qed

lemma unlisted_events: "table_get (td_Events td) n = None \<Longrightarrow> event_value td n m = None"
  by (simp add: event_value_def GetEvent_def)

lemma unlisted_properties: "table_get (td_Properties td) n = None \<Longrightarrow> property_value td n m = None"
  by (simp add: property_value_def GetProperty_def)

lemma store_value_frame [simp]:
  "ct_TD (store_value n v c) = ct_TD c" "observer (store_value n v c) = observer c"
  "subscriber (store_value n v c) = subscriber c"
  "store_value n None c = c" "listener_calls h n None = []"
  by (auto simp: store_value_def putValue_def observer_def subscriber_def listener_calls_def fun_eq_iff split: option.splits)

lemma handleEvent_eq:
  assumes "event_name topic = Some name" and "cb_td binding = ct_TD c"
    and "subscriber c name \<noteq> Some None" and "observer c name \<noteq> Some None"
  shows "handleEvent binding topic message c =
    Ret (store_value name (property_value (ct_TD c) name message) (store_value name (event_value (ct_TD c) name message) c),
         listener_calls (subscriber c name) name (event_value (ct_TD c) name message) @
         listener_calls (observer c name) name (property_value (ct_TD c) name message))"
proof -
  let ?ev = "event_value (ct_TD c) name message"
  have "(if table_get (td_Events (ct_TD c)) name \<noteq> None then HandleEvent name message c else Ret (c, [])) =
      Ret (store_value name ?ev c, listener_calls (subscriber c name) name ?ev)"
    by (simp add: HandleEvent_eq [OF assms(3)] unlisted_events)
  moreover have "(if table_get (td_Properties (ct_TD c)) name \<noteq> None
        then HandlePropertyChange name message (store_value name ?ev c) else Ret (store_value name ?ev c, [])) =
      Ret (store_value name (property_value (ct_TD c) name message) (store_value name ?ev c),
           listener_calls (observer c name) name (property_value (ct_TD c) name message))"
    using HandlePropertyChange_eq [of "store_value name ?ev c" name message] assms(4)
    by (simp add: unlisted_properties)
  ultimately show ?thesis by (simp add: handleEvent_def assms(1,2))
qed

lemma getValue_store:
  "getValue (store_value n v c) k = (if k = n then (case v of None \<Rightarrow> getValue c k | Some io \<Rightarrow> Some io) else getValue c k)"
  by (simp add: store_value_def getValue_def putValue_def split: option.splits)

section \<open>Properties\<close>

text \<open>
  C22: A message on the event topic of the thing updates the cache under the name in the topic, and only there: with the
  value read with the schema of the property of that name, else with that of the event, else not at all. The event subscriber
  and then the property observer of the name are called once each, with the value as read for them.
\<close>

theorem event_message_delivered:
  assumes "no_slash (td_ID (ct_TD cThing))" and "no_slash name" and "cb_td binding = ct_TD cThing"
    and "subscriber cThing name \<noteq> Some None" and "observer cThing name \<noteq> Some None"
  shows "\<exists>cThing' calls.
    handleEvent binding (thing_topic TopicEmitEvent (td_ID (ct_TD cThing)) @ ''/'' @ name) message cThing = Ret (cThing', calls) \<and>
    calls = listener_calls (subscriber cThing name) name (event_value (ct_TD cThing) name message) @
            listener_calls (observer cThing name) name (property_value (ct_TD cThing) name message) \<and>
    (\<forall>k. fst (ReadProperty cThing' k) =
       (if k \<noteq> name then fst (ReadProperty cThing k)
        else case property_value (ct_TD cThing) name message of
            Some io \<Rightarrow> Some io
          | None \<Rightarrow> (case event_value (ct_TD cThing) name message of
                Some io \<Rightarrow> Some io | None \<Rightarrow> fst (ReadProperty cThing name))))"
proof -
  have rd: "fst (ReadProperty c k) = getValue c k" for c :: "'a consumed_thing" and k
    by (simp add: ReadProperty_def split: option.splits)
  show ?thesis
    unfolding handleEvent_eq [OF event_name_topic [OF assms(1,2)] assms(3,4,5)] rd
    by (auto simp: getValue_store split: option.splits)
qed

definition lamp :: "nat consumed_thing" where
  "lamp = snd (ObserveProperty ''on'' (Some 1) (CreateConsumedThing lamp_td))"

theorem event_message_delivered_witness:
  "\<exists>cThing' calls. handleEvent \<lparr>cb_td = lamp_td, cb_cThing = 0\<rparr>
      (thing_topic TopicEmitEvent (td_ID (ct_TD lamp)) @ ''/'' @ ''on'') ''true'' lamp = Ret (cThing', calls) \<and>
    map (\<lambda>(l, n, io). (l, n, io_Value io)) calls = [(1, ''on'', GBool True)]"
proof -
  have o: "observer lamp = (\<lambda>m. if m = ''on'' then Some (Some 1) else None)"
    by (simp add: fun_eq_iff lamp_def observer_def ObserveProperty_def CreateConsumedThing_def)
  have s: "subscriber lamp = (\<lambda>_. None)" "ct_TD lamp = lamp_td"
    by (simp_all add: fun_eq_iff lamp_def subscriber_def ObserveProperty_def CreateConsumedThing_def)
  have v: "property_value lamp_td ''on'' ''true'' =
      Some (NewInteractionOutputFromJson (Some ''true'') (Some (schema_lit ''On'' ''boolean'' True)))"
    "event_value lamp_td ''on'' ''true'' = None"
    by (simp_all add: property_value_def event_value_def lamp_td_def GetProperty_def GetEvent_def table_get_def CreateTD_def)
  have "json_unmarshal ''true'' = Some (GBool True)" by code_simp
  then have "io_Value (NewInteractionOutputFromJson (Some ''true'') (Some (schema_lit ''On'' ''boolean'' True))) = GBool True"
    by (simp add: NewInteractionOutputFromJson_def schema_lit_def WoTDataTypeObject_def bytes_def)
  moreover have "no_slash (td_ID (ct_TD lamp))"
    by (simp add: s no_slash_def lamp_td_def CreateTD_def)
  ultimately show ?thesis
    using event_message_delivered [of lamp "''on''" "\<lparr>cb_td = lamp_td, cb_cThing = 0\<rparr>" "''true''"]
    by (auto simp: o s v listener_calls_def no_slash_def)
qed

text \<open>
  Of all attempts to observe a property or to subscribe to an event, the first that is accepted stays; an observer must
  not be nil, a subscriber may be.
\<close>

theorem first_subscriber_wins:
  "observer (fold (\<lambda>(n, h) c. snd (ObserveProperty n h c)) reqs (CreateConsumedThing td)) name =
     map_option snd (find (\<lambda>(n, h). n = name \<and> h \<noteq> None) reqs) \<and>
   subscriber (fold (\<lambda>(n, h) c. snd (SubscribeEvent n h c)) reqs (CreateConsumedThing td)) name =
     map_option snd (find (\<lambda>(n, h). n = name) reqs)"
  using observers.first_wins [of reqs "CreateConsumedThing td" name] subscribers.first_wins [of reqs "CreateConsumedThing td" name]
  by (simp add: observer_def subscriber_def CreateConsumedThing_def)

text \<open>
  A nil handler given to SubscribeEvent is accepted and blocks the name; the next event of that name panics.
\<close>

theorem nil_event_handler_panics:
  assumes "subscriber cThing name = None" and "GetEvent (ct_TD cThing) name = Some ea"
  shows "fst (SubscribeEvent name None cThing) = None \<and>
    fst (SubscribeEvent name (Some h) (snd (SubscribeEvent name None cThing))) = Some ''NotAllowed'' \<and>
    HandleEvent name message (snd (SubscribeEvent name None cThing)) = Panic NilDereference"
  using assms
  by (simp add: SubscribeEvent_def subscriber_def HandleEvent_def Let_def notify_def putValue_def)

definition bell_td :: thing_td where
  "bell_td = (CreateTD ''urn:bell'' ''Bell'' [] [] [])
     \<lparr>td_Events := Some [(''ring'', Some \<lparr>ia_AtType = [], ia_Title = ''Ring'', ia_Titles = [], ia_Description = [],
        ia_Descriptions = [], ia_Forms = None, ia_UriVariables = [], ea_Data = schema_lit ''Ring'' ''boolean'' True\<rparr>)]\<rparr>"

theorem nil_event_handler_panics_witness:
  "HandleEvent ''ring'' ''true'' (snd (SubscribeEvent ''ring'' None (CreateConsumedThing bell_td :: nat consumed_thing))) =
     Panic NilDereference"
  using nil_event_handler_panics [of "CreateConsumedThing bell_td :: nat consumed_thing" "''ring''" _ 0 "''true''"]
  by (simp add: subscriber_def CreateConsumedThing_def bell_td_def GetEvent_def table_get_def CreateTD_def)

text \<open>
  InvokeAction with the hook of the binding: an unknown action is an error and nothing is sent; a known one is published once,
  on the action topic of the thing and under the name of the action, with a payload that decodes to the data. The method of the
  binding itself returns nil for an unknown action.
\<close>

theorem invoke_action_published:
  fixes answer :: "error option"
  assumes "ct_InvokeActionHook cThing = Some b" and "cb_td binding = ct_TD cThing"
    and "mc_pahoClient client \<noteq> None" and "goval_ok data" and "mc_jsonIndent client = []"
    and "no_slash (td_ID (ct_TD cThing))" and "no_slash actionName"
  defines "res \<equiv> InvokeAction (\<lambda>_. binding_InvokeAction True answer binding client) actionName data cThing"
  shows "(GetAction (ct_TD cThing) actionName = None \<longrightarrow>
      res = (Some (no_action_error actionName (ct_TD cThing)), []) \<and>
      binding_InvokeAction True answer binding client actionName data = (None, [])) \<and>
    (GetAction (ct_TD cThing) actionName \<noteq> None \<longrightarrow>
      (\<exists>topic payload. res = (answer, [PahoPublish topic (mc_pubQos client) False payload]) \<and>
         SplitTopic topic = (td_ID (ct_TD cThing), TopicTypeAction, actionName) \<and>
         json_unmarshal payload = Some (canon data)))"
proof -
  let ?topic = "thing_topic TopicInvokeAction (td_ID (ct_TD cThing)) @ ''/'' @ actionName"
  have "SplitTopic ?topic = (td_ID (ct_TD cThing), ''action'', actionName)"
    using split_named_topic [OF assms(6), of "''action''" actionName] assms(7) split_on_no_sep [of "CHR ''/''" actionName]
    by (simp add: SplitTopic_def thing_topics no_slash_def)
  moreover have "json_unmarshal (object_text (to_json data) client) = Some (canon data)"
    using compact_codec.reads_back [OF assms(4)] assms(5) by (simp add: object_text_def json_marshal_def)
  ultimately show ?thesis
    using assms(1-3)
    by (auto simp: res_def InvokeAction_def binding_InvokeAction_def PublishObject_def Publish_def TopicTypeAction_def)
qed

definition dimmer_td :: thing_td where
  "dimmer_td = (CreateTD ''urn:dimmer'' ''Dimmer'' [] [] [])
     \<lparr>td_Actions := Some [(''dim'', Some \<lparr>ia_AtType = [], ia_Title = ''Dim'', ia_Titles = [], ia_Description = [],
        ia_Descriptions = [], ia_Forms = None, ia_UriVariables = [], aa_Input = schema_lit ''Level'' ''integer'' True,
        aa_Output = schema_lit [] [] False, aa_Safe = False, aa_Idempotent = False\<rparr>)]\<rparr>"

definition dimmer :: "nat consumed_thing" where
  "dimmer = snd (CreateConsumedThingProtocolBinding 0 1 (CreateConsumedThing dimmer_td))"

theorem invoke_action_published_witness:
  "\<exists>topic payload. InvokeAction (\<lambda>_. binding_InvokeAction True None \<lparr>cb_td = dimmer_td, cb_cThing = 0\<rparr> online_client)
      ''dim'' (GInt 42) dimmer = (None, [PahoPublish topic 1 False payload]) \<and>
    SplitTopic topic = (''urn:dimmer'', TopicTypeAction, ''dim'') \<and> json_unmarshal payload = Some (GFloat (Dec 42 0))"
proof -
  have d: "ct_InvokeActionHook dimmer = Some 1" "ct_TD dimmer = dimmer_td" "td_ID dimmer_td = ''urn:dimmer''"
    "GetAction dimmer_td ''dim'' \<noteq> None"
    by (simp_all add: dimmer_def CreateConsumedThingProtocolBinding_def CreateConsumedThing_def dimmer_td_def CreateTD_def
        GetAction_def table_get_def)
  have c: "mc_pahoClient online_client \<noteq> None" "mc_jsonIndent online_client = []" "mc_pubQos online_client = 1"
    by (simp_all add: online_client_def NewMqttClient_def)
  have "norm_dec 42 0 = Dec 42 0" by (simp add: norm_dec.simps)
  with invoke_action_published [of dimmer 1 "\<lparr>cb_td = dimmer_td, cb_cThing = 0\<rparr>" online_client "GInt 42" "''dim''" None]
  show ?thesis by (simp add: d c no_slash_def)
qed

text \<open>
  WriteMultipleProperties sends its requests in order up to and with the first that fails, and returns its error; nil means
  that all of them were sent.
\<close>

theorem write_multiple_stops:
  assumes "ct_WritePropertyHook cThing = Some b"
  shows "WriteMultipleProperties hook (sent @ (name, value) # rest) cThing =
      (if \<forall>(n, v) \<in> set sent. fst (hook b n v) = None then
         apsnd (append (concat (map (\<lambda>(n, v). snd (hook b n v)) sent)))
           (if fst (hook b name value) \<noteq> None then hook b name value
            else apsnd (append (snd (hook b name value))) (WriteMultipleProperties hook rest cThing))
       else WriteMultipleProperties hook sent cThing)"
proof (induction sent)
  case Nil
  then show ?case using assms
    by (cases "hook b name value"; cases "WriteMultipleProperties hook rest cThing")
       (auto simp: WriteProperty_def split: option.splits)
next
  case (Cons nv ds)
  obtain n v where nv: "nv = (n, v)" by (cases nv)
  obtain e es where h: "hook b n v = (e, es)" by (cases "hook b n v")
  show ?case
  proof (cases e)
    case None
    with Cons h nv assms show ?thesis
      by (cases "WriteMultipleProperties hook ds cThing") (auto simp: WriteProperty_def apsnd_def map_prod_def split: prod.splits)
  next
    case (Some err)
    with h nv assms show ?thesis by (simp add: WriteProperty_def)
  qed
qed

theorem write_multiple_stops_witness:
  "WriteMultipleProperties (\<lambda>b n v. if n = ''b'' then (Some ''down'', []) else (None, [(n, v)]))
     [(''a'', GInt 1), (''b'', GInt 2), (''c'', GInt 3)] dimmer = (Some ''down'', [(''a'', GInt 1)])"
proof -
  have "ct_WritePropertyHook dimmer = Some 1"
    by (simp add: dimmer_def CreateConsumedThingProtocolBinding_def)
  from write_multiple_stops [OF this, of "\<lambda>b n v. if n = ''b'' then (Some ''down'', []) else (None, [(n, v)])"
      "[(''a'', GInt 1)]" "''b''" "GInt 2" "[(''c'', GInt 3)]"]
  show ?thesis by simp
qed

text \<open>
  ReadAllProperties has an entry for exactly the properties of the TD, nil for those no value was received for;
  ReadProperty answers such a property with an error, and an event value as if it were a property. After Stop nothing is left.
\<close>

theorem read_all_properties:
  "(ReadAllProperties cThing name =
      (if name \<in> set (property_names (ct_TD cThing)) then Some (getValue cThing name) else None)) \<and>
   (snd (ReadProperty cThing name) = None) = (getValue cThing name \<noteq> None) \<and>
   ReadMultipleProperties cThing names name = (if name \<in> set names then Some (getValue cThing name) else None) \<and>
   getValue (Stop cThing) name = None \<and> observer (Stop cThing) name = None \<and> subscriber (Stop cThing) name = None"
proof -
  have "fst (ReadProperty cThing n) = getValue cThing n" for n
    by (simp add: ReadProperty_def split: option.splits)
  then show ?thesis
    by (auto simp: ReadAllProperties_def ReadMultipleProperties_def fold_upd ReadProperty_def Stop_def getValue_def
        observer_def subscriber_def split: option.splits)
qed

end
