(* ===== verification/TLSClient.thy ===== *)
theory TLSClient
  imports GoValue
begin

text \<open>
  The HTTPS client (\<open>pkg/tlsclient/TLSClient.go\<close>): connecting with no authentication, basic
  authentication, a client certificate or a JSON Web Token, sending requests, and refreshing the token.

  The network and the parser of tokens are arguments, collected in a record. Transports are shared objects: an http client holds the
  reference of its transport, and a store has the TLS configuration behind each reference. \<open>http.DefaultTransport\<close> of the
  standard library is one of the references. A nil http client panics where the code calls it. Certificates are type parameters: \<open>'c\<close> of a CA, \<open>'k\<close> of a client.
\<close>

section \<open>Data\<close>

record ('c, 'k) tls_config =
  cfg_rootCAs :: "'c list"
  cfg_certificates :: "'k list"
  cfg_insecureSkipVerify :: bool

text \<open>The TLS configuration of every transport, by its reference; a transport has none until it is given one.\<close>

type_synonym ('c, 'k) transports = "nat \<Rightarrow> ('c, 'k) tls_config option"

definition DefaultTransport :: nat where
  "DefaultTransport = 0"

record http_client =
  hc_Transport :: nat
  hc_hasJar :: bool
  hc_timeout :: int

record ('c, 'k) tls_client =
  tc_hostPort :: string
  tc_caCert :: "'c option"
  tc_caCertPool :: "'c list"
  tc_httpClient :: "http_client option"
  tc_timeout :: int
  tc_checkServerCert :: bool
  tc_clientCert :: "'k option"
  tc_userID :: string
  tc_basicSecret :: string
  tc_jwtAccessToken :: string

record jwt_auth_response =
  jr_AccessToken :: string
  jr_RefreshToken :: string
  jr_RefreshURL :: string

datatype authorization = NoAuthorization | BasicAuthorization string string | HeaderAuthorization string

record http_request =
  rq_method :: string
  rq_url :: string
  rq_authorization :: authorization
  rq_body :: string

record http_response =
  rs_StatusCode :: int
  rs_Status :: string
  rs_Body :: string
  rs_readError :: "error option"

datatype token_state = TokenUnparsable | TokenInvalid | TokenValid

text \<open>
  The environment of a call: whether a request can be made for a URL, what the server answers, and what the JWT library
  says of a token.
\<close>

record http_env =
  he_newRequest :: "string \<Rightarrow> string \<Rightarrow> error option"
  he_do :: "http_request \<Rightarrow> error + http_response"
  he_token :: "string \<Rightarrow> token_state"

text \<open>The message argument of a request.\<close>

datatype message = MsgNil | MsgString string | MsgBytes string | MsgObject json

type_synonym body_result = "string option \<times> error option"

definition DefaultJWTLoginPath :: string where
  "DefaultJWTLoginPath = ''/auth/login''"

definition DefaultJWTRefreshPath :: string where
  "DefaultJWTRefreshPath = ''/auth/refresh''"

section \<open>Decoding a struct of strings\<close>

text \<open>
  \<open>encoding/json\<close> matches the names of members without regard to case; the Kelvin sign and the long s
  count as k and s.
\<close>

definition fold_special :: "string \<Rightarrow> (char \<times> string) option" where
  "fold_special s =
     (case strip_prefix [CHR 0xC5, CHR 0xBF] s of
        Some r \<Rightarrow> Some (CHR ''s'', r)
      | None \<Rightarrow> map_option (Pair (CHR ''k'')) (strip_prefix [CHR 0xE2, CHR 0x84, CHR 0xAA] s))"

lemma fold_special_shorter: "fold_special s = Some (c, r) \<Longrightarrow> length r < length s"
  by (auto simp: fold_special_def strip_prefix_Some_iff split: option.splits)

function fold_key :: "string \<Rightarrow> string" where
  "fold_key [] = []"
| "fold_key (c # s) =
     (case fold_special (c # s) of
        Some (l, r) \<Rightarrow> l # fold_key r
      | None \<Rightarrow> lower_ascii c # fold_key s)"
  by pat_completeness auto
termination
  by (relation "measure length") (auto dest!: fold_special_shorter)

declare fold_key.simps [simp del]

text \<open>The value a string field ends up with, and whether a member of another type was met.\<close>

fun decode_member :: "string \<Rightarrow> string \<times> json \<Rightarrow> string \<times> bool \<Rightarrow> string \<times> bool" where
  "decode_member name (k, v) (cur, ok) =
     (if fold_key k \<noteq> fold_key name then (cur, ok)
      else case v of JStr s \<Rightarrow> (s, ok) | JNull \<Rightarrow> (cur, ok) | _ \<Rightarrow> (cur, False))"

definition decode_string_field :: "string \<Rightarrow> (string \<times> json) list \<Rightarrow> string \<times> bool" where
  "decode_string_field name kvs = fold (decode_member name) kvs ([], True)"

definition decode_tokens :: "string \<Rightarrow> jwt_auth_response \<times> error option" where
  "decode_tokens text =
     (let none = \<lparr>jr_AccessToken = [], jr_RefreshToken = [], jr_RefreshURL = []\<rparr> in
      case json_parse text of
        Some (JObj kvs) \<Rightarrow>
          (case (decode_string_field ''accessToken'' kvs, decode_string_field ''refreshToken'' kvs,
                 decode_string_field ''refreshURL'' kvs) of
             ((a, ok1), (r, ok2), (u, ok3)) \<Rightarrow>
               (\<lparr>jr_AccessToken = a, jr_RefreshToken = r, jr_RefreshURL = u\<rparr>,
                if ok1 \<and> ok2 \<and> ok3 then None else Some json_error))
      | Some JNull \<Rightarrow> (none, None)
      | _ \<Rightarrow> (none, Some json_error))"

section \<open>Connecting\<close>

definition NewTLSClient :: "string \<Rightarrow> 'c option \<Rightarrow> ('c, 'k) tls_client" where
  "NewTLSClient hostPort caCert =
     \<lparr>tc_hostPort = hostPort, tc_caCert = caCert, tc_caCertPool = (case caCert of None \<Rightarrow> [] | Some c \<Rightarrow> [c]),
      tc_httpClient = None, tc_timeout = 10, tc_checkServerCert = (caCert \<noteq> None), tc_clientCert = None,
      tc_userID = [], tc_basicSecret = [], tc_jwtAccessToken = []\<rparr>"

text \<open>The connect operations take and return the store of transports.\<close>

definition tls_connect ::
    "('c, 'k) tls_client \<Rightarrow> ('c, 'k) transports \<Rightarrow> http_client \<times> ('c, 'k) transports" where
  "tls_connect cl ts =
     (let tlsConfig = \<lparr>cfg_rootCAs = tc_caCertPool cl, cfg_certificates = [], cfg_insecureSkipVerify = \<not> tc_checkServerCert cl\<rparr>;
          tlsTransport = DefaultTransport;
          ts = ts(tlsTransport := Some tlsConfig)
      in (\<lparr>hc_Transport = tlsTransport, hc_hasJar = True, hc_timeout = tc_timeout cl\<rparr>, ts))"

definition ConnectNoAuth ::
    "('c, 'k) tls_client \<Rightarrow> ('c, 'k) transports \<Rightarrow> ('c, 'k) tls_client \<times> ('c, 'k) transports" where
  "ConnectNoAuth cl ts = (case tls_connect cl ts of (hc, ts) \<Rightarrow> (cl\<lparr>tc_httpClient := Some hc\<rparr>, ts))"

definition ConnectWithBasicAuth ::
    "string \<Rightarrow> string \<Rightarrow> ('c, 'k) tls_client \<Rightarrow> ('c, 'k) transports \<Rightarrow> ('c, 'k) tls_client \<times> ('c, 'k) transports" where
  "ConnectWithBasicAuth userID passwd cl ts =
     (let cl = cl\<lparr>tc_userID := userID, tc_basicSecret := passwd\<rparr>
      in case tls_connect cl ts of (hc, ts) \<Rightarrow> (cl\<lparr>tc_httpClient := Some hc\<rparr>, ts))"

definition ConnectWithJwtAccessToken ::
    "string \<Rightarrow> string \<Rightarrow> ('c, 'k) tls_client \<Rightarrow> ('c, 'k) transports \<Rightarrow> ('c, 'k) tls_client \<times> ('c, 'k) transports" where
  "ConnectWithJwtAccessToken loginID accessToken cl ts =
     (let cl = cl\<lparr>tc_userID := loginID, tc_jwtAccessToken := accessToken\<rparr>
      in case tls_connect cl ts of (hc, ts) \<Rightarrow> (cl\<lparr>tc_httpClient := Some hc\<rparr>, ts))"

text \<open>\<open>verify k\<close> is the error of parsing the certificate and verifying it against the CA.\<close>

definition ConnectWithClientCert ::
    "('k \<Rightarrow> error option) \<Rightarrow> 'k option \<Rightarrow> ('c, 'k) tls_client \<Rightarrow> ('c, 'k) transports \<Rightarrow>
      error option \<times> ('c, 'k) tls_client \<times> ('c, 'k) transports" where
  "ConnectWithClientCert verify clientCert cl ts =
     (case clientCert of
        None \<Rightarrow> (Some ''TLSClient.ConnectWithClientCert, No client key/certificate provided'', cl, ts)
      | Some cert \<Rightarrow>
          (case (if tc_caCert cl \<noteq> None then verify cert else None) of
             Some err \<Rightarrow> (Some err, cl, ts)
           | None \<Rightarrow>
               let tlsConfig = \<lparr>cfg_rootCAs = tc_caCertPool cl, cfg_certificates = [cert],
                     cfg_insecureSkipVerify = \<not> tc_checkServerCert cl\<rparr>;
                   tlsTransport = DefaultTransport
               in (None,
                   cl\<lparr>tc_clientCert := Some cert,
                      tc_httpClient := Some \<lparr>hc_Transport = tlsTransport, hc_hasJar = False, hc_timeout = tc_timeout cl\<rparr>\<rparr>,
                   ts(tlsTransport := Some tlsConfig))))"

definition Certificate :: "('c, 'k) tls_client \<Rightarrow> 'k option" where
  "Certificate cl = tc_clientCert cl"

definition Close :: "('c, 'k) tls_client \<Rightarrow> ('c, 'k) tls_client" where
  "Close cl = cl\<lparr>tc_httpClient := None\<rparr>"

section \<open>Tokens\<close>

text \<open>Both of the methods return the requests they sent, in order.\<close>

definition RefreshJWTTokens ::
    "http_env \<Rightarrow> string \<Rightarrow> ('c, 'k) tls_client \<Rightarrow>
      (jwt_auth_response option \<times> error option \<times> ('c, 'k) tls_client \<times> http_request list) outcome" where
  "RefreshJWTTokens env refreshURL cl =
     (let refreshURL = (if refreshURL = [] then ''https://'' @ tc_hostPort cl @ DefaultJWTRefreshPath else refreshURL) in
      case he_newRequest env ''POST'' refreshURL of
        Some err \<Rightarrow> Ret (None, Some err, cl, [])
      | None \<Rightarrow>
          if tc_httpClient cl = None then Panic NilDereference
          else
            let req = \<lparr>rq_method = ''POST'', rq_url = refreshURL, rq_authorization = NoAuthorization, rq_body = []\<rparr> in
            (case he_do env req of
               Inl err \<Rightarrow> Ret (None, Some err, cl, [req])
             | Inr resp \<Rightarrow>
                 if 400 \<le> rs_StatusCode resp then Ret (None, None, cl, [req])
                 else
                   (case rs_readError resp of
                      Some err \<Rightarrow> Ret (None, Some err, cl, [req])
                    | None \<Rightarrow>
                        (case decode_tokens (rs_Body resp) of
                           (jwtTokens, err) \<Rightarrow>
                             Ret (Some jwtTokens, err, cl\<lparr>tc_jwtAccessToken := jr_AccessToken jwtTokens\<rparr>, [req])))))"

definition RefreshJWTTokenIfExpired ::
    "http_env \<Rightarrow> ('c, 'k) tls_client \<Rightarrow> (error option \<times> ('c, 'k) tls_client \<times> http_request list) outcome" where
  "RefreshJWTTokenIfExpired env cl =
     (let refresh = map_outcome (\<lambda>(_, err, cl, reqs). (err, cl, reqs)) (RefreshJWTTokens env [] cl) in
      if tc_jwtAccessToken cl \<noteq> [] then
        (case he_token env (tc_jwtAccessToken cl) of
           TokenUnparsable \<Rightarrow>
             Ret (Some ''RefreshJWTTokenIfExpired: Parse error on access token string. Refresh failed'', cl, [])
         | TokenValid \<Rightarrow> Ret (None, cl, [])
         | TokenInvalid \<Rightarrow> refresh)
      else refresh)"

section \<open>Requests\<close>

definition message_body :: "message \<Rightarrow> string" where
  "message_body msg =
     (case msg of MsgNil \<Rightarrow> [] | MsgString s \<Rightarrow> s | MsgBytes b \<Rightarrow> b | MsgObject j \<Rightarrow> json_text j)"

definition status_error :: "http_response \<Rightarrow> error" where
  "status_error resp =
     (if rs_Status resp = []
      then show_int (rs_StatusCode resp) @ '' (): '' @ rs_Body resp
      else rs_Status resp @ '': '' @ rs_Body resp)"

text \<open>Sending the request, once it is authorized.\<close>

definition send_request :: "http_env \<Rightarrow> http_request \<Rightarrow> body_result" where
  "send_request env req =
     (case he_do env req of
        Inl err \<Rightarrow> (None, Some err)
      | Inr resp \<Rightarrow>
          (case (if 400 \<le> rs_StatusCode resp then Some (status_error resp) else rs_readError resp) of
             Some err \<Rightarrow> (None, Some err)
           | None \<Rightarrow> (Some (rs_Body resp), None)))"

definition Invoke ::
    "http_env \<Rightarrow> string \<Rightarrow> string \<Rightarrow> message \<Rightarrow> ('c, 'k) tls_client \<Rightarrow>
      (body_result \<times> ('c, 'k) tls_client \<times> http_request list) outcome" where
  "Invoke env method url msg cl =
     (if tc_httpClient cl = None then Ret ((None, Some ''error on Invoke: client is not started''), cl, [])
      else
        case he_newRequest env method url of
          Some err \<Rightarrow> Ret ((None, Some err), cl, [])
        | None \<Rightarrow>
            let req = (\<lambda>auth. \<lparr>rq_method = method, rq_url = url, rq_authorization = auth, rq_body = message_body msg\<rparr>) in
            if tc_userID cl \<noteq> [] \<and> tc_basicSecret cl \<noteq> [] then
              let r = req (BasicAuthorization (tc_userID cl) (tc_basicSecret cl)) in Ret (send_request env r, cl, [r])
            else if tc_jwtAccessToken cl \<noteq> [] then
              bind_outcome (RefreshJWTTokenIfExpired env cl) (\<lambda>(err, cl, reqs).
                case err of
                  Some e \<Rightarrow> Ret ((None, Some e), cl, reqs)
                | None \<Rightarrow>
                    let r = req (HeaderAuthorization (''bearer '' @ tc_jwtAccessToken cl))
                    in Ret (send_request env r, cl, reqs @ [r]))
            else let r = req NoAuthorization in Ret (send_request env r, cl, [r]))"

definition path_url :: "('c, 'k) tls_client \<Rightarrow> string \<Rightarrow> string" where
  "path_url cl path = ''https://'' @ tc_hostPort cl @ path"

definition Get :: "http_env \<Rightarrow> string \<Rightarrow> ('c, 'k) tls_client \<Rightarrow> (body_result \<times> ('c, 'k) tls_client \<times> http_request list) outcome" where
  "Get env path cl = Invoke env ''GET'' (path_url cl path) MsgNil cl"

definition Post :: "http_env \<Rightarrow> string \<Rightarrow> message \<Rightarrow> ('c, 'k) tls_client \<Rightarrow> (body_result \<times> ('c, 'k) tls_client \<times> http_request list) outcome" where
  "Post env path msg cl = Invoke env ''POST'' (path_url cl path) msg cl"

definition Put :: "http_env \<Rightarrow> string \<Rightarrow> message \<Rightarrow> ('c, 'k) tls_client \<Rightarrow> (body_result \<times> ('c, 'k) tls_client \<times> http_request list) outcome" where
  "Put env path msg cl = Invoke env ''PUT'' (path_url cl path) msg cl"

definition Patch :: "http_env \<Rightarrow> string \<Rightarrow> message \<Rightarrow> ('c, 'k) tls_client \<Rightarrow> (body_result \<times> ('c, 'k) tls_client \<times> http_request list) outcome" where
  "Patch env path msg cl = Invoke env ''PATCH'' (path_url cl path) msg cl"

definition Delete :: "http_env \<Rightarrow> string \<Rightarrow> message \<Rightarrow> ('c, 'k) tls_client \<Rightarrow> (body_result \<times> ('c, 'k) tls_client \<times> http_request list) outcome" where
  "Delete env path msg cl = Invoke env ''DELETE'' (path_url cl path) msg cl"

text \<open>The login message has three members, in the order of the struct.\<close>

definition login_json :: "string \<Rightarrow> string \<Rightarrow> json" where
  "login_json loginID secret =
     JObj [(''login'', JStr loginID), (''password'', JStr secret), (''rememberMe'', JBool False)]"

text \<open>What is made of the answer: the token and the error, and the client with the token.\<close>

definition login_response ::
    "string \<Rightarrow> body_result \<Rightarrow> ('c, 'k) tls_client \<Rightarrow> string \<times> error option \<times> ('c, 'k) tls_client" where
  "login_response loginURL result cl =
     (case result of (resp, err2) \<Rightarrow>
        case err2 of
          Some e \<Rightarrow> ([], Some (''ConnectWithLoginID: JWT login to '' @ loginURL @ '' failed. '' @ e), cl)
        | None \<Rightarrow>
            (case decode_tokens (case resp of None \<Rightarrow> [] | Some b \<Rightarrow> b) of
               (jwtResp, Some e) \<Rightarrow>
                 ([], Some (''ConnectWithLoginID: JWT login to '' @ loginURL @ '' has unexpected response message: '' @ e), cl)
             | (jwtResp, None) \<Rightarrow>
                 (jr_AccessToken jwtResp, None, cl\<lparr>tc_jwtAccessToken := jr_AccessToken jwtResp\<rparr>)))"

definition ConnectWithJWTLogin ::
    "http_env \<Rightarrow> string \<Rightarrow> string \<Rightarrow> string \<Rightarrow> ('c, 'k) tls_client \<Rightarrow> ('c, 'k) transports \<Rightarrow>
      (string \<times> error option \<times> ('c, 'k) tls_client \<times> ('c, 'k) transports \<times> http_request list) outcome" where
  "ConnectWithJWTLogin env loginID secret authLoginURL cl ts =
     (let cl = cl\<lparr>tc_userID := loginID\<rparr>;
          loginURL = (if authLoginURL \<noteq> [] then authLoginURL else ''https://'' @ tc_hostPort cl @ DefaultJWTLoginPath) in
      case tls_connect cl ts of (hc, ts) \<Rightarrow>
        map_outcome
          (\<lambda>(result, cl, reqs). case login_response loginURL result cl of (token, err, cl) \<Rightarrow> (token, err, cl, ts, reqs))
          (Invoke env ''POST'' loginURL (MsgObject (login_json loginID secret)) (cl\<lparr>tc_httpClient := Some hc\<rparr>)))"

section \<open>The clients of a process\<close>

text \<open>The clients of a process and its transports, and a call of a method of a client.\<close>

record ('c, 'k) tls_process =
  tp_clients :: "nat \<rightharpoonup> ('c, 'k) tls_client"
  tp_transports :: "('c, 'k) transports"

datatype 'k tls_call =
    CallNoAuth
  | CallBasicAuth string string
  | CallClientCert "'k option"
  | CallAccessToken string string
  | CallLogin http_env string string string
  | CallRefresh http_env string
  | CallInvoke http_env string string message
  | CallClose

text \<open>\<open>verify\<close> takes the pool of CA certificates of the client.\<close>

fun call_client ::
    "('c list \<Rightarrow> 'k \<Rightarrow> error option) \<Rightarrow> 'k tls_call \<Rightarrow> ('c, 'k) tls_client \<Rightarrow> ('c, 'k) transports \<Rightarrow>
      (('c, 'k) tls_client \<times> ('c, 'k) transports) outcome" where
  "call_client verify CallNoAuth cl ts = Ret (ConnectNoAuth cl ts)"
| "call_client verify (CallBasicAuth u pw) cl ts = Ret (ConnectWithBasicAuth u pw cl ts)"
| "call_client verify (CallClientCert cert) cl ts = Ret (snd (ConnectWithClientCert (verify (tc_caCertPool cl)) cert cl ts))"
| "call_client verify (CallAccessToken u token) cl ts = Ret (ConnectWithJwtAccessToken u token cl ts)"
| "call_client verify (CallLogin env u pw url) cl ts =
     map_outcome (\<lambda>(token, err, cl, ts, reqs). (cl, ts)) (ConnectWithJWTLogin env u pw url cl ts)"
| "call_client verify (CallRefresh env url) cl ts = map_outcome (\<lambda>(tokens, err, cl, reqs). (cl, ts)) (RefreshJWTTokens env url cl)"
| "call_client verify (CallInvoke env m url msg) cl ts = map_outcome (\<lambda>(body, cl, reqs). (cl, ts)) (Invoke env m url msg cl)"
| "call_client verify CallClose cl ts = Ret (Close cl, ts)"

fun process_calls ::
    "('c list \<Rightarrow> 'k \<Rightarrow> error option) \<Rightarrow> (nat \<times> 'k tls_call) list \<Rightarrow> ('c, 'k) tls_process \<Rightarrow> ('c, 'k) tls_process outcome" where
  "process_calls verify [] p = Ret p"
| "process_calls verify ((i, call) # calls) p =
     (case tp_clients p i of
        None \<Rightarrow> Panic NilDereference
      | Some cl \<Rightarrow>
          bind_outcome (call_client verify call cl (tp_transports p)) (\<lambda>(cl, ts).
            process_calls verify calls \<lparr>tp_clients = (tp_clients p)(i \<mapsto> cl), tp_transports = ts\<rparr>))"

text \<open>A process whose clients were made with a host and port and perhaps a CA certificate; no transport has a configuration yet.\<close>

definition new_process :: "(nat \<rightharpoonup> string \<times> 'c option) \<Rightarrow> ('c, 'k) tls_process" where
  "new_process made =
     \<lparr>tp_clients = (\<lambda>i. map_option (\<lambda>(hostPort, ca). NewTLSClient hostPort ca) (made i)), tp_transports = (\<lambda>_. None)\<rparr>"

text \<open>A request goes out with the configuration of the transport of the client's http client; without an http client there is no request.\<close>

definition used_config :: "('c, 'k) tls_process \<Rightarrow> nat \<Rightarrow> ('c, 'k) tls_config option" where
  "used_config p i =
     (case tp_clients p i of
        None \<Rightarrow> None
      | Some cl \<Rightarrow> (case tc_httpClient cl of None \<Rightarrow> None | Some hc \<Rightarrow> tp_transports p (hc_Transport hc)))"

text \<open>The client certificates that a call offers to the server, if the call connects a client that was made with the CA certificate.\<close>

fun offered :: "('c list \<Rightarrow> 'k \<Rightarrow> error option) \<Rightarrow> 'c option \<Rightarrow> 'k tls_call \<Rightarrow> 'k list option" where
  "offered verify ca (CallClientCert None) = None"
| "offered verify ca (CallClientCert (Some cert)) =
     (case ca of None \<Rightarrow> Some [cert] | Some c \<Rightarrow> if verify [c] cert = None then Some [cert] else None)"
| "offered verify ca (CallRefresh env url) = None"
| "offered verify ca (CallInvoke env m url msg) = None"
| "offered verify ca CallClose = None"
| "offered verify ca _ = Some []"

text \<open>The configuration that the last of the connecting calls asks for, for its own client.\<close>

definition asked_config ::
    "('c list \<Rightarrow> 'k \<Rightarrow> error option) \<Rightarrow> (nat \<rightharpoonup> string \<times> 'c option) \<Rightarrow> nat \<times> 'k tls_call \<Rightarrow> ('c, 'k) tls_config option" where
  "asked_config verify made c =
     (case made (fst c) of
        None \<Rightarrow> None
      | Some (hostPort, ca) \<Rightarrow>
          map_option
            (\<lambda>certs. \<lparr>cfg_rootCAs = (case ca of None \<Rightarrow> [] | Some c \<Rightarrow> [c]), cfg_certificates = certs,
               cfg_insecureSkipVerify = (ca = None)\<rparr>)
            (offered verify ca (snd c)))"

fun last_config ::
    "('c list \<Rightarrow> 'k \<Rightarrow> error option) \<Rightarrow> (nat \<rightharpoonup> string \<times> 'c option) \<Rightarrow> (nat \<times> 'k tls_call) list \<Rightarrow>
      ('c, 'k) tls_config option \<Rightarrow> ('c, 'k) tls_config option" where
  "last_config verify made [] cur = cur"
| "last_config verify made (c # calls) cur =
     last_config verify made calls (case asked_config verify made c of None \<Rightarrow> cur | Some cfg \<Rightarrow> Some cfg)"

section \<open>Facts about tokens and requests\<close>

lemma Refresh_Ret:
  assumes "tc_httpClient cl \<noteq> None"
  shows "\<exists>tokens err cl' reqs. RefreshJWTTokens env url cl = Ret (tokens, err, cl', reqs) \<and>
     length reqs \<le> 1 \<and> tc_httpClient cl' = tc_httpClient cl"
  using assms
  by (auto simp: RefreshJWTTokens_def Let_def split: option.splits sum.splits prod.splits)

lemma RefreshIfExpired_Ret:
  assumes "tc_httpClient cl \<noteq> None"
  shows "\<exists>err cl' reqs. RefreshJWTTokenIfExpired env cl = Ret (err, cl', reqs) \<and> length reqs \<le> 1 \<and>
     tc_httpClient cl' = tc_httpClient cl"
  using assms Refresh_Ret [OF assms, of env "[]"]
  by (auto simp: RefreshJWTTokenIfExpired_def Let_def split: token_state.splits)

lemma send_request_ok:
  "snd (send_request env req) = None \<longleftrightarrow>
     (\<exists>resp. he_do env req = Inr resp \<and> rs_StatusCode resp < 400 \<and> rs_readError resp = None)"
  by (auto simp: send_request_def split: sum.splits option.splits)

lemma send_request_body:
  "he_do env req = Inr resp \<Longrightarrow> rs_StatusCode resp < 400 \<Longrightarrow> rs_readError resp = None \<Longrightarrow>
     send_request env req = (Some (rs_Body resp), None)"
  by (simp add: send_request_def)

definition stale_error :: "http_env \<Rightarrow> string \<Rightarrow> string \<Rightarrow> ('c, 'k) tls_client \<Rightarrow> error" where
  "stale_error env method url cl =
     (if tc_httpClient cl = None then ''error on Invoke: client is not started''
      else case he_newRequest env method url of
          Some err \<Rightarrow> err
        | None \<Rightarrow> ''RefreshJWTTokenIfExpired: Parse error on access token string. Refresh failed'')"

lemma invoke_stale:
  "tc_basicSecret cl = [] \<Longrightarrow> tc_jwtAccessToken cl \<noteq> [] \<Longrightarrow> he_token env (tc_jwtAccessToken cl) = TokenUnparsable \<Longrightarrow>
     Invoke env method url msg cl = Ret ((None, Some (stale_error env method url cl)), cl, [])"
  by (auto simp: Invoke_def Let_def RefreshJWTTokenIfExpired_def stale_error_def split: option.splits)

lemma invoke_returns: "\<exists>res cl' reqs. Invoke env method url msg cl = Ret (res, cl', reqs)"
proof (cases "tc_httpClient cl = None")
  case True
  then show ?thesis by (simp add: Invoke_def)
next
  case False
  from RefreshIfExpired_Ret [OF False, of env] obtain err cl' reqs where
    r: "RefreshJWTTokenIfExpired env cl = Ret (err, cl', reqs)" by blast
  show ?thesis by (cases err) (auto simp: Invoke_def Let_def r split: option.splits)
qed

lemma login_returns:
  "\<exists>tok err cl' ts' reqs. ConnectWithJWTLogin env loginID secret url cl ts = Ret (tok, err, cl', ts', reqs)"
proof -
  have r: "\<exists>tok err cl' ts' reqs. map_outcome
      (\<lambda>(result, cl, reqs). case login_response u result cl of (token, err, cl) \<Rightarrow> (token, err, cl, tr, reqs))
      (Invoke env m u msg c) = Ret (tok, err, cl', ts', reqs)" for u m msg c and tr :: "('c, 'd) transports"
    using invoke_returns [of env m u msg c] by (auto split: prod.splits)
  show ?thesis unfolding ConnectWithJWTLogin_def Let_def tls_connect_def prod.case by (rule r)
qed

section \<open>Properties\<close>

lemma invoke_total:
  "\<exists>body err cl' reqs. Invoke env method url msg cl = Ret ((body, err), cl', reqs) \<and> length reqs \<le> 2 \<and>
     (err = None \<longrightarrow> reqs \<noteq> [] \<and> rq_method (last reqs) = method \<and> rq_url (last reqs) = url \<and>
        rq_body (last reqs) = message_body msg \<and>
        (\<exists>resp. he_do env (last reqs) = Inr resp \<and> rs_StatusCode resp < 400 \<and> body = Some (rs_Body resp)))"
proof (cases "tc_httpClient cl = None")
  case True
  then show ?thesis by (simp add: Invoke_def)
next
  case False
  have send: "\<exists>body err. send_request env r = (body, err) \<and>
      (err = None \<longrightarrow> (\<exists>resp. he_do env r = Inr resp \<and> rs_StatusCode resp < 400 \<and> body = Some (rs_Body resp)))" for r
    using send_request_ok [of env r] send_request_body [of env r] by (cases "send_request env r") auto
  from RefreshIfExpired_Ret [OF False, of env] obtain err cl' reqs where
    r: "RefreshJWTTokenIfExpired env cl = Ret (err, cl', reqs)" "length reqs \<le> 1" by blast
  show ?thesis
    using False r(2) by (cases err) (auto simp: Invoke_def Let_def r(1) intro!: send split: option.splits)
qed

text \<open>
  Invoke never panics and sends at most two requests, a refresh of the token and the request itself. It returns no error only
  if the last of them is the request asked for and the server answered it with a status below 400; the result is that answer.
\<close>

theorem invoke_result:
  "\<exists>body err cl' reqs. Invoke env method url msg cl = Ret ((body, err), cl', reqs) \<and> length reqs \<le> 2 \<and>
     (err = None \<longrightarrow> reqs \<noteq> [] \<and> rq_method (last reqs) = method \<and> rq_url (last reqs) = url \<and>
        rq_body (last reqs) = message_body msg \<and>
        (\<exists>resp. he_do env (last reqs) = Inr resp \<and> rs_StatusCode resp < 400 \<and> body = Some (rs_Body resp)))"
  by (rule invoke_total)

definition ok_env :: http_env where
  "ok_env = \<lparr>he_newRequest = (\<lambda>_ _. None),
     he_do = (\<lambda>_. Inr \<lparr>rs_StatusCode = 200, rs_Status = ''200 OK'', rs_Body = ''{}'', rs_readError = None\<rparr>),
     he_token = (\<lambda>_. TokenValid)\<rparr>"

theorem invoke_result_witness:
  "snd (send_request ok_env \<lparr>rq_method = ''GET'', rq_url = ''https://h/things'', rq_authorization = NoAuthorization, rq_body = []\<rparr>) = None \<and>
   (\<exists>body err cl' reqs. Invoke ok_env ''GET'' ''https://h/things'' MsgNil
      (fst (ConnectNoAuth (NewTLSClient ''h'' None :: (nat, nat) tls_client) (\<lambda>_. None))) = Ret ((body, err), cl', reqs) \<and> length reqs \<le> 2)"
  using invoke_result [of ok_env "''GET''" "''https://h/things''" MsgNil
      "fst (ConnectNoAuth (NewTLSClient ''h'' None :: (nat, nat) tls_client) (\<lambda>_. None))"]
  by (auto simp: send_request_def ok_env_def)

text \<open>
  A refresh that the server refuses with a status of 400 or more yields neither tokens nor an error, and an Invoke with an
  expired token then sends its request with that expired token.
\<close>

theorem refused_refresh_ignored:
  fixes msg :: message and url m :: string
  assumes "tc_httpClient cl \<noteq> None" and "tc_basicSecret cl = []" and "tc_jwtAccessToken cl \<noteq> []"
    and "he_token env (tc_jwtAccessToken cl) = TokenInvalid"
    and "he_newRequest env = (\<lambda>_ _. None)"
  defines "rreq \<equiv> \<lparr>rq_method = ''POST'', rq_url = ''https://'' @ tc_hostPort cl @ ''/auth/refresh'',
      rq_authorization = NoAuthorization, rq_body = []\<rparr>"
  assumes "he_do env rreq = Inr resp" and "400 \<le> rs_StatusCode resp"
  defines "req \<equiv> \<lparr>rq_method = m, rq_url = url,
      rq_authorization = HeaderAuthorization (''bearer '' @ tc_jwtAccessToken cl), rq_body = message_body msg\<rparr>"
  shows "RefreshJWTTokens env [] cl = Ret (None, None, cl, [rreq]) \<and>
    Invoke env m url msg cl = Ret (send_request env req, cl, [rreq, req])"
proof -
  have r: "RefreshJWTTokens env [] cl = Ret (None, None, cl, [rreq])"
    using assms(1,5,7,8) by (auto simp: RefreshJWTTokens_def Let_def rreq_def DefaultJWTRefreshPath_def)
  then show ?thesis
    using assms(1-5) by (auto simp: Invoke_def Let_def RefreshJWTTokenIfExpired_def req_def)
qed

definition expired_env :: http_env where
  "expired_env = \<lparr>he_newRequest = (\<lambda>_ _. None),
     he_do = (\<lambda>_. Inr \<lparr>rs_StatusCode = 401, rs_Status = ''401 Unauthorized'', rs_Body = [], rs_readError = None\<rparr>),
     he_token = (\<lambda>_. TokenInvalid)\<rparr>"

definition token_client :: "(nat, nat) tls_client" where
  "token_client = fst (ConnectWithJwtAccessToken ''user1'' ''old'' (NewTLSClient ''hub:8881'' None) (\<lambda>_. None))"

lemma token_client_fields:
  "tc_httpClient token_client \<noteq> None" "tc_basicSecret token_client = []" "tc_jwtAccessToken token_client = ''old''"
  "tc_hostPort token_client = ''hub:8881''" "tc_userID token_client = ''user1''"
  by (simp_all add: token_client_def ConnectWithJwtAccessToken_def NewTLSClient_def tls_connect_def Let_def)

theorem refused_refresh_ignored_witness:
  "\<exists>reqs. RefreshJWTTokens expired_env [] token_client = Ret (None, None, token_client, reqs)"
proof -
  have "he_token expired_env (tc_jwtAccessToken token_client) = TokenInvalid" "he_newRequest expired_env = (\<lambda>_ _. None)"
    "he_do expired_env r = Inr \<lparr>rs_StatusCode = 401, rs_Status = ''401 Unauthorized'', rs_Body = [], rs_readError = None\<rparr>" for r
    by (simp_all add: expired_env_def)
  then show ?thesis
    using refused_refresh_ignored [of token_client expired_env] token_client_fields by auto
qed

text \<open>
  A client left with an access token that is no token can never log in again: the login request goes through Invoke, which
  first tries to refresh the stale token and gives up, so nothing is sent.
\<close>

theorem stale_token_blocks_login:
  assumes "tc_basicSecret cl = []" and "tc_jwtAccessToken cl \<noteq> []"
    and "he_token env (tc_jwtAccessToken cl) = TokenUnparsable"
  shows "\<exists>err cl' ts'. ConnectWithJWTLogin env loginID secret authLoginURL cl ts = Ret ([], Some err, cl', ts', []) \<and>
    tc_jwtAccessToken cl' = tc_jwtAccessToken cl"
  using assms by (auto simp: ConnectWithJWTLogin_def Let_def tls_connect_def invoke_stale login_response_def)

definition garbage_env :: http_env where
  "garbage_env = ok_env\<lparr>he_token := (\<lambda>_. TokenUnparsable)\<rparr>"

theorem stale_token_blocks_login_witness:
  "\<exists>err cl' ts'. ConnectWithJWTLogin garbage_env ''user1'' ''good password'' [] token_client (\<lambda>_. None) =
     Ret ([], Some err, cl', ts', [])"
  using stale_token_blocks_login [of token_client garbage_env "''user1''" "''good password''" "[]" "\<lambda>_. None"] token_client_fields
  by (auto simp: garbage_env_def)

text \<open>
  What a call leaves as it was: how the client was made. Every http client there is points at the transport of the process.
\<close>

definition made_with :: "string \<times> 'c option \<Rightarrow> ('c, 'k) tls_client \<Rightarrow> bool" where
  "made_with m cl \<longleftrightarrow>
     tc_caCert cl = snd m \<and> tc_caCertPool cl = (case snd m of None \<Rightarrow> [] | Some c \<Rightarrow> [c]) \<and> (tc_checkServerCert cl \<longleftrightarrow> snd m \<noteq> None) \<and>
     (\<forall>hc. tc_httpClient cl = Some hc \<longrightarrow> hc_Transport hc = DefaultTransport)"

lemma Refresh_keeps:
  "RefreshJWTTokens env url cl = Ret (tokens, err, cl', reqs) \<Longrightarrow> made_with m cl' = made_with m cl \<and> tc_httpClient cl' = tc_httpClient cl"
  by (auto simp: RefreshJWTTokens_def Let_def made_with_def split: option.splits sum.splits prod.splits if_splits)

lemma RefreshIfExpired_keeps:
  "RefreshJWTTokenIfExpired env cl = Ret (err, cl', reqs) \<Longrightarrow> made_with m cl' = made_with m cl \<and> tc_httpClient cl' = tc_httpClient cl"
  by (auto simp: RefreshJWTTokenIfExpired_def Let_def map_outcome_Ret_iff dest!: Refresh_keeps [where m = m] split: token_state.splits if_splits)

lemma Invoke_keeps:
  "Invoke env method url msg cl = Ret (body, cl', reqs) \<Longrightarrow> made_with m cl' = made_with m cl \<and> tc_httpClient cl' = tc_httpClient cl"
  by (auto simp: Invoke_def Let_def bind_outcome_Ret_iff dest!: RefreshIfExpired_keeps [where m = m] split: option.splits if_splits)

lemma connect_keeps:
  "made_with m cl \<Longrightarrow> tls_connect cl ts = (hc, ts') \<Longrightarrow>
     made_with m (cl\<lparr>tc_httpClient := Some hc\<rparr>) \<and>
     ts' DefaultTransport = Some \<lparr>cfg_rootCAs = (case snd m of None \<Rightarrow> [] | Some c \<Rightarrow> [c]), cfg_certificates = [],
       cfg_insecureSkipVerify = (snd m = None)\<rparr>"
  by (auto simp: made_with_def tls_connect_def Let_def)

lemma made_with_user [simp]:
  "made_with m (cl\<lparr>tc_userID := u\<rparr>) = made_with m cl" "made_with m (cl\<lparr>tc_basicSecret := pw\<rparr>) = made_with m cl"
  "made_with m (cl\<lparr>tc_jwtAccessToken := t\<rparr>) = made_with m cl"
  by (simp_all add: made_with_def)

lemma login_keeps:
  assumes "made_with m cl" and "ConnectWithJWTLogin env u pw url cl ts = Ret (token, err, cl', ts', reqs)"
  shows "made_with m cl' \<and> (\<exists>hc. tls_connect (cl\<lparr>tc_userID := u\<rparr>) ts = (hc, ts'))"
proof -
  have r: "made_with m (snd (snd (login_response u' result c))) = made_with m c" for u' result and c :: "('a, 'b) tls_client"
    by (auto simp: login_response_def split: prod.splits option.splits)
  obtain hc ts1 where t: "tls_connect (cl\<lparr>tc_userID := u\<rparr>) ts = (hc, ts1)" by (metis surj_pair)
  with connect_keeps [of m "cl\<lparr>tc_userID := u\<rparr>" ts hc ts1] assms(1) have "made_with m (cl\<lparr>tc_userID := u, tc_httpClient := Some hc\<rparr>)" by simp
  define to where "to = (if url \<noteq> [] then url else ''https://'' @ tc_hostPort cl @ DefaultJWTLoginPath)"
  define c0 where "c0 = cl\<lparr>tc_userID := u, tc_httpClient := Some hc\<rparr>"
  from invoke_returns [of env "''POST''" to "MsgObject (login_json u pw)" c0] obtain res c1 rs where
    i: "Invoke env ''POST'' to (MsgObject (login_json u pw)) c0 = Ret (res, c1, rs)" by blast
  have "ConnectWithJWTLogin env u pw url cl ts = map_outcome
      (\<lambda>(res, cl, reqs). case login_response to res cl of (token, err, cl) \<Rightarrow> (token, err, cl, ts1, reqs))
      (Invoke env ''POST'' to (MsgObject (login_json u pw)) c0)"
    using t by (simp add: ConnectWithJWTLogin_def Let_def to_def c0_def)
  with assms(2) i have "cl' = snd (snd (login_response to res c1))" "ts' = ts1" by (auto split: prod.splits)
  moreover have "made_with m c1" using Invoke_keeps [OF i] \<open>made_with m (cl\<lparr>tc_userID := u, tc_httpClient := Some hc\<rparr>)\<close> by (simp add: c0_def)
  ultimately show ?thesis using t r by simp
qed

lemma call_keeps:
  assumes "made_with m cl" and "call_client verify call cl ts = Ret (cl', ts')"
  shows "made_with m cl' \<and>
    (case offered verify (snd m) call of
       None \<Rightarrow> ts' DefaultTransport = ts DefaultTransport \<and> (tc_httpClient cl' \<noteq> None \<longrightarrow> tc_httpClient cl \<noteq> None)
     | Some certs \<Rightarrow> ts' DefaultTransport = Some \<lparr>cfg_rootCAs = (case snd m of None \<Rightarrow> [] | Some c \<Rightarrow> [c]), cfg_certificates = certs,
         cfg_insecureSkipVerify = (snd m = None)\<rparr>)"
proof (cases call)
  case (CallClientCert cert)
  with assms show ?thesis
    by (cases cert; cases "snd m") (auto simp: ConnectWithClientCert_def Let_def made_with_def split: option.splits)
next
  case (CallLogin env u pw url)
  with assms(2) obtain token err reqs where "ConnectWithJWTLogin env u pw url cl ts = Ret (token, err, cl', ts', reqs)"
    by (auto simp: map_outcome_Ret_iff)
  from login_keeps [OF assms(1) this] obtain hc where "made_with m cl'" "tls_connect (cl\<lparr>tc_userID := u\<rparr>) ts = (hc, ts')" by blast
  with connect_keeps [of m "cl\<lparr>tc_userID := u\<rparr>" ts hc ts'] assms(1) show ?thesis by (simp add: CallLogin)
next
  case (CallRefresh env url)
  with assms show ?thesis by (auto simp: map_outcome_Ret_iff dest: Refresh_keeps)
next
  case (CallInvoke env verb url msg)
  with assms show ?thesis by (auto simp: map_outcome_Ret_iff dest: Invoke_keeps)
next
  case CallNoAuth
  obtain hc t where t: "tls_connect cl ts = (hc, t)" by (metis surj_pair)
  with connect_keeps [OF assms(1) t] assms(2) CallNoAuth show ?thesis by (auto simp: ConnectNoAuth_def)
next
  case (CallBasicAuth u pw)
  let ?cl = "cl\<lparr>tc_userID := u, tc_basicSecret := pw\<rparr>"
  obtain hc t where t: "tls_connect ?cl ts = (hc, t)" by (metis surj_pair)
  from assms(1) have "made_with m ?cl" by simp
  from connect_keeps [OF this t] t assms(2) CallBasicAuth show ?thesis by (auto simp: ConnectWithBasicAuth_def Let_def)
next
  case (CallAccessToken u token)
  let ?cl = "cl\<lparr>tc_userID := u, tc_jwtAccessToken := token\<rparr>"
  obtain hc t where t: "tls_connect ?cl ts = (hc, t)" by (metis surj_pair)
  from assms(1) have "made_with m ?cl" by simp
  from connect_keeps [OF this t] t assms(2) CallAccessToken show ?thesis by (auto simp: ConnectWithJwtAccessToken_def Let_def)
next
  case CallClose
  with assms show ?thesis by (auto simp: Close_def made_with_def)
qed

text \<open>The clients as made, and a configuration as soon as there is an http client.\<close>

definition process_ok :: "(nat \<rightharpoonup> string \<times> 'c option) \<Rightarrow> ('c, 'k) tls_process \<Rightarrow> bool" where
  "process_ok made p \<longleftrightarrow>
     (\<forall>i cl. tp_clients p i = Some cl \<longrightarrow>
        (case made i of None \<Rightarrow> False | Some m \<Rightarrow> made_with m cl) \<and> (tc_httpClient cl \<noteq> None \<longrightarrow> tp_transports p DefaultTransport \<noteq> None))"

lemma process_okD:
  assumes "process_ok made p" and "tp_clients p i = Some cl"
  obtains m where "made i = Some m" and "made_with m cl" and "tc_httpClient cl \<noteq> None \<longrightarrow> tp_transports p DefaultTransport \<noteq> None"
proof -
  from assms have "case made i of None \<Rightarrow> False | Some m \<Rightarrow> made_with m cl"
    and t: "tc_httpClient cl \<noteq> None \<longrightarrow> tp_transports p DefaultTransport \<noteq> None"
    unfolding process_ok_def by metis+
  with that show thesis by (cases "made i") auto
qed

lemma process_config:
  "process_ok made p \<Longrightarrow> process_calls verify calls p = Ret p' \<Longrightarrow>
     process_ok made p' \<and> tp_transports p' DefaultTransport = last_config verify made calls (tp_transports p DefaultTransport)"
proof (induction calls arbitrary: p)
  case (Cons c calls)
  obtain i call where c: "c = (i, call)" by (cases c)
  from Cons.prems(2) obtain cl cl' ts where cl: "tp_clients p i = Some cl" "call_client verify call cl (tp_transports p) = Ret (cl', ts)"
      "process_calls verify calls \<lparr>tp_clients = (tp_clients p)(i \<mapsto> cl'), tp_transports = ts\<rparr> = Ret p'"
    by (auto simp: c bind_outcome_Ret_iff split: option.splits)
  let ?p = "\<lparr>tp_clients = (tp_clients p)(i \<mapsto> cl'), tp_transports = ts\<rparr>"
  from Cons.prems(1) cl(1) obtain m where m: "made i = Some m" "made_with m cl"
    and up: "tc_httpClient cl \<noteq> None \<longrightarrow> tp_transports p DefaultTransport \<noteq> None" by (rule process_okD)
  note k = call_keeps [OF m(2) cl(2)]
  have ac: "asked_config verify made c = map_option (\<lambda>certs. \<lparr>cfg_rootCAs = (case snd m of None \<Rightarrow> [] | Some c \<Rightarrow> [c]),
      cfg_certificates = certs, cfg_insecureSkipVerify = (snd m = None)\<rparr>) (offered verify (snd m) call)"
    using m(1) by (cases m) (simp add: c asked_config_def)
  have t: "ts DefaultTransport = (case asked_config verify made c of None \<Rightarrow> tp_transports p DefaultTransport | Some cfg \<Rightarrow> Some cfg)"
    using k by (cases "offered verify (snd m) call") (simp_all add: ac)
  have up': "(tc_httpClient cl' \<noteq> None \<longrightarrow> ts DefaultTransport \<noteq> None) \<and> (tp_transports p DefaultTransport \<noteq> None \<longrightarrow> ts DefaultTransport \<noteq> None)"
    using k up by (cases "offered verify (snd m) call") (simp_all add: ac t)
  have "process_ok made ?p"
    unfolding process_ok_def
  proof (intro allI impI)
    fix j x assume x: "tp_clients ?p j = Some x"
    show "(case made j of None \<Rightarrow> False | Some m \<Rightarrow> made_with m x) \<and> (tc_httpClient x \<noteq> None \<longrightarrow> tp_transports ?p DefaultTransport \<noteq> None)"
    proof (cases "j = i")
      case True
      with x m(1) k up' show ?thesis by simp
    next
      case False
      with x have "tp_clients p j = Some x" by simp
      with Cons.prems(1) obtain m' where "made j = Some m'" "made_with m' x"
        "tc_httpClient x \<noteq> None \<longrightarrow> tp_transports p DefaultTransport \<noteq> None" by (rule process_okD)
      with up' show ?thesis by simp
    qed
  qed
  from Cons.IH [OF this cl(3)] t show ?case by simp
qed simp

lemma last_config_skip: "(\<forall>c \<in> set calls. asked_config verify made c = None) \<Longrightarrow> last_config verify made calls cur = cur"
  by (induction calls arbitrary: cur) simp_all

lemma last_config_append: "last_config verify made (xs @ ys) cur = last_config verify made ys (last_config verify made xs cur)"
  by (induction xs arbitrary: cur) simp_all

text \<open>
  C36: All clients of a process use one TLS configuration, whatever methods are called on them in whatever order: after any calls, every client
  with an http client sends its requests with what the last connecting call asked for, for its own client: its CA certificate, its client
  certificate, and whether the server is verified. So once a client that was made without a CA certificate connects, no client verifies its
  server until another one connects, also those made with a CA certificate.
\<close>

theorem verification_lost:
  assumes "process_calls verify calls (new_process made) = Ret p" and "tp_clients p j = Some cj" and "tc_httpClient cj \<noteq> None"
  shows "used_config p j = last_config verify made calls None \<and> used_config p j \<noteq> None \<and>
    (\<forall>before i call after hostPort certs. calls = before @ (i, call) # after \<and> made i = Some (hostPort, None) \<and>
       offered verify None call = Some certs \<and> (\<forall>c \<in> set after. asked_config verify made c = None) \<longrightarrow>
       map_option cfg_insecureSkipVerify (used_config p j) = Some True)"
proof -
  have "process_ok made (new_process made)"
    by (auto simp: process_ok_def new_process_def made_with_def NewTLSClient_def split: option.splits)
  from process_config [OF this assms(1)] have p: "process_ok made p" "tp_transports p DefaultTransport = last_config verify made calls None"
    by (simp_all add: new_process_def)
  from p(1) assms(2) obtain m where m: "made_with m cj" and "tc_httpClient cj \<noteq> None \<longrightarrow> tp_transports p DefaultTransport \<noteq> None"
    by (rule process_okD)
  with assms(3) have t: "tp_transports p DefaultTransport \<noteq> None" by blast
  from assms(3) obtain hc where hc: "tc_httpClient cj = Some hc" by blast
  with m have "hc_Transport hc = DefaultTransport" by (simp add: made_with_def)
  with hc assms(2) have "used_config p j = tp_transports p DefaultTransport" by (simp add: used_config_def)
  with p(2) t have u: "used_config p j = last_config verify made calls None" "used_config p j \<noteq> None" by simp_all
  moreover have "map_option cfg_insecureSkipVerify (used_config p j) = Some True"
    if "calls = before @ (i, call) # after" "made i = Some (hostPort, None)" "offered verify None call = Some certs"
      "\<forall>c \<in> set after. asked_config verify made c = None" for before i call after hostPort certs
    unfolding u(1) that(1) last_config_append using that(2-4) by (simp add: last_config_skip asked_config_def)
  ultimately show ?thesis by blast
qed

definition two_clients :: "nat \<rightharpoonup> string \<times> nat option" where
  "two_clients = [0 \<mapsto> (''auth:8881'', Some 7), 1 \<mapsto> (''other:443'', None)]"

text \<open>
  The client with the CA certificate connects with a certificate, the other one without: the first uses the configuration of the second.\<close>

theorem verification_lost_witness:
  "\<exists>p c0. process_calls (\<lambda>_ _. None) [(0, CallClientCert (Some (5 :: nat))), (1, CallNoAuth)] (new_process two_clients) = Ret p \<and>
     tp_clients p 0 = Some c0 \<and> tc_checkServerCert c0 \<and>
     used_config p 0 = Some \<lparr>cfg_rootCAs = [], cfg_certificates = [], cfg_insecureSkipVerify = True\<rparr>"
proof -
  let ?calls = "[(0, CallClientCert (Some (5 :: nat))), (1, CallNoAuth)]"
  obtain p c0 where p: "process_calls (\<lambda>_ _. None) ?calls (new_process two_clients) = Ret p" "tp_clients p 0 = Some c0"
      "tc_checkServerCert c0" "tc_httpClient c0 \<noteq> None"
    by (simp add: new_process_def two_clients_def ConnectWithClientCert_def ConnectNoAuth_def tls_connect_def NewTLSClient_def Let_def)
  from verification_lost [OF p(1,2,4)] have "used_config p 0 = last_config (\<lambda>_ _. None) two_clients ?calls None" by blast
  then have "used_config p 0 = Some \<lparr>cfg_rootCAs = [], cfg_certificates = [], cfg_insecureSkipVerify = True\<rparr>"
    by (simp add: asked_config_def two_clients_def)
  with p show ?thesis by blast
qed

end
