(* ===== verification/ThingFactory.thy ===== *)
theory ThingFactory
  imports ThingTD
begin

text \<open>
  What the two factories promise their clients. A factory keeps two tables by thing ID, the instances and their bindings.
  \<open>create td s\<close> returns the reference of the instance for \<open>td\<close>, \<open>remove r s\<close> is Destroy of the instance \<open>r\<close>, \<open>None\<close> for a
  reference that is no instance.
\<close>

locale thing_factory =
  fixes instances :: "'s \<Rightarrow> string \<rightharpoonup> nat"
    and bindings :: "'s \<Rightarrow> string \<rightharpoonup> nat"
    and id_of :: "'s \<Rightarrow> nat \<Rightarrow> string option"
    and create :: "thing_td \<Rightarrow> 's \<Rightarrow> nat \<times> 's"
    and remove :: "nat \<Rightarrow> 's \<Rightarrow> 's option"
  assumes create_found: "instances s (td_ID td) = Some r \<Longrightarrow> create td s = (r, s)"
    and create_new: "instances s (td_ID td) = None \<Longrightarrow>
      \<exists>r b s'. create td s = (r, s') \<and> instances s' = (instances s)(td_ID td \<mapsto> r) \<and>
        bindings s' = (bindings s)(td_ID td \<mapsto> b) \<and> id_of s' r = Some (td_ID td)"
    and remove_some: "id_of s r = Some i \<Longrightarrow>
      \<exists>s'. remove r s = Some s' \<and> instances s' = (instances s)(i := None) \<and> bindings s' = (bindings s)(i := None)"
    and remove_none: "id_of s r = None \<Longrightarrow> remove r s = None"
begin

definition paired :: "'s \<Rightarrow> bool" where
  "paired s \<longleftrightarrow> dom (instances s) = dom (bindings s)"

lemma create_instance: "instances (snd (create td s)) (td_ID td) = Some (fst (create td s))"
  using create_found [of s td] create_new [of s td] by (cases "instances s (td_ID td)") auto

lemma create_twice: "create td (snd (create td s)) = (fst (create td s), snd (create td s))"
  using create_found [OF create_instance] by simp

lemma create_other: "i \<noteq> td_ID td \<Longrightarrow> instances (snd (create td s)) i = instances s i"
  using create_found [of s td] create_new [of s td] by (cases "instances s (td_ID td)") auto

lemma create_paired: "paired s \<Longrightarrow> paired (snd (create td s))"
  using create_found [of s td] create_new [of s td]
  by (cases "instances s (td_ID td)") (simp_all add: paired_def, elim exE conjE, simp)

lemma remove_paired:
  assumes "paired s" and "remove r s = Some s'"
  shows "paired s'"
proof (cases "id_of s r")
  case None
  with assms(2) remove_none show ?thesis by simp
next
  case (Some i)
  with assms(2) remove_some [OF Some] have "instances s' = (instances s)(i := None)" "bindings s' = (bindings s)(i := None)"
    by auto
  with assms(1) show ?thesis by (simp add: paired_def)
qed

lemma remove_gone: "remove r s = Some s' \<Longrightarrow> id_of s r = Some i \<Longrightarrow> instances s' i = None \<and> bindings s' i = None"
  using remove_some [of s r i] by auto

end

end
