(* ===== verification/ConsumedFactory.thy ===== *)
theory ConsumedFactory
  imports ConsumedThing TLSClient Accounts ThingStore ThingFactory
begin

text \<open>
  The factory of consumed things (\<open>pkg/consumedthing/ConsumedThingFactory.go\<close>, ConnectionStatus.go): authentication,
  connecting and disconnecting, and the consumed things with their bindings.

  Things and bindings are shared objects: the caller of Consume, the tables of the factory and the callbacks of the MQTT client
  point at the same ones. They live in two stores under references, \<open>cf_next\<close> is the next free one. The handler a
  binding gives to the MQTT client is the reference of the binding. The clients of the factory are never nil, except
  for the authentication client, which the code tests. The transports of the HTTP clients belong to the process (TLSClient): operations
  that connect take and return them.
\<close>

section \<open>Data\<close>

record connection_status =
  cs_AccessToken :: string
  cs_Authenticated :: bool
  cs_AuthStatus :: string
  cs_Connected :: bool
  cs_DirectoryRead :: bool
  cs_StatusMessage :: string

record ('l, 'c, 'k) ct_factory =
  cf_accessToken :: string
  cf_account :: account_record
  cf_authClient :: "('c, 'k) tls_client option"
  cf_dirClient :: "('c, 'k) tls_client"
  cf_bindings :: "string \<rightharpoonup> nat"
  cf_connectionStatus :: connection_status
  cf_ctMap :: "string \<rightharpoonup> nat"
  cf_mqttClient :: "(nat, 'c, 'k) mqtt_client"
  cf_thingStore :: thing_store
  cf_things :: "nat \<rightharpoonup> 'l consumed_thing"
  cf_bindingObjects :: "nat \<rightharpoonup> ct_binding"
  cf_next :: nat

definition host_port :: "string \<Rightarrow> int \<Rightarrow> string" where
  "host_port address port = address @ '':'' @ show_int port"

section \<open>Operations\<close>

definition CreateConsumedThingFactory ::
    "string \<Rightarrow> account_record \<Rightarrow> 'c option \<Rightarrow> ('l, 'c, 'k) ct_factory" where
  "CreateConsumedThingFactory appID account caCert =
     \<lparr>cf_accessToken = [], cf_account = account,
      cf_authClient = Some (NewTLSClient (host_port (ar_Address account) (ar_AuthPort account)) caCert),
      cf_dirClient = NewTLSClient (host_port (ar_Address account) (ar_DirectoryPort account)) caCert,
      cf_bindings = Map.empty,
      cf_connectionStatus = \<lparr>cs_AccessToken = [], cs_Authenticated = False, cs_AuthStatus = [], cs_Connected = False,
        cs_DirectoryRead = False, cs_StatusMessage = []\<rparr>,
      cf_ctMap = Map.empty, cf_mqttClient = NewMqttClient appID caCert 0, cf_thingStore = NewThingStore [],
      cf_things = Map.empty, cf_bindingObjects = Map.empty, cf_next = 0\<rparr>"

text \<open>
  The errors of login and refresh are stored in variables that shadow the one returned. A refresh may return nil tokens
  without an error; reading their access token panics.
\<close>

definition Authenticate ::
    "http_env \<Rightarrow> string \<Rightarrow> ('l, 'c, 'k) ct_factory \<Rightarrow> ('c, 'k) transports \<Rightarrow>
      (error option \<times> ('l, 'c, 'k) ct_factory \<times> ('c, 'k) transports) outcome" where
  "Authenticate env password ctFactory ts =
     (case cf_authClient ctFactory of
        None \<Rightarrow> Ret (None, ctFactory, ts)
      | Some authClient \<Rightarrow>
          if password \<noteq> [] then
            map_outcome
              (\<lambda>(accessToken, err, cl, ts, reqs).
                 (None, ctFactory\<lparr>cf_authClient := Some cl,
                    cf_accessToken := (if err = None then accessToken else cf_accessToken ctFactory)\<rparr>, ts))
              (ConnectWithJWTLogin env (ar_LoginName (cf_account ctFactory)) password [] authClient ts)
          else
            bind_outcome (RefreshJWTTokens env [] authClient) (\<lambda>(tokens, err, cl, reqs).
              if err = None then
                (case tokens of
                   None \<Rightarrow> Panic NilDereference
                 | Some t \<Rightarrow> Ret (None, ctFactory\<lparr>cf_authClient := Some cl, cf_accessToken := jr_AccessToken t\<rparr>, ts))
              else Ret (None, ctFactory\<lparr>cf_authClient := Some cl\<rparr>, ts)))"

definition cf_Disconnect ::
    "('l, 'c, 'k) ct_factory \<Rightarrow> ('l, 'c, 'k) ct_factory \<times> (nat, 'c, 'k) paho_call list" where
  "cf_Disconnect ctFactory =
     (case Disconnect (cf_mqttClient ctFactory) of
        (mqtt, calls) \<Rightarrow>
          (ctFactory\<lparr>cf_mqttClient := mqtt,
             cf_connectionStatus := (cf_connectionStatus ctFactory)\<lparr>cs_Connected := False\<rparr>,
             cf_thingStore := Save (cf_thingStore ctFactory)\<rparr>, calls))"

text \<open>The part Connect and ConnectWithCert begin with.\<close>

definition start_session ::
    "('l, 'c, 'k) ct_factory \<Rightarrow> ('l, 'c, 'k) ct_factory \<times> (nat, 'c, 'k) paho_call list" where
  "start_session ctFactory =
     (case cf_Disconnect ctFactory of
        (ctFactory, calls) \<Rightarrow>
          (ctFactory\<lparr>cf_connectionStatus := (cf_connectionStatus ctFactory)\<lparr>cs_StatusMessage := []\<rparr>,
             cf_thingStore := Load (NewThingStore (ar_ID (cf_account ctFactory)))\<rparr>, calls))"

text \<open>\<open>None\<close> is a call of the MQTT client that does not return.\<close>

definition cf_Connect ::
    "http_env \<Rightarrow> connect_env \<Rightarrow> string \<Rightarrow> ('l, 'c, 'k) ct_factory \<Rightarrow> ('c, 'k) transports \<Rightarrow>
      (error option \<times> ('l, 'c, 'k) ct_factory \<times> ('c, 'k) transports \<times> (nat, 'c, 'k) paho_call list) outcome option" where
  "cf_Connect env cenv password ctFactory ts =
     (case start_session ctFactory of
        (ctFactory, calls) \<Rightarrow>
          (case cf_authClient ctFactory of
             None \<Rightarrow> Some (Panic NilDereference)
           | Some authClient \<Rightarrow>
               (case ConnectNoAuth authClient ts of
                  (authClient, ts) \<Rightarrow>
                    let account = cf_account ctFactory;
                        ctFactory = ctFactory\<lparr>cf_authClient := Some authClient\<rparr> in
                    (case Authenticate env password ctFactory ts of
                       Panic p \<Rightarrow> Some (Panic p)
                     | Ret (Some err, ctFactory, ts) \<Rightarrow> Some (Ret (Some err, ctFactory, ts, calls))
                     | Ret (None, ctFactory, ts) \<Rightarrow>
                         let token = cf_accessToken ctFactory in
                         (case ConnectWithJwtAccessToken (ar_LoginName account) token (cf_dirClient ctFactory) ts of
                            (dirClient, ts) \<Rightarrow>
                              let ctFactory = ctFactory\<lparr>cf_dirClient := dirClient\<rparr> in
                              map_option
                                (\<lambda>(err, mqtt, calls2). Ret (err, ctFactory\<lparr>cf_mqttClient := mqtt\<rparr>, ts, calls @ calls2))
                                (ConnectWithAccessToken cenv (host_port (ar_Address account) (ar_MqttPort account))
                                  (ar_LoginName account) token (cf_mqttClient ctFactory)))))))"

definition cf_ConnectWithCert ::
    "('k \<Rightarrow> error option) \<Rightarrow> connect_env \<Rightarrow> 'k option \<Rightarrow> ('l, 'c, 'k) ct_factory \<Rightarrow> ('c, 'k) transports \<Rightarrow>
      (error option \<times> ('l, 'c, 'k) ct_factory \<times> ('c, 'k) transports \<times> (nat, 'c, 'k) paho_call list) option" where
  "cf_ConnectWithCert verify cenv clientCert ctFactory ts =
     (case start_session ctFactory of
        (ctFactory, calls) \<Rightarrow>
          let account = cf_account ctFactory in
          map_option
            (\<lambda>(err, mqtt, calls2).
               let ctFactory = ctFactory\<lparr>cf_mqttClient := mqtt\<rparr> in
               if err = None then
                 (case TLSClient.ConnectWithClientCert verify clientCert (cf_dirClient ctFactory) ts of
                    (err2, cl, ts) \<Rightarrow> (err2, ctFactory\<lparr>cf_dirClient := cl\<rparr>, ts, calls @ calls2))
               else (err, ctFactory, ts, calls @ calls2))
            (MqttClient.ConnectWithClientCert cenv (host_port (ar_Address account) (ar_MqttPort account)) clientCert
              (cf_mqttClient ctFactory)))"

definition Consume ::
    "thing_td \<Rightarrow> ('l, 'c, 'k) ct_factory \<Rightarrow> nat \<times> ('l, 'c, 'k) ct_factory \<times> (nat, 'c, 'k) paho_call list" where
  "Consume td ctFactory =
     (case cf_ctMap ctFactory (td_ID td) of
        Some cThing \<Rightarrow> (cThing, ctFactory, [])
      | None \<Rightarrow>
          let ref = cf_next ctFactory; bref = Suc ref in
          (case CreateConsumedThingProtocolBinding ref bref (CreateConsumedThing td) of
             (binding, cThing) \<Rightarrow>
               (case binding_Start bref binding (cf_mqttClient ctFactory) of
                  (mqtt, calls) \<Rightarrow>
                    (ref,
                     ctFactory\<lparr>cf_bindings := (cf_bindings ctFactory)(td_ID td \<mapsto> bref),
                       cf_ctMap := (cf_ctMap ctFactory)(td_ID td \<mapsto> ref),
                       cf_mqttClient := mqtt,
                       cf_things := (cf_things ctFactory)(ref \<mapsto> cThing),
                       cf_bindingObjects := (cf_bindingObjects ctFactory)(bref \<mapsto> binding),
                       cf_next := Suc bref\<rparr>,
                     calls))))"

text \<open>A reference without a thing is a nil pointer.\<close>

definition cf_Destroy ::
    "nat \<Rightarrow> ('l, 'c, 'k) ct_factory \<Rightarrow> (('l, 'c, 'k) ct_factory \<times> (nat, 'c, 'k) paho_call list) outcome" where
  "cf_Destroy ref ctFactory =
     (case cf_things ctFactory ref of
        None \<Rightarrow> Panic NilDereference
      | Some cThing \<Rightarrow>
          let ID = td_ID (ct_TD cThing) in
          (case (case cf_bindings ctFactory ID of
                   None \<Rightarrow> (ctFactory, [])
                 | Some bref \<Rightarrow>
                     (case binding_Stop (the (cf_bindingObjects ctFactory bref)) (cf_mqttClient ctFactory) of
                        (mqtt, calls) \<Rightarrow>
                          (ctFactory\<lparr>cf_mqttClient := mqtt, cf_bindings := (cf_bindings ctFactory)(ID := None)\<rparr>, calls))) of
             (ctFactory, calls) \<Rightarrow>
               Ret (ctFactory\<lparr>cf_things := (cf_things ctFactory)(ref \<mapsto> Stop cThing),
                      cf_ctMap := (cf_ctMap ctFactory)(ID := None)\<rparr>, calls)))"

definition GetThingStore :: "('l, 'c, 'k) ct_factory \<Rightarrow> thing_store" where
  "GetThingStore ctFactory = cf_thingStore ctFactory"

text \<open>The MQTT client calls the handler of binding \<open>bref\<close> with a message.\<close>

definition cf_message ::
    "nat \<Rightarrow> string \<Rightarrow> string \<Rightarrow> ('l, 'c, 'k) ct_factory \<Rightarrow> (('l, 'c, 'k) ct_factory \<times> 'l listener_call list) outcome" where
  "cf_message bref topic message ctFactory =
     (case cf_bindingObjects ctFactory bref of
        None \<Rightarrow> Panic NilDereference
      | Some binding \<Rightarrow>
          (case cf_things ctFactory (cb_cThing binding) of
             None \<Rightarrow> Panic NilDereference
           | Some cThing \<Rightarrow>
               map_outcome
                 (\<lambda>(cThing, calls). (ctFactory\<lparr>cf_things := (cf_things ctFactory)(cb_cThing binding \<mapsto> cThing)\<rparr>, calls))
                 (handleEvent binding topic message cThing)))"

section \<open>The contract of the factory\<close>

text \<open>A consumed thing keeps its TD, so a reference keeps its ID.\<close>

definition cf_id_of :: "('l, 'c, 'k) ct_factory \<Rightarrow> nat \<Rightarrow> string option" where
  "cf_id_of f r = map_option (\<lambda>c. td_ID (ct_TD c)) (cf_things f r)"

definition cf_create :: "thing_td \<Rightarrow> ('l, 'c, 'k) ct_factory \<Rightarrow> nat \<times> ('l, 'c, 'k) ct_factory" where
  "cf_create td f = (case Consume td f of (r, f', calls) \<Rightarrow> (r, f'))"

definition cf_remove :: "nat \<Rightarrow> ('l, 'c, 'k) ct_factory \<Rightarrow> ('l, 'c, 'k) ct_factory option" where
  "cf_remove r f = (case cf_Destroy r f of Ret (f', calls) \<Rightarrow> Some f' | Panic p \<Rightarrow> None)"

lemma Consume_new:
  assumes "cf_ctMap f (td_ID td) = None"
  shows "\<exists>mqtt calls. Consume td f =
    (cf_next f,
     f\<lparr>cf_bindings := (cf_bindings f)(td_ID td \<mapsto> Suc (cf_next f)), cf_ctMap := (cf_ctMap f)(td_ID td \<mapsto> cf_next f),
       cf_mqttClient := mqtt,
       cf_things := (cf_things f)(cf_next f \<mapsto> (CreateConsumedThing td)
          \<lparr>ct_InvokeActionHook := Some (Suc (cf_next f)), ct_WritePropertyHook := Some (Suc (cf_next f))\<rparr>),
       cf_bindingObjects := (cf_bindingObjects f)(Suc (cf_next f) \<mapsto> \<lparr>cb_td = td, cb_cThing = cf_next f\<rparr>),
       cf_next := Suc (Suc (cf_next f))\<rparr>, calls) \<and>
    Subscribe (binding_topic \<lparr>cb_td = td, cb_cThing = cf_next f\<rparr>) (Suc (cf_next f)) (cf_mqttClient f) = (mqtt, calls)"
  using assms
  by (simp add: Consume_def Let_def CreateConsumedThingProtocolBinding_def binding_Start_def CreateConsumedThing_def
      split: prod.split)

lemma cf_Destroy_Ret:
  assumes "cf_things f r = Some c"
  shows "\<exists>mqtt calls. cf_Destroy r f =
    Ret (f\<lparr>cf_mqttClient := mqtt, cf_bindings := (cf_bindings f)(td_ID (ct_TD c) := None),
           cf_things := (cf_things f)(r \<mapsto> Stop c), cf_ctMap := (cf_ctMap f)(td_ID (ct_TD c) := None)\<rparr>, calls) \<and>
    (mqtt, calls) = (case cf_bindings f (td_ID (ct_TD c)) of
        None \<Rightarrow> (cf_mqttClient f, [])
      | Some b \<Rightarrow> binding_Stop (the (cf_bindingObjects f b)) (cf_mqttClient f))"
proof (cases "cf_bindings f (td_ID (ct_TD c))")
  case None
  then have "(cf_bindings f)(td_ID (ct_TD c) := None) = cf_bindings f" by auto
  with None assms show ?thesis by (simp add: cf_Destroy_def Let_def)
next
  case (Some b)
  obtain m cs where "binding_Stop (the (cf_bindingObjects f b)) (cf_mqttClient f) = (m, cs)" by (metis surj_pair)
  with Some assms show ?thesis by (simp add: cf_Destroy_def Let_def)
qed

interpretation consumed: thing_factory cf_ctMap cf_bindings cf_id_of cf_create cf_remove
proof unfold_locales
  fix s :: "('a, 'b, 'c) ct_factory" and td r
  show "cf_create td s = (r, s)" if "cf_ctMap s (td_ID td) = Some r"
    using that by (simp add: cf_create_def Consume_def)
  show "\<exists>r b s'. cf_create td s = (r, s') \<and> cf_ctMap s' = (cf_ctMap s)(td_ID td \<mapsto> r) \<and>
      cf_bindings s' = (cf_bindings s)(td_ID td \<mapsto> b) \<and> cf_id_of s' r = Some (td_ID td)"
    if "cf_ctMap s (td_ID td) = None"
    using Consume_new [OF that] by (auto simp: cf_create_def cf_id_of_def CreateConsumedThing_def)
  show "\<exists>s'. cf_remove r s = Some s' \<and> cf_ctMap s' = (cf_ctMap s)(i := None) \<and> cf_bindings s' = (cf_bindings s)(i := None)"
    if "cf_id_of s r = Some i" for i
    using that cf_Destroy_Ret [of s r] by (auto simp: cf_id_of_def cf_remove_def)
  show "cf_remove r s = None" if "cf_id_of s r = None"
    using that by (simp add: cf_id_of_def cf_remove_def cf_Destroy_def)
qed

section \<open>Reachable factories\<close>

definition cf_init :: "('l, 'c, 'k) ct_factory \<Rightarrow> bool" where
  "cf_init f \<longleftrightarrow> (\<exists>appID account ca. f = CreateConsumedThingFactory appID account ca)"

text \<open>
  Any use of a factory: things consumed, destroyed and changed by their users, messages delivered, and the connection of the
  MQTT client coming and going; \<open>step_session\<close> is any change of the clients and tokens. The TD and the hooks of a thing are exported fields; users
  leave them alone.
\<close>

definition wiring :: "'l consumed_thing \<Rightarrow> thing_td \<times> nat option \<times> nat option" where
  "wiring c = (ct_TD c, ct_InvokeActionHook c, ct_WritePropertyHook c)"

inductive cf_step :: "('l, 'c, 'k) ct_factory \<Rightarrow> ('l, 'c, 'k) ct_factory \<Rightarrow> bool" where
  step_consume: "Consume td f = (r, f', calls) \<Longrightarrow> cf_step f f'"
| step_destroy: "cf_Destroy r f = Ret (f', calls) \<Longrightarrow> cf_step f f'"
| step_message: "cf_message b topic message f = Ret (f', calls) \<Longrightarrow> cf_step f f'"
| step_user: "cf_things f r = Some c \<Longrightarrow> wiring c' = wiring c \<Longrightarrow> cf_step f (f\<lparr>cf_things := (cf_things f)(r \<mapsto> c')\<rparr>)"
| step_session: "cf_step f (f\<lparr>cf_accessToken := t, cf_authClient := a, cf_dirClient := d, cf_connectionStatus := s,
    cf_mqttClient := m, cf_thingStore := ts\<rparr>)"

definition below :: "(nat \<rightharpoonup> 'a) \<Rightarrow> nat \<Rightarrow> bool" where
  "below m n \<longleftrightarrow> (\<forall>r. m r \<noteq> None \<longrightarrow> r < n)"

definition linked :: "(string \<rightharpoonup> nat) \<Rightarrow> (string \<rightharpoonup> nat) \<Rightarrow> (nat \<rightharpoonup> ct_binding) \<Rightarrow> bool" where
  "linked cts bs objs \<longleftrightarrow>
     (\<forall>i. case bs i of
        None \<Rightarrow> cts i = None
      | Some b \<Rightarrow> (\<exists>B. objs b = Some B \<and> td_ID (cb_td B) = i \<and> cts i = Some (cb_cThing B)))"

definition bound :: "(nat \<rightharpoonup> 'l consumed_thing) \<Rightarrow> (nat \<rightharpoonup> ct_binding) \<Rightarrow> bool" where
  "bound things objs \<longleftrightarrow>
     (\<forall>b B. objs b = Some B \<longrightarrow> (\<exists>c. things (cb_cThing B) = Some c \<and> wiring c = (cb_td B, Some b, Some b)))"

definition cf_inv :: "('l, 'c, 'k) ct_factory \<Rightarrow> bool" where
  "cf_inv f \<longleftrightarrow>
     below (cf_things f) (cf_next f) \<and> below (cf_bindingObjects f) (cf_next f) \<and>
     linked (cf_ctMap f) (cf_bindings f) (cf_bindingObjects f) \<and> bound (cf_things f) (cf_bindingObjects f)"

lemma below_upd: "below m n \<Longrightarrow> r < n' \<Longrightarrow> n \<le> n' \<Longrightarrow> below (m(r \<mapsto> x)) n'"
  by (auto simp: below_def intro: less_le_trans)

lemma below_same: "below m n \<Longrightarrow> m r = Some y \<Longrightarrow> below (m(r \<mapsto> x)) n"
  by (auto simp: below_def)

lemma below_fresh: "below m n \<Longrightarrow> n \<le> r \<Longrightarrow> m r = None"
  by (auto simp: below_def)

lemma linked_new:
  assumes "linked cts bs objs" and "objs b = None" and "td_ID (cb_td B) = i" and "cb_cThing B = r"
  shows "linked (cts(i \<mapsto> r)) (bs(i \<mapsto> b)) (objs(b \<mapsto> B))"
  unfolding linked_def
proof
  fix j
  from assms(1) have j: "case bs j of None \<Rightarrow> cts j = None
      | Some b \<Rightarrow> (\<exists>B. objs b = Some B \<and> td_ID (cb_td B) = j \<and> cts j = Some (cb_cThing B))"
    by (simp add: linked_def)
  show "case (bs(i \<mapsto> b)) j of None \<Rightarrow> (cts(i \<mapsto> r)) j = None
      | Some x \<Rightarrow> (\<exists>C. (objs(b \<mapsto> B)) x = Some C \<and> td_ID (cb_td C) = j \<and> (cts(i \<mapsto> r)) j = Some (cb_cThing C))"
  proof (cases "j = i")
    case True
    with assms show ?thesis by simp
  next
    case False
    with j assms(2) show ?thesis by (cases "bs j") auto
  qed
qed

lemma linked_del:
  assumes "linked cts bs objs"
  shows "linked (cts(i := None)) (bs(i := None)) objs"
  unfolding linked_def
proof
  fix j
  from assms have "case bs j of None \<Rightarrow> cts j = None
      | Some b \<Rightarrow> (\<exists>B. objs b = Some B \<and> td_ID (cb_td B) = j \<and> cts j = Some (cb_cThing B))"
    by (simp add: linked_def)
  then show "case (bs(i := None)) j of None \<Rightarrow> (cts(i := None)) j = None
      | Some b \<Rightarrow> (\<exists>B. objs b = Some B \<and> td_ID (cb_td B) = j \<and> (cts(i := None)) j = Some (cb_cThing B))"
    by (cases "j = i"; cases "bs j") simp_all
qed

lemma bound_thing:
  assumes "bound things objs" and "things r = Some c" and "wiring c' = wiring c"
  shows "bound (things(r \<mapsto> c')) objs"
  unfolding bound_def
proof (intro allI impI)
  fix b B
  assume "objs b = Some B"
  with assms(1) obtain x where x: "things (cb_cThing B) = Some x" "wiring x = (cb_td B, Some b, Some b)" unfolding bound_def by blast
  show "\<exists>c. (things(r \<mapsto> c')) (cb_cThing B) = Some c \<and> wiring c = (cb_td B, Some b, Some b)"
  proof (cases "cb_cThing B = r")
    case True
    with x assms(2,3) show ?thesis by simp
  next
    case False
    with x show ?thesis by simp
  qed
qed

lemma bound_new:
  assumes "bound things objs" and "things r = None" and "cb_cThing B = r" and "wiring c = (cb_td B, Some b, Some b)"
  shows "bound (things(r \<mapsto> c)) (objs(b \<mapsto> B))"
  unfolding bound_def
proof (intro allI impI)
  fix x X
  assume "(objs(b \<mapsto> B)) x = Some X"
  then consider "x = b" "X = B" | "objs x = Some X" by (cases "x = b") simp_all
  then show "\<exists>d. (things(r \<mapsto> c)) (cb_cThing X) = Some d \<and> wiring d = (cb_td X, Some x, Some x)"
  proof cases
    case 1
    with assms show ?thesis by simp
  next
    case 2
    with assms(1) obtain d where "things (cb_cThing X) = Some d" "wiring d = (cb_td X, Some x, Some x)" unfolding bound_def by blast
    moreover from this assms(2) have "cb_cThing X \<noteq> r" by auto
    ultimately show ?thesis by simp
  qed
qed

lemma cf_inv_things:
  "cf_inv f \<Longrightarrow> cf_things f r = Some c \<Longrightarrow> wiring c' = wiring c \<Longrightarrow>
     cf_inv (f\<lparr>cf_things := (cf_things f)(r \<mapsto> c')\<rparr>)"
  by (simp add: cf_inv_def below_same bound_thing)

lemma cf_inv_consume:
  assumes inv: "cf_inv f" and "Consume td f = (r, f', calls)"
  shows "cf_inv f'"
proof (cases "cf_ctMap f (td_ID td)")
  case (Some x)
  with assms show ?thesis by (simp add: Consume_def)
next
  case None
  let ?n = "cf_next f"
  let ?c = "(CreateConsumedThing td)\<lparr>ct_InvokeActionHook := Some (Suc ?n), ct_WritePropertyHook := Some (Suc ?n)\<rparr>"
  let ?B = "\<lparr>cb_td = td, cb_cThing = ?n\<rparr>"
  from inv have i: "below (cf_things f) ?n" "below (cf_bindingObjects f) ?n"
    "linked (cf_ctMap f) (cf_bindings f) (cf_bindingObjects f)" "bound (cf_things f) (cf_bindingObjects f)"
    by (simp_all add: cf_inv_def)
  have "below ((cf_things f)(?n \<mapsto> ?c)) (Suc (Suc ?n))" "below ((cf_bindingObjects f)(Suc ?n \<mapsto> ?B)) (Suc (Suc ?n))"
    using i by (auto intro: below_upd)
  moreover have "linked ((cf_ctMap f)(td_ID td \<mapsto> ?n)) ((cf_bindings f)(td_ID td \<mapsto> Suc ?n)) ((cf_bindingObjects f)(Suc ?n \<mapsto> ?B))"
    using below_fresh [OF i(2), of "Suc ?n"] by (intro linked_new i) simp_all
  moreover have "bound ((cf_things f)(?n \<mapsto> ?c)) ((cf_bindingObjects f)(Suc ?n \<mapsto> ?B))"
    using below_fresh [OF i(1), of ?n] by (intro bound_new i) (simp_all add: CreateConsumedThing_def wiring_def)
  ultimately show ?thesis using Consume_new [OF None] assms(2) by (auto simp: cf_inv_def)
qed

lemma cf_inv_destroy:
  assumes inv: "cf_inv f" and d: "cf_Destroy r f = Ret (f', calls)"
  shows "cf_inv f'"
proof -
  from d obtain c where c: "cf_things f r = Some c" by (auto simp: cf_Destroy_def split: option.splits)
  have "wiring (Stop c) = wiring c" by (simp add: Stop_def wiring_def)
  with cf_inv_things [OF inv c] have "cf_inv (f\<lparr>cf_things := (cf_things f)(r \<mapsto> Stop c)\<rparr>)" by blast
  with cf_Destroy_Ret [OF c] d show ?thesis by (auto simp: cf_inv_def linked_del)
qed

lemma handle_keeps_wiring:
  "HandleEvent n m c = Ret (c', calls) \<Longrightarrow> wiring c' = wiring c"
  "HandlePropertyChange n m c = Ret (c', calls) \<Longrightarrow> wiring c' = wiring c"
  by (auto simp: HandleEvent_def HandlePropertyChange_def Let_def putValue_def map_outcome_Ret_iff wiring_def split: option.splits)

lemma handleEvent_keeps_wiring: "handleEvent b t m c = Ret (c', calls) \<Longrightarrow> wiring c' = wiring c"
  by (auto simp: handleEvent_def bind_outcome_Ret_iff map_outcome_Ret_iff split: option.splits if_splits dest!: handle_keeps_wiring)

lemma cf_inv_message:
  assumes inv: "cf_inv f" and d: "cf_message b topic m f = Ret (f', calls)"
  shows "cf_inv f'"
proof -
  from d obtain B c c' cs where h: "cf_things f (cb_cThing B) = Some c" "handleEvent B topic m c = Ret (c', cs)"
    "f' = f\<lparr>cf_things := (cf_things f)(cb_cThing B \<mapsto> c')\<rparr>"
    by (auto simp: cf_message_def map_outcome_Ret_iff split: option.splits)
  show ?thesis unfolding h(3) by (rule cf_inv_things [OF inv h(1) handleEvent_keeps_wiring [OF h(2)]])
qed

interpretation factory_system: transition_system cf_init cf_step cf_inv
proof unfold_locales
  fix s :: "('a, 'b, 'c) ct_factory"
  show "cf_inv s" if "cf_init s"
    using that by (auto simp: cf_init_def cf_inv_def CreateConsumedThingFactory_def below_def linked_def bound_def)
next
  fix s t :: "('a, 'b, 'c) ct_factory"
  assume inv: "cf_inv s" and "cf_step s t"
  from this(2) show "cf_inv t"
  proof cases
    case step_consume
    then show ?thesis by (rule cf_inv_consume [OF inv])
  next
    case step_destroy
    then show ?thesis by (rule cf_inv_destroy [OF inv])
  next
    case step_message
    then show ?thesis by (rule cf_inv_message [OF inv])
  next
    case step_user
    then show ?thesis using cf_inv_things [OF inv] by simp
  next
    case step_session
    then show ?thesis using inv by (simp add: cf_inv_def)
  qed
qed

section \<open>Properties\<close>

lemma authenticate_returns:
  assumes "password \<noteq> []" and "cf_authClient f \<noteq> None"
  shows "\<exists>tok cl ts'. Authenticate env password f ts = Ret (None, f\<lparr>cf_authClient := Some cl, cf_accessToken := tok\<rparr>, ts')"
proof -
  from assms(2) obtain a where a: "cf_authClient f = Some a" by auto
  from login_returns [of env "ar_LoginName (cf_account f)" password "[]" a ts] obtain tok err cl' ts' reqs where
    "ConnectWithJWTLogin env (ar_LoginName (cf_account f)) password [] a ts = Ret (tok, err, cl', ts', reqs)" by blast
  with assms(1) show ?thesis
    by (intro exI [of _ "if err = None then tok else cf_accessToken f"] exI [of _ cl'] exI [of _ ts']) (simp add: Authenticate_def a)
qed

text \<open>
  C5: In every state a factory can get into, each consumed thing in its table has the ID it is filed under and a binding that points
  back at that very thing and has its TD, and both hooks of the thing lead to that binding and no other; an ID without a thing has no binding.
\<close>

theorem factory_consistent:
  assumes "reachable cf_init cf_step f"
  shows "case cf_ctMap f i of
      None \<Rightarrow> cf_bindings f i = None
    | Some r \<Rightarrow> (\<exists>b B c. cf_bindings f i = Some b \<and> cf_bindingObjects f b = Some B \<and> cb_cThing B = r \<and>
        cf_things f r = Some c \<and> GetThingDescription c = cb_td B \<and> GetID (cb_td B) = i \<and>
        ct_InvokeActionHook c = Some b \<and> ct_WritePropertyHook c = Some b)"
proof -
  have "cf_inv f" by (rule factory_system.reachable_inv [OF assms])
  then have l: "case cf_bindings f i of None \<Rightarrow> cf_ctMap f i = None
      | Some b \<Rightarrow> (\<exists>B. cf_bindingObjects f b = Some B \<and> td_ID (cb_td B) = i \<and> cf_ctMap f i = Some (cb_cThing B))"
    and b: "bound (cf_things f) (cf_bindingObjects f)"
    by (simp_all add: cf_inv_def linked_def)
  show ?thesis
  proof (cases "cf_bindings f i")
    case None
    with l show ?thesis by simp
  next
    case (Some x)
    with l obtain B where B: "cf_bindingObjects f x = Some B" "td_ID (cb_td B) = i" "cf_ctMap f i = Some (cb_cThing B)" by auto
    from b B(1) obtain c where "cf_things f (cb_cThing B) = Some c" "wiring c = (cb_td B, Some x, Some x)" unfolding bound_def by blast
    with B Some show ?thesis by (simp add: GetThingDescription_def GetID_def wiring_def)
  qed
qed

definition hub_account :: account_record where
  "hub_account = \<lparr>ar_Address = ''hub'', ar_ID = ''acc1'', ar_DisplayName = ''Hub'', ar_LoginName = ''user1'', ar_AuthPort = 8881,
     ar_DirectoryPort = 8886, ar_MqttPort = 8883, ar_Enabled = True, ar_RememberMe = False\<rparr>"

definition new_factory :: "(nat, nat, nat) ct_factory" where
  "new_factory = CreateConsumedThingFactory ''app1'' hub_account None"

definition lamp_factory :: "(nat, nat, nat) ct_factory" where
  "lamp_factory = snd (cf_create lamp_td new_factory)"

lemma new_factory_init: "cf_init new_factory"
  unfolding cf_init_def new_factory_def by blast

lemma lamp_factory_step: "cf_step new_factory lamp_factory"
proof -
  obtain r f' calls where c: "Consume lamp_td new_factory = (r, f', calls)" by (metis prod_cases3)
  then have "lamp_factory = f'" by (simp add: lamp_factory_def cf_create_def)
  with step_consume [OF c] show ?thesis by simp
qed

lemma lamp_ID: "td_ID lamp_td = ''urn:zone:lamp:light''"
  by (simp add: lamp_td_def CreateTD_def)

lemma lamp_factory_map: "cf_ctMap lamp_factory ''urn:zone:lamp:light'' = Some 0"
proof -
  have "cf_ctMap new_factory (td_ID lamp_td) = None" "cf_next new_factory = 0"
    by (simp_all add: new_factory_def CreateConsumedThingFactory_def)
  from Consume_new [OF this(1)] this(2) show ?thesis by (auto simp: lamp_factory_def cf_create_def lamp_ID)
qed

theorem factory_consistent_witness:
  "\<exists>c b. cf_things lamp_factory 0 = Some c \<and> GetID (GetThingDescription c) = ''urn:zone:lamp:light'' \<and>
     cf_bindings lamp_factory ''urn:zone:lamp:light'' = Some b \<and> ct_InvokeActionHook c = Some b"
proof -
  have "reachable cf_init cf_step new_factory" by (rule reach_init) (rule new_factory_init)
  then have "reachable cf_init cf_step lamp_factory" by (rule reach_step) (rule lamp_factory_step)
  from factory_consistent [OF this, of "''urn:zone:lamp:light''"] show ?thesis
    unfolding lamp_factory_map by auto
qed

text \<open>
  Consuming a TD again returns the instance of the first time, changes nothing and sends nothing; destroying it removes it
  and its binding, and no other.
\<close>

theorem consume_same_instance:
  assumes "Consume td f = (r, f', calls)"
  shows "Consume td f' = (r, f', []) \<and> cf_ctMap f' (td_ID td) = Some r \<and>
    (\<forall>i. i \<noteq> td_ID td \<longrightarrow> cf_ctMap f' i = cf_ctMap f i) \<and>
    (\<forall>f'' calls'. cf_Destroy r f = Ret (f'', calls') \<longrightarrow> (\<exists>i. cf_ctMap f'' = (cf_ctMap f)(i := None) \<and>
       cf_bindings f'' = (cf_bindings f)(i := None)))"
proof -
  have c: "cf_create td f = (r, f')" using assms by (simp add: cf_create_def)
  have m: "cf_ctMap f' (td_ID td) = Some r" using consumed.create_instance [of td f] c by simp
  moreover have "cf_ctMap f' i = cf_ctMap f i" if "i \<noteq> td_ID td" for i
    using consumed.create_other [OF that, of f] c by simp
  moreover have "\<exists>i. cf_ctMap f'' = (cf_ctMap f)(i := None) \<and> cf_bindings f'' = (cf_bindings f)(i := None)"
    if d: "cf_Destroy r f = Ret (f'', calls')" for f'' calls'
  proof -
    have r: "cf_remove r f = Some f''" using d by (simp add: cf_remove_def)
    then obtain i where "cf_id_of f r = Some i" using consumed.remove_none [of f r] by (cases "cf_id_of f r") auto
    from consumed.remove_some [OF this] r show ?thesis by auto
  qed
  ultimately show ?thesis by (simp add: Consume_def)
qed

theorem consume_same_instance_witness:
  "fst (cf_create lamp_td lamp_factory) = fst (cf_create lamp_td new_factory)"
proof -
  obtain r f' calls where c: "Consume lamp_td new_factory = (r, f', calls)" by (metis prod_cases3)
  then have "lamp_factory = f'" by (simp add: lamp_factory_def cf_create_def)
  with consume_same_instance [OF c] c show ?thesis by (simp add: cf_create_def)
qed

lemma Disconnect_online:
  "mc_pahoClient m \<noteq> None \<Longrightarrow> handler_of (fst (Disconnect m)) t = None"
  by (simp add: Disconnect_def Let_def handler_of_def)

lemma Disconnect_timeout [simp]: "mc_timeout (fst (Disconnect m)) = mc_timeout m"
  by (simp add: Disconnect_def Let_def)

lemma start_session_eq:
  "\<exists>calls. start_session f =
     (f\<lparr>cf_mqttClient := fst (Disconnect (cf_mqttClient f)),
        cf_connectionStatus := (cf_connectionStatus f)\<lparr>cs_Connected := False, cs_StatusMessage := []\<rparr>,
        cf_thingStore := Load (NewThingStore (ar_ID (cf_account f)))\<rparr>, calls)"
  by (cases "Disconnect (cf_mqttClient f)") (simp add: start_session_def cf_Disconnect_def)

text \<open>
  C38: Connecting with a password always returns. A factory that was connected before keeps its consumed things, but their
  event subscriptions are gone, and consuming a thing again does not bring them back.
\<close>

theorem reconnect_drops_subscriptions:
  assumes "password \<noteq> []" and "cf_authClient f = Some a" and "0 < mc_timeout (cf_mqttClient f)"
    and "mc_pahoClient (cf_mqttClient f) \<noteq> None" and "cf_ctMap f (td_ID td) = Some r"
  shows "\<exists>err f' ts' calls. cf_Connect env cenv password f ts = Some (Ret (err, f', ts', calls)) \<and>
    handler_of (cf_mqttClient f') topic = None \<and> Consume td f' = (r, f', [])"
proof -
  let ?m = "fst (Disconnect (cf_mqttClient f))"
  from start_session_eq [of f] obtain calls where s: "start_session f =
     (f\<lparr>cf_mqttClient := ?m,
        cf_connectionStatus := (cf_connectionStatus f)\<lparr>cs_Connected := False, cs_StatusMessage := []\<rparr>,
        cf_thingStore := Load (NewThingStore (ar_ID (cf_account f)))\<rparr>, calls)" by blast
  let ?g = "f\<lparr>cf_mqttClient := ?m,
        cf_connectionStatus := (cf_connectionStatus f)\<lparr>cs_Connected := False, cs_StatusMessage := []\<rparr>,
        cf_thingStore := Load (NewThingStore (ar_ID (cf_account f))), cf_authClient := Some (fst (ConnectNoAuth a ts))\<rparr>"
  from authenticate_returns [OF assms(1), of ?g env "snd (ConnectNoAuth a ts)"] obtain tok cl ts2 where
    auth: "Authenticate env password ?g (snd (ConnectNoAuth a ts)) =
      Ret (None, ?g\<lparr>cf_authClient := Some cl, cf_accessToken := tok\<rparr>, ts2)" by auto
  obtain a1 ts1 where a1: "ConnectNoAuth a ts = (a1, ts1)" by (metis surj_pair)
  obtain d ts3 where d: "ConnectWithJwtAccessToken (ar_LoginName (cf_account f)) tok (cf_dirClient f) ts2 = (d, ts3)" by (metis surj_pair)
  have "0 < mc_timeout ?m" using assms(3) by simp
  from connect_result [OF this, of cenv "host_port (ar_Address (cf_account f)) (ar_MqttPort (cf_account f))"
      "ar_LoginName (cf_account f)" tok None] obtain err m2 calls2 where
    c: "ConnectWithAccessToken cenv (host_port (ar_Address (cf_account f)) (ar_MqttPort (cf_account f)))
          (ar_LoginName (cf_account f)) tok ?m = Some (err, m2, calls2)" "mc_subscriptions m2 = mc_subscriptions ?m"
    by (auto simp: ConnectWithAccessToken_def)
  have "handler_of m2 topic = None"
    using c(2) Disconnect_online [OF assms(4), of topic] by (simp add: handler_of_def)
  with assms(2,5) auth c(1) a1 d show ?thesis by (simp add: cf_Connect_def s Let_def Consume_def)
qed

definition online_factory :: "(nat, nat, nat) ct_factory" where
  "online_factory = lamp_factory\<lparr>cf_mqttClient := (cf_mqttClient lamp_factory)\<lparr>mc_pahoClient := Some
     \<lparr>po_broker = ''tls://hub:8883/'', po_clientID = ''app1'', po_username = ''user1'', po_password = ''t'', po_certificate = None,
      po_rootCA = None, po_insecureSkipVerify = False\<rparr>\<rparr>\<rparr>"

lemma lamp_factory_fields:
  "cf_authClient lamp_factory \<noteq> None" "0 < mc_timeout (cf_mqttClient lamp_factory)"
proof -
  have "cf_ctMap new_factory (td_ID lamp_td) = None"
    by (simp add: new_factory_def CreateConsumedThingFactory_def)
  from Consume_new [OF this] show "cf_authClient lamp_factory \<noteq> None" "0 < mc_timeout (cf_mqttClient lamp_factory)"
    by (auto simp: lamp_factory_def cf_create_def new_factory_def CreateConsumedThingFactory_def Subscribe_def Let_def
        NewMqttClient_def DefaultTimeoutSec_def)
qed

theorem reconnect_drops_subscriptions_witness:
  "\<exists>err f' ts' calls. cf_Connect ok_env refused_then_up ''secret'' online_factory (\<lambda>_. None) = Some (Ret (err, f', ts', calls)) \<and>
     handler_of (cf_mqttClient f') ''things/urn:zone:lamp:light/event/#'' = None"
proof -
  from lamp_factory_fields obtain a where "cf_authClient online_factory = Some a" by (auto simp: online_factory_def)
  moreover have "0 < mc_timeout (cf_mqttClient online_factory)" "mc_pahoClient (cf_mqttClient online_factory) \<noteq> None"
    "cf_ctMap online_factory (td_ID lamp_td) = Some 0"
    using lamp_factory_fields lamp_factory_map by (simp_all add: online_factory_def lamp_ID)
  ultimately show ?thesis
    using reconnect_drops_subscriptions [of "''secret''" online_factory a lamp_td 0 ok_env refused_then_up "\<lambda>_. None"
        "''things/urn:zone:lamp:light/event/#''"] by blast
qed

text \<open>
  Authenticate never returns an error. A refused login leaves the old access token in place and is reported as a success,
  so Connect goes on with that token.
\<close>

theorem refused_login_unreported:
  assumes "cf_authClient f = Some a" and "password \<noteq> []"
    and "ConnectWithJWTLogin env (ar_LoginName (cf_account f)) password [] a ts = Ret (tok, Some e, a', ts', reqs)"
  shows "Authenticate env password f ts = Ret (None, f\<lparr>cf_authClient := Some a'\<rparr>, ts')"
  using assms by (cases f) (simp add: Authenticate_def)

theorem refused_login_unreported_witness:
  "\<exists>a' ts'. Authenticate garbage_env ''good password'' (new_factory\<lparr>cf_authClient := Some token_client\<rparr>) (\<lambda>_. None) =
     Ret (None, new_factory\<lparr>cf_authClient := Some a'\<rparr>, ts')"
proof -
  let ?f = "new_factory\<lparr>cf_authClient := Some token_client\<rparr>"
  have "tc_jwtAccessToken token_client \<noteq> []" "he_token garbage_env (tc_jwtAccessToken token_client) = TokenUnparsable"
    by (simp_all add: token_client_fields garbage_env_def)
  then obtain e a' tr where
    "ConnectWithJWTLogin garbage_env (ar_LoginName (cf_account ?f)) ''good password'' [] token_client (\<lambda>_. None) = Ret ([], Some e, a', tr, [])"
    using token_client_fields
    by (auto simp: ConnectWithJWTLogin_def Let_def tls_connect_def invoke_stale login_response_def)
  with refused_login_unreported [of ?f token_client "''good password''" garbage_env "\<lambda>_. None"] show ?thesis by auto
qed

text \<open>
  C39: Connecting without a password, while the server refuses to refresh the token with a status of 400 or more, panics: the
  refresh returns nil tokens and no error.
\<close>

theorem refused_refresh_panics:
  fixes f :: "('l, 'c, 'k) ct_factory"
  assumes "cf_authClient f = Some a" and "he_newRequest env = (\<lambda>_ _. None)"
    and "\<And>req. \<exists>resp. he_do env req = Inr resp \<and> 400 \<le> rs_StatusCode resp"
  shows "cf_Connect env cenv [] f ts = Some (Panic NilDereference)"
proof -
  obtain a1 ts1 where a1: "ConnectNoAuth a ts = (a1, ts1)" by (metis surj_pair)
  then have "tc_httpClient a1 \<noteq> None" by (auto simp: ConnectNoAuth_def tls_connect_def Let_def)
  moreover obtain resp where
    "he_do env \<lparr>rq_method = ''POST'', rq_url = ''https://'' @ tc_hostPort a1 @ DefaultJWTRefreshPath,
       rq_authorization = NoAuthorization, rq_body = []\<rparr> = Inr resp" "400 \<le> rs_StatusCode resp"
    using assms(3) by blast
  ultimately have "\<exists>reqs. RefreshJWTTokens env [] a1 = Ret (None, None, a1, reqs)"
    using assms(2) by (simp add: RefreshJWTTokens_def Let_def)
  then have "Authenticate env [] g ts1 = Panic NilDereference" if "cf_authClient g = Some a1"
    for g :: "('l, 'c, 'k) ct_factory"
    using that by (auto simp: Authenticate_def)
  then show ?thesis using start_session_eq [of f] assms(1) a1 by (auto simp: cf_Connect_def Let_def)
qed

theorem refused_refresh_panics_witness:
  "cf_Connect expired_env refused_then_up [] new_factory (\<lambda>_. None) = Some (Panic NilDereference)"
  by (rule refused_refresh_panics) (auto simp: new_factory_def CreateConsumedThingFactory_def expired_env_def)

text \<open>
  Destroying an instance that was destroyed before and consumed anew removes the binding and the entry of the new
  instance, which stays in use with no events.
\<close>

theorem stale_destroy:
  assumes "cf_things f r = Some c" and "cf_ctMap f (td_ID (ct_TD c)) = Some r'" and "r' \<noteq> r"
  shows "\<exists>f' calls. cf_Destroy r f = Ret (f', calls) \<and> cf_ctMap f' (td_ID (ct_TD c)) = None \<and>
    cf_bindings f' (td_ID (ct_TD c)) = None \<and> cf_things f' r' = cf_things f r'"
  using cf_Destroy_Ret [OF assms(1)] assms(3) by auto

definition renewed_factory :: "(nat, nat, nat) ct_factory" where
  "renewed_factory = snd (cf_create lamp_td (the (cf_remove 0 lamp_factory)))"

lemma lamp_factory_thing:
  "\<exists>c. cf_things lamp_factory 0 = Some c \<and> ct_TD c = lamp_td" "cf_next lamp_factory = 2"
proof -
  have "cf_ctMap new_factory (td_ID lamp_td) = None" "cf_next new_factory = 0"
    by (simp_all add: new_factory_def CreateConsumedThingFactory_def)
  from Consume_new [OF this(1)] this(2)
  show "\<exists>c. cf_things lamp_factory 0 = Some c \<and> ct_TD c = lamp_td" "cf_next lamp_factory = 2"
    by (auto simp: lamp_factory_def cf_create_def CreateConsumedThing_def)
qed

theorem stale_destroy_witness:
  "\<exists>f' calls. cf_Destroy 0 renewed_factory = Ret (f', calls) \<and> cf_ctMap f' ''urn:zone:lamp:light'' = None"
proof -
  from lamp_factory_thing obtain c where c: "cf_things lamp_factory 0 = Some c" "ct_TD c = lamp_td" by blast
  from cf_Destroy_Ret [OF c(1)] c(2) obtain g where
    g: "cf_remove 0 lamp_factory = Some g" "cf_ctMap g (td_ID lamp_td) = None" "cf_next g = 2" "cf_things g 0 = Some (Stop c)"
    using lamp_factory_thing(2) by (auto simp: cf_remove_def)
  from Consume_new [OF g(2)] g(1,3,4) have
    "cf_things renewed_factory 0 = Some (Stop c)" "cf_ctMap renewed_factory (td_ID lamp_td) = Some 2"
    by (auto simp: renewed_factory_def cf_create_def)
  moreover have "ct_TD (Stop c) = lamp_td" by (simp add: Stop_def c(2))
  ultimately show ?thesis
    using stale_destroy [of renewed_factory 0 "Stop c" 2] by (auto simp: lamp_ID)
qed

end
