(* ===== verification/ExposedThing.thy ===== *)
theory ExposedThing
  imports InteractionOutput Topics MqttClient ThingFactory
begin

text \<open>
  Exposed things (\<open>pkg/exposedthing\<close>: ExposedThing.go), their MQTT binding (ExposedThingMqttBinding.go) and the factory
  (ExposedThingFactory.go): events and property changes going out, action and property write requests coming in.

  Handlers are a type parameter and a stored handler may be nil. An operation that calls a handler returns the call, with the value
  passed; what the handler does afterwards is a step of its own. The hooks are the reference of the binding whose methods they are. The
  log is left out; the mutexes, with the read lock that a property write handler runs under, are in Locking.
\<close>

section \<open>Data\<close>

record 'h exposed_thing =
  et_DeviceID :: string
  et_EmitEventHook :: "nat option"
  et_EmitPropertyChangeHook :: "nat option"
  et_actionHandlers :: "'h option gomap"
  et_propertyWriteHandlers :: "'h option gomap"
  et_TD :: thing_td
  et_valueStore :: "string \<rightharpoonup> interaction_output"

type_synonym 'h handler_call = "'h \<times> string \<times> interaction_output"

section \<open>Operations of the thing\<close>

definition CreateExposedThing :: "string \<Rightarrow> thing_td \<Rightarrow> 'h exposed_thing" where
  "CreateExposedThing deviceID td =
     \<lparr>et_DeviceID = deviceID, et_EmitEventHook = None, et_EmitPropertyChangeHook = None,
      et_actionHandlers = Some Map.empty, et_propertyWriteHandlers = Some Map.empty, et_TD = td,
      et_valueStore = Map.empty\<rparr>"

definition et_Destroy :: "'h exposed_thing \<Rightarrow> 'h exposed_thing" where
  "et_Destroy eThing = eThing\<lparr>et_propertyWriteHandlers := None, et_actionHandlers := None\<rparr>"

definition et_GetThingDescription :: "'h exposed_thing \<Rightarrow> thing_td" where
  "et_GetThingDescription eThing = et_TD eThing"

definition GetValue :: "'h exposed_thing \<Rightarrow> string \<Rightarrow> interaction_output option" where
  "GetValue eThing key = et_valueStore eThing key"

text \<open>\<open>hook b name data\<close> is what the method of binding \<open>b\<close> returns and does.\<close>

definition EmitEvent ::
    "(nat \<Rightarrow> string \<Rightarrow> goval \<Rightarrow> error option \<times> 'e list) \<Rightarrow> string \<Rightarrow> goval \<Rightarrow> 'h exposed_thing \<Rightarrow> error option \<times> 'e list" where
  "EmitEvent hook name data eThing =
     (if table_get (td_Events (et_TD eThing)) name = None then (Some ''NotFoundError'', [])
      else
        case et_EmitEventHook eThing of
          None \<Rightarrow> (Some ''EmitEventHook not installed error'', [])
        | Some b \<Rightarrow> hook b name data)"

text \<open>Whether the last value is known and equal; comparing two slices or two maps panics.\<close>

definition unchanged :: "'h exposed_thing \<Rightarrow> string \<Rightarrow> goval \<Rightarrow> bool outcome" where
  "unchanged eThing propName newRawValue =
     (case GetValue eThing propName of None \<Rightarrow> Ret False | Some io \<Rightarrow> iface_eq (io_Value io) newRawValue)"

definition EmitPropertyChange ::
    "(nat \<Rightarrow> string \<Rightarrow> goval \<Rightarrow> error option \<times> 'e list) \<Rightarrow> string \<Rightarrow> goval \<Rightarrow> bool \<Rightarrow> 'h exposed_thing \<Rightarrow>
      (error option \<times> 'h exposed_thing \<times> 'e list) outcome" where
  "EmitPropertyChange hook propName newRawValue changesOnly eThing =
     (case GetProperty (et_TD eThing) propName of
        None \<Rightarrow>
          Ret (Some (''Property '' @ apostrophe @ propName @ apostrophe @ '' does not exist on Thing '' @ apostrophe @
                     td_ID (et_TD eThing) @ apostrophe), eThing, [])
      | Some affordance \<Rightarrow>
          bind_outcome (if changesOnly then unchanged eThing propName newRawValue else Ret False) (\<lambda>same.
            if same then Ret (None, eThing, [])
            else
              let io = NewInteractionOutput newRawValue (Some (pa_DataSchema affordance));
                  eThing = eThing\<lparr>et_valueStore := (et_valueStore eThing)(propName \<mapsto> io)\<rparr> in
              case et_EmitPropertyChangeHook eThing of
                None \<Rightarrow> Ret (Some ''EmitPropertyChangeHook not installed error'', eThing, [])
              | Some b \<Rightarrow> (case hook b propName newRawValue of (err, es) \<Rightarrow> Ret (err, eThing, es))))"

text \<open>The handler of a name, else the default handler under the empty name.\<close>

definition pick_handler :: "'h option gomap \<Rightarrow> string \<Rightarrow> 'h option" where
  "pick_handler handlers name =
     (case ptr_get handlers name of Some h \<Rightarrow> Some h | None \<Rightarrow> ptr_get handlers [])"

definition handlePropertyWriteRequest :: "string \<Rightarrow> string \<Rightarrow> 'h exposed_thing \<Rightarrow> 'h handler_call list" where
  "handlePropertyWriteRequest propName message eThing =
     (if et_propertyWriteHandlers eThing = None then []
      else
        case json_unmarshal message of
          None \<Rightarrow> []
        | Some propValue \<Rightarrow>
            (case GetProperty (et_TD eThing) propName of
               None \<Rightarrow> []
             | Some propAffordance \<Rightarrow>
                 if ds_ReadOnly (pa_DataSchema propAffordance) then []
                 else
                   let propValue = NewInteractionOutput propValue (Some (pa_DataSchema propAffordance)) in
                   case pick_handler (et_propertyWriteHandlers eThing) propName of
                     None \<Rightarrow> []
                   | Some h \<Rightarrow> [(h, propName, propValue)]))"

definition HandleActionRequest :: "string \<Rightarrow> string \<Rightarrow> 'h exposed_thing \<Rightarrow> 'h handler_call list" where
  "HandleActionRequest actionName message eThing =
     (case GetAction (et_TD eThing) actionName of
        Some actionAffordance \<Rightarrow>
          let actionData = NewInteractionOutputFromJson (Some message) (Some (aa_Input actionAffordance)) in
          (case pick_handler (et_actionHandlers eThing) actionName of
             None \<Rightarrow> []
           | Some h \<Rightarrow> [(h, actionName, actionData)])
      | None \<Rightarrow> handlePropertyWriteRequest actionName message eThing)"

definition SetActionHandler :: "string \<Rightarrow> 'h option \<Rightarrow> 'h exposed_thing \<Rightarrow> 'h exposed_thing outcome" where
  "SetActionHandler actionName actionHandler eThing =
     map_outcome (\<lambda>m. eThing\<lparr>et_actionHandlers := m\<rparr>) (gomap_set (et_actionHandlers eThing) actionName actionHandler)"

definition SetPropertyWriteHandler :: "string \<Rightarrow> 'h option \<Rightarrow> 'h exposed_thing \<Rightarrow> 'h exposed_thing outcome" where
  "SetPropertyWriteHandler propName writeHandler eThing =
     map_outcome (\<lambda>m. eThing\<lparr>et_propertyWriteHandlers := m\<rparr>)
       (gomap_set (et_propertyWriteHandlers eThing) propName writeHandler)"

section \<open>The binding\<close>

record et_binding =
  eb_eThing :: nat
  eb_td :: thing_td

definition et_binding_EmitEvent ::
    "bool \<Rightarrow> error option \<Rightarrow> et_binding \<Rightarrow> ('m, 'c, 'k) mqtt_client \<Rightarrow> string \<Rightarrow> goval \<Rightarrow>
      error option \<times> ('m, 'c, 'k) paho_call list" where
  "et_binding_EmitEvent isConnected answer binding mqttClient name data =
     PublishObject isConnected answer (thing_topic TopicEmitEvent (td_ID (eb_td binding)) @ ''/'' @ name) (to_json data) mqttClient"

definition et_binding_EmitPropertyChange ::
    "bool \<Rightarrow> error option \<Rightarrow> et_binding \<Rightarrow> ('m, 'c, 'k) mqtt_client \<Rightarrow> string \<Rightarrow> goval \<Rightarrow>
      error option \<times> ('m, 'c, 'k) paho_call list" where
  "et_binding_EmitPropertyChange isConnected answer binding mqttClient name data =
     PublishObject isConnected answer (thing_topic TopicEmitEvent (td_ID (eb_td binding)) @ ''/'' @ name) (to_json data) mqttClient"

definition handleActionRequest :: "string \<Rightarrow> string \<Rightarrow> 'h exposed_thing \<Rightarrow> 'h handler_call list" where
  "handleActionRequest address message eThing =
     (case SplitTopic address of
        (thingID, messageType, actionName) \<Rightarrow>
          if thingID = [] \<or> messageType = [] then [] else HandleActionRequest actionName message eThing)"

definition action_topic :: "et_binding \<Rightarrow> string" where
  "action_topic binding = thing_topic TopicInvokeAction (td_ID (eb_td binding)) @ ''/#''"

text \<open>The error of publishing the TD is dropped. \<open>h\<close> stands for the method value \<open>binding.handleActionRequest\<close>.\<close>

definition et_binding_Start ::
    "bool \<Rightarrow> error option \<Rightarrow> 'm \<Rightarrow> et_binding \<Rightarrow> ('m, 'c, 'k) mqtt_client \<Rightarrow>
      ('m, 'c, 'k) mqtt_client \<times> ('m, 'c, 'k) paho_call list" where
  "et_binding_Start isConnected answer h binding mqttClient =
     (case Subscribe (action_topic binding) h mqttClient of
        (mqttClient, calls) \<Rightarrow>
          (case PublishObject isConnected answer (thing_topic TopicThingTD (td_ID (eb_td binding)))
              (struct_json (td_fields (eb_td binding))) mqttClient of
             (err, calls2) \<Rightarrow> (mqttClient, calls @ calls2)))"

definition et_binding_Stop ::
    "et_binding \<Rightarrow> ('m, 'c, 'k) mqtt_client \<Rightarrow> ('m, 'c, 'k) mqtt_client \<times> ('m, 'c, 'k) paho_call list" where
  "et_binding_Stop binding mqttClient = Unsubscribe (action_topic binding) mqttClient"

text \<open>\<open>ref\<close> and \<open>bref\<close> are the references of the thing and of the new binding.\<close>

definition CreateExposedThingMqttBinding :: "nat \<Rightarrow> nat \<Rightarrow> 'h exposed_thing \<Rightarrow> et_binding \<times> 'h exposed_thing" where
  "CreateExposedThingMqttBinding ref bref eThing =
     (\<lparr>eb_eThing = ref, eb_td = et_TD eThing\<rparr>,
      eThing\<lparr>et_EmitPropertyChangeHook := Some bref, et_EmitEventHook := Some bref\<rparr>)"

section \<open>The factory\<close>

record ('h, 'c, 'k) et_factory =
  ef_bindings :: "string \<rightharpoonup> nat"
  ef_clientCert :: "'k option"
  ef_etMap :: "string \<rightharpoonup> nat"
  ef_mqttClient :: "(nat, 'c, 'k) mqtt_client"
  ef_things :: "nat \<rightharpoonup> 'h exposed_thing"
  ef_bindingObjects :: "nat \<rightharpoonup> et_binding"
  ef_next :: nat

definition CreateExposedThingFactory :: "string \<Rightarrow> 'k option \<Rightarrow> 'c option \<Rightarrow> ('h, 'c, 'k) et_factory" where
  "CreateExposedThingFactory appID clientCert caCert =
     \<lparr>ef_bindings = Map.empty, ef_clientCert = clientCert, ef_etMap = Map.empty,
      ef_mqttClient = NewMqttClient appID caCert 0, ef_things = Map.empty, ef_bindingObjects = Map.empty, ef_next = 0\<rparr>"

definition ef_Connect ::
    "connect_env \<Rightarrow> string \<Rightarrow> int \<Rightarrow> ('h, 'c, 'k) et_factory \<Rightarrow>
      (error option \<times> ('h, 'c, 'k) et_factory \<times> (nat, 'c, 'k) paho_call list) option" where
  "ef_Connect cenv address mqttPort etFactory =
     map_option (\<lambda>(err, mqtt, calls). (err, etFactory\<lparr>ef_mqttClient := mqtt\<rparr>, calls))
       (ConnectWithClientCert cenv (address @ '':'' @ show_int mqttPort) (ef_clientCert etFactory) (ef_mqttClient etFactory))"

definition ef_Disconnect :: "('h, 'c, 'k) et_factory \<Rightarrow> ('h, 'c, 'k) et_factory \<times> (nat, 'c, 'k) paho_call list" where
  "ef_Disconnect etFactory =
     (case Disconnect (ef_mqttClient etFactory) of (mqtt, calls) \<Rightarrow> (etFactory\<lparr>ef_mqttClient := mqtt\<rparr>, calls))"

text \<open>The thing, whether it was there before, the factory and the calls on Paho.\<close>

definition Expose ::
    "bool \<Rightarrow> error option \<Rightarrow> string \<Rightarrow> thing_td \<Rightarrow> ('h, 'c, 'k) et_factory \<Rightarrow>
      nat \<times> bool \<times> ('h, 'c, 'k) et_factory \<times> (nat, 'c, 'k) paho_call list" where
  "Expose isConnected answer deviceID td etFactory =
     (case ef_etMap etFactory (td_ID td) of
        Some eThing \<Rightarrow> (eThing, True, etFactory, [])
      | None \<Rightarrow>
          let ref = ef_next etFactory; bref = Suc ref in
          (case CreateExposedThingMqttBinding ref bref (CreateExposedThing deviceID td) of
             (binding, eThing) \<Rightarrow>
               (case et_binding_Start isConnected answer bref binding (ef_mqttClient etFactory) of
                  (mqtt, calls) \<Rightarrow>
                    (ref, False,
                     etFactory\<lparr>ef_bindings := (ef_bindings etFactory)(td_ID td \<mapsto> bref),
                       ef_etMap := (ef_etMap etFactory)(td_ID td \<mapsto> ref),
                       ef_mqttClient := mqtt,
                       ef_things := (ef_things etFactory)(ref \<mapsto> eThing),
                       ef_bindingObjects := (ef_bindingObjects etFactory)(bref \<mapsto> binding),
                       ef_next := Suc bref\<rparr>,
                     calls))))"

definition ef_Destroy ::
    "nat \<Rightarrow> ('h, 'c, 'k) et_factory \<Rightarrow> (('h, 'c, 'k) et_factory \<times> (nat, 'c, 'k) paho_call list) outcome" where
  "ef_Destroy ref etFactory =
     (case ef_things etFactory ref of
        None \<Rightarrow> Panic NilDereference
      | Some eThing \<Rightarrow>
          let ID = td_ID (et_TD eThing) in
          (case (case ef_bindings etFactory ID of
                   None \<Rightarrow> (etFactory, [])
                 | Some bref \<Rightarrow>
                     (case et_binding_Stop (the (ef_bindingObjects etFactory bref)) (ef_mqttClient etFactory) of
                        (mqtt, calls) \<Rightarrow>
                          (etFactory\<lparr>ef_mqttClient := mqtt, ef_bindings := (ef_bindings etFactory)(ID := None)\<rparr>, calls))) of
             (etFactory, calls) \<Rightarrow>
               Ret (etFactory\<lparr>ef_things := (ef_things etFactory)(ref \<mapsto> et_Destroy eThing),
                      ef_etMap := (ef_etMap etFactory)(ID := None)\<rparr>, calls)))"

section \<open>Handlers\<close>

interpretation action_handlers: keyed_store "\<lambda>e n. gomap_get (et_actionHandlers e) n" SetActionHandler
    "\<lambda>e. et_actionHandlers e \<noteq> None"
  by unfold_locales (auto simp: SetActionHandler_def map_outcome_Ret_iff)

interpretation write_handlers: keyed_store "\<lambda>e n. gomap_get (et_propertyWriteHandlers e) n" SetPropertyWriteHandler
    "\<lambda>e. et_propertyWriteHandlers e \<noteq> None"
  by unfold_locales (auto simp: SetPropertyWriteHandler_def map_outcome_Ret_iff)

lemma ptr_get_via: "ptr_get m k = ptr_of (gomap_get m k)"
  by (simp add: ptr_get_def ptr_of_def)

lemma set_handlers_frame:
  "SetActionHandler n h e = Ret e' \<Longrightarrow> et_TD e' = et_TD e \<and> et_propertyWriteHandlers e' = et_propertyWriteHandlers e"
  "SetPropertyWriteHandler n h e = Ret e' \<Longrightarrow> et_TD e' = et_TD e \<and> et_actionHandlers e' = et_actionHandlers e"
  by (auto simp: SetActionHandler_def SetPropertyWriteHandler_def map_outcome_Ret_iff)

text \<open>The handler a history of settings leaves for a name, else the one for the empty name.\<close>

definition last_set :: "(string \<times> 'h option) list \<Rightarrow> string \<Rightarrow> 'h option" where
  "last_set hs n = ptr_of (map_of (rev hs) n)"

definition chosen :: "(string \<times> 'h option) list \<Rightarrow> string \<Rightarrow> 'h option" where
  "chosen hs n = (case last_set hs n of Some h \<Rightarrow> Some h | None \<Rightarrow> last_set hs [])"

lemma chosen_handlers:
  assumes "put_all SetActionHandler hs (CreateExposedThing d td) = Ret e"
  shows "pick_handler (et_actionHandlers e) n = chosen hs n"
proof -
  have "gomap_get (et_actionHandlers e) m = map_of (rev hs) m" for m
    using action_handlers.put_all_look [OF _ assms, of m]
    by (simp add: CreateExposedThing_def split: option.splits)
  then show ?thesis by (simp add: pick_handler_def chosen_def last_set_def ptr_get_via split: option.split)
qed

lemma put_all_frame_td:
  "put_all SetActionHandler hs e = Ret e' \<Longrightarrow> et_TD e' = et_TD e \<and> et_propertyWriteHandlers e' = et_propertyWriteHandlers e"
  "put_all SetPropertyWriteHandler hs e = Ret e' \<Longrightarrow> et_TD e' = et_TD e \<and> et_actionHandlers e' = et_actionHandlers e"
proof (induction hs arbitrary: e)
  case (Cons x hs)
  {
    case 1
    with Cons.IH(1) set_handlers_frame(1) show ?case by (cases x) (fastforce simp: bind_outcome_Ret_iff)
  next
    case 2
    with Cons.IH(2) set_handlers_frame(2) show ?case by (cases x) (fastforce simp: bind_outcome_Ret_iff)
  }
qed auto

section \<open>Properties\<close>

lemma handle_topic:
  assumes "no_slash (td_ID td)" and "no_slash name" and "td_ID td \<noteq> []"
  shows "handleActionRequest (thing_topic TopicInvokeAction (td_ID td) @ ''/'' @ name) message e =
    HandleActionRequest name message e"
proof -
  have "SplitTopic (''things/'' @ td_ID td @ ''/'' @ ''action'' @ ''/'' @ name) = (td_ID td, ''action'', name)"
    using split_named_topic [OF assms(1), of "''action''" name] assms(2) split_on_no_sep [of "CHR ''/''" name]
    by (simp add: SplitTopic_def no_slash_def)
  then show ?thesis using assms(3) by (simp add: handleActionRequest_def thing_topics)
qed

text \<open>
  A request on the action topic of the thing whose payload is a marshalled value. If the name is an action, its handler is called
  once with that value; else, if it is a property that is not read-only, the write handler is called once. The handler is the one last
  set for the name, or the default one if that is nil. In every other case nothing is called.
\<close>

theorem request_dispatched:
  assumes "no_slash (td_ID td)" and "td_ID td \<noteq> []" and "no_slash name" and "goval_ok v"
    and "put_all SetActionHandler ahs (CreateExposedThing d td) = Ret e1"
    and "put_all SetPropertyWriteHandler whs e1 = Ret e"
    and "\<And>aa. GetAction td name = Some aa \<Longrightarrow> \<not> object_schema (Some (aa_Input aa))"
  shows "map (\<lambda>(h, n, io). (h, n, io_Value io))
      (handleActionRequest (thing_topic TopicInvokeAction (td_ID td) @ ''/'' @ name) (json_marshal v) e) =
    (case (GetAction td name, GetProperty td name) of
       (Some aa, _) \<Rightarrow> map (\<lambda>h. (h, name, canon v)) (case chosen ahs name of None \<Rightarrow> [] | Some h \<Rightarrow> [h])
     | (None, Some pa) \<Rightarrow>
         if ds_ReadOnly (pa_DataSchema pa) then []
         else map (\<lambda>h. (h, name, canon v)) (case chosen whs name of None \<Rightarrow> [] | Some h \<Rightarrow> [h])
     | (None, None) \<Rightarrow> [])"
proof -
  have e1: "et_TD e1 = td" "et_propertyWriteHandlers e1 = Some Map.empty"
    using put_all_frame_td(1) [OF assms(5)] by (simp_all add: CreateExposedThing_def)
  have e: "et_TD e = td" "et_actionHandlers e = et_actionHandlers e1"
    using put_all_frame_td(2) [OF assms(6)] e1 by simp_all
  have a: "pick_handler (et_actionHandlers e1) name = chosen ahs name"
    by (rule chosen_handlers [OF assms(5)])
  have "gomap_get (et_propertyWriteHandlers e) m = map_of (rev whs) m" for m
    using write_handlers.put_all_look [OF _ assms(6), of m] e1 by (simp split: option.splits)
  then have w: "pick_handler (et_propertyWriteHandlers e) name = chosen whs name"
    by (simp add: pick_handler_def chosen_def last_set_def ptr_get_via split: option.split)
  have ok: "et_propertyWriteHandlers e \<noteq> None"
    using write_handlers.put_all_ok [of e1 whs] e1(2) assms(6) by auto
  have fj: "io_Value (NewInteractionOutputFromJson (Some (json_marshal v)) (Some (aa_Input aa))) = canon v"
    if "GetAction td name = Some aa" for aa
    using assms(7) [OF that] assms(4)
    by (simp add: NewInteractionOutputFromJson_def object_schema_def bytes_def json_unmarshal_marshal)
  show ?thesis
  proof (cases "GetAction td name")
    case (Some aa)
    then show ?thesis unfolding handle_topic [OF assms(1,3,2)] using fj [OF Some]
      by (simp add: HandleActionRequest_def e a Let_def split: option.split)
  next
    case None
    then show ?thesis unfolding handle_topic [OF assms(1,3,2)] using ok assms(4)
      by (cases "GetProperty td name")
         (auto simp: HandleActionRequest_def handlePropertyWriteRequest_def e w Let_def
            json_unmarshal_marshal NewInteractionOutput_def split: option.split)
  qed
qed

definition switch_td :: thing_td where
  "switch_td = (CreateTD ''urn:switch'' ''Switch'' [] [] [])
     \<lparr>td_Properties := Some [(''on'', Some (PropertyAffordance (schema_lit ''On'' ''boolean'' False) [] [] []))]\<rparr>"

lemma switch_td_fields:
  "td_ID switch_td = ''urn:switch''" "GetAction switch_td n = None"
  "GetProperty switch_td ''on'' = Some (PropertyAffordance (schema_lit ''On'' ''boolean'' False) [] [] [])"
  "ds_ReadOnly (schema_lit t d ro) = ro"
  by (simp_all add: switch_td_def CreateTD_def GetAction_def GetProperty_def table_get_def schema_lit_def)

theorem request_dispatched_witness:
  "\<exists>e. put_all SetPropertyWriteHandler [([], Some 1), (''on'', Some (2 :: nat))] (CreateExposedThing ''dev1'' switch_td) = Ret e \<and>
     map (\<lambda>(h, n, io). (h, n, io_Value io))
       (handleActionRequest (thing_topic TopicInvokeAction ''urn:switch'' @ ''/'' @ ''on'') (json_marshal (GBool True)) e) =
     [(2, ''on'', GBool True)]"
proof -
  let ?e = "CreateExposedThing ''dev1'' switch_td"
  obtain e where e: "put_all SetPropertyWriteHandler [([], Some 1), (''on'', Some (2 :: nat))] ?e = Ret e"
    by (simp add: CreateExposedThing_def SetPropertyWriteHandler_def)
  have "put_all SetActionHandler [] ?e = Ret ?e" by simp
  from request_dispatched [OF _ _ _ _ this e, of "''on''" "GBool True"] e show ?thesis
    by (simp add: switch_td_fields no_slash_def chosen_def last_set_def)
qed

text \<open>
  A destroyed thing calls no handler for any request, and setting one panics; it still emits the changes of its properties.
\<close>

theorem destroyed_thing_silent:
  "HandleActionRequest name message (et_Destroy e) = [] \<and> handlePropertyWriteRequest name message (et_Destroy e) = [] \<and>
   SetActionHandler name h (et_Destroy e) = Panic NilMapWrite \<and>
   SetPropertyWriteHandler name h (et_Destroy e) = Panic NilMapWrite \<and>
   EmitEvent hook name v (et_Destroy e) = EmitEvent hook name v e \<and>
   map_outcome (\<lambda>(err, e', es). (err, es)) (EmitPropertyChange hook name v changesOnly (et_Destroy e)) =
     map_outcome (\<lambda>(err, e', es). (err, es)) (EmitPropertyChange hook name v changesOnly e)"
proof -
  have "unchanged (et_Destroy e) name v = unchanged e name v"
    by (simp add: unchanged_def GetValue_def et_Destroy_def)
  moreover have "et_TD (et_Destroy e) = et_TD e" "et_EmitPropertyChangeHook (et_Destroy e) = et_EmitPropertyChangeHook e"
    "et_EmitEventHook (et_Destroy e) = et_EmitEventHook e" "et_propertyWriteHandlers (et_Destroy e) = None"
    "et_actionHandlers (et_Destroy e) = None"
    by (simp_all add: et_Destroy_def)
  ultimately show ?thesis
    by (cases "if changesOnly then unchanged e name v else Ret False")
       (auto simp: HandleActionRequest_def handlePropertyWriteRequest_def pick_handler_def SetActionHandler_def
         SetPropertyWriteHandler_def EmitEvent_def EmitPropertyChange_def Let_def split: option.split prod.split)
qed

text \<open>
  EmitPropertyChange of a defined property, with the hook installed. It compares only if asked to and a value is known; it panics
  exactly when it then compares two slices or two maps. An equal value returns nil and sends nothing; any other is stored
  and passed to the hook, whose error is returned.
\<close>

theorem emit_property_change_cases:
  assumes "GetProperty (et_TD e) name = Some pa" and "et_EmitPropertyChangeHook e = Some b"
  shows "EmitPropertyChange hook name v changesOnly e =
    (case (if changesOnly then GetValue e name else None) of
       Some io \<Rightarrow>
         (case iface_eq (io_Value io) v of
            Panic p \<Rightarrow> Panic UncomparableTypes
          | Ret eq \<Rightarrow>
              if eq then Ret (None, e, [])
              else Ret (fst (hook b name v),
                e\<lparr>et_valueStore := (et_valueStore e)(name \<mapsto> NewInteractionOutput v (Some (pa_DataSchema pa)))\<rparr>, snd (hook b name v)))
     | None \<Rightarrow> Ret (fst (hook b name v),
         e\<lparr>et_valueStore := (et_valueStore e)(name \<mapsto> NewInteractionOutput v (Some (pa_DataSchema pa)))\<rparr>, snd (hook b name v)))"
proof -
  have "iface_eq a c = Panic p \<Longrightarrow> p = UncomparableTypes" for a c p
    by (induction a c rule: iface_eq.induct) auto
  then show ?thesis
    using assms
    by (cases "hook b name v") (auto simp: EmitPropertyChange_def Let_def unchanged_def split: option.split outcome.split)
qed

definition switch :: "nat exposed_thing" where
  "switch = snd (CreateExposedThingMqttBinding 0 1 (CreateExposedThing ''dev1'' switch_td))"

lemma switch_fields: "et_TD switch = switch_td" "et_EmitPropertyChangeHook switch = Some 1"
  "et_EmitEventHook switch = Some 1" "et_valueStore switch = Map.empty"
  by (simp_all add: switch_def CreateExposedThingMqttBinding_def CreateExposedThing_def)

theorem emit_property_change_cases_witness:
  "\<exists>e. EmitPropertyChange (\<lambda>b n v. (None, [(n, v)])) ''on'' (GBool True) True switch = Ret (None, e, [(''on'', GBool True)])"
  using emit_property_change_cases [of switch "''on''" _ 1 "\<lambda>b n v. (None, [(n, v)])" "GBool True" True]
  by (simp add: switch_fields switch_td_fields GetValue_def)

text \<open>
  A value that could not be published is remembered as if it had been: emitting it again, changes only, returns nil and sends
  nothing.
\<close>

theorem failed_emit_not_repeated:
  assumes "EmitPropertyChange hook name v changesOnly e = Ret (Some err, e', es)"
    and "GetProperty (et_TD e) name = Some pa" and "iface_eq v v = Ret True"
  shows "EmitPropertyChange hook' name v True e' = Ret (None, e', [])"
proof -
  let ?io = "NewInteractionOutput v (Some (pa_DataSchema pa))"
  from assms(1,2) have "e' = e\<lparr>et_valueStore := (et_valueStore e)(name \<mapsto> ?io)\<rparr>"
    by (cases "if changesOnly then unchanged e name v else Ret False")
       (auto simp: EmitPropertyChange_def Let_def split: option.splits prod.splits if_splits)
  then have "et_TD e' = et_TD e" "GetValue e' name = Some ?io" by (simp_all add: GetValue_def)
  then show ?thesis
    using assms(2,3) by (simp add: EmitPropertyChange_def unchanged_def NewInteractionOutput_def)
qed

theorem failed_emit_not_repeated_witness:
  "\<exists>e. EmitPropertyChange (\<lambda>b n v. (Some ''no connection with server'', [])) ''on'' (GBool True) True switch =
       Ret (Some ''no connection with server'', e, [] :: (string \<times> goval) list) \<and>
     EmitPropertyChange (\<lambda>b n v. (None, [(n, v)])) ''on'' (GBool True) True e = Ret (None, e, [])"
proof -
  obtain e where e: "EmitPropertyChange (\<lambda>b n v. (Some ''no connection with server'', [])) ''on'' (GBool True) True switch =
      Ret (Some ''no connection with server'', e, [] :: (string \<times> goval) list)"
    by (simp add: EmitPropertyChange_def switch_fields switch_td_fields unchanged_def GetValue_def Let_def)
  from failed_emit_not_repeated [OF e] e show ?thesis
    by (auto simp: switch_fields switch_td_fields)
qed

section \<open>The factory keeps its contract\<close>

definition ef_id_of :: "('h, 'c, 'k) et_factory \<Rightarrow> nat \<Rightarrow> string option" where
  "ef_id_of f r = map_option (\<lambda>e. td_ID (et_TD e)) (ef_things f r)"

definition ef_create ::
    "bool \<Rightarrow> error option \<Rightarrow> string \<Rightarrow> thing_td \<Rightarrow> ('h, 'c, 'k) et_factory \<Rightarrow> nat \<times> ('h, 'c, 'k) et_factory" where
  "ef_create up ans dev td f = (case Expose up ans dev td f of (r, found, f', calls) \<Rightarrow> (r, f'))"

definition ef_remove :: "nat \<Rightarrow> ('h, 'c, 'k) et_factory \<Rightarrow> ('h, 'c, 'k) et_factory option" where
  "ef_remove r f = (case ef_Destroy r f of Ret (f', calls) \<Rightarrow> Some f' | Panic p \<Rightarrow> None)"

lemma Expose_new:
  assumes "ef_etMap f (td_ID td) = None"
  shows "\<exists>mqtt calls. Expose up ans dev td f =
    (ef_next f, False,
     f\<lparr>ef_bindings := (ef_bindings f)(td_ID td \<mapsto> Suc (ef_next f)), ef_etMap := (ef_etMap f)(td_ID td \<mapsto> ef_next f),
       ef_mqttClient := mqtt,
       ef_things := (ef_things f)(ef_next f \<mapsto> (CreateExposedThing dev td)
          \<lparr>et_EmitPropertyChangeHook := Some (Suc (ef_next f)), et_EmitEventHook := Some (Suc (ef_next f))\<rparr>),
       ef_bindingObjects := (ef_bindingObjects f)(Suc (ef_next f) \<mapsto> \<lparr>eb_eThing = ef_next f, eb_td = td\<rparr>),
       ef_next := Suc (Suc (ef_next f))\<rparr>, calls) \<and>
    et_binding_Start up ans (Suc (ef_next f)) \<lparr>eb_eThing = ef_next f, eb_td = td\<rparr> (ef_mqttClient f) = (mqtt, calls)"
  using assms
  by (simp add: Expose_def Let_def CreateExposedThingMqttBinding_def CreateExposedThing_def split: prod.split)

lemma ef_Destroy_Ret:
  assumes "ef_things f r = Some e"
  shows "\<exists>mqtt calls. ef_Destroy r f =
    Ret (f\<lparr>ef_mqttClient := mqtt, ef_bindings := (ef_bindings f)(td_ID (et_TD e) := None),
           ef_things := (ef_things f)(r \<mapsto> et_Destroy e), ef_etMap := (ef_etMap f)(td_ID (et_TD e) := None)\<rparr>, calls)"
proof (cases "ef_bindings f (td_ID (et_TD e))")
  case None
  then have "(ef_bindings f)(td_ID (et_TD e) := None) = ef_bindings f" by auto
  with None assms show ?thesis
    by (intro exI [of _ "ef_mqttClient f"]) (simp add: ef_Destroy_def Let_def)
next
  case (Some b)
  obtain m cs where "et_binding_Stop (the (ef_bindingObjects f b)) (ef_mqttClient f) = (m, cs)" by (metis surj_pair)
  with Some assms show ?thesis by (intro exI [of _ m]) (simp add: ef_Destroy_def Let_def)
qed

interpretation exposed: thing_factory ef_etMap ef_bindings ef_id_of "ef_create up ans dev" ef_remove
  for up ans dev
proof unfold_locales
  fix s :: "('a, 'b, 'c) et_factory" and td r
  show "ef_create up ans dev td s = (r, s)" if "ef_etMap s (td_ID td) = Some r"
    using that by (simp add: ef_create_def Expose_def)
  show "\<exists>r b s'. ef_create up ans dev td s = (r, s') \<and> ef_etMap s' = (ef_etMap s)(td_ID td \<mapsto> r) \<and>
      ef_bindings s' = (ef_bindings s)(td_ID td \<mapsto> b) \<and> ef_id_of s' r = Some (td_ID td)"
    if "ef_etMap s (td_ID td) = None"
    using Expose_new [OF that, of up ans dev] by (auto simp: ef_create_def ef_id_of_def CreateExposedThing_def)
  show "\<exists>s'. ef_remove r s = Some s' \<and> ef_etMap s' = (ef_etMap s)(i := None) \<and> ef_bindings s' = (ef_bindings s)(i := None)"
    if "ef_id_of s r = Some i" for i
    using that ef_Destroy_Ret [of s r] by (auto simp: ef_id_of_def ef_remove_def)
  show "ef_remove r s = None" if "ef_id_of s r = None"
    using that by (simp add: ef_id_of_def ef_remove_def ef_Destroy_def)
qed

text \<open>A factory as its users drive it: things exposed and destroyed, in any order.\<close>

datatype ef_call = CallExpose bool "error option" string thing_td | CallDestroy nat

fun run_ef_call :: "ef_call \<Rightarrow> ('h, 'c, 'k) et_factory \<Rightarrow> ('h, 'c, 'k) et_factory" where
  "run_ef_call (CallExpose up ans dev td) f = snd (ef_create up ans dev td f)"
| "run_ef_call (CallDestroy r) f = (case ef_remove r f of None \<Rightarrow> f | Some f' \<Rightarrow> f')"

text \<open>
  C14: However things are exposed and destroyed, the factory has a binding for exactly the things in its table; exposing a TD again
  returns the same thing, with the flag set, changes nothing and sends nothing.
\<close>

theorem exposed_factory_paired:
  fixes f :: "('h, 'c, 'k) et_factory"
  shows "dom (ef_etMap (fold run_ef_call cs (CreateExposedThingFactory appID cert ca :: ('h, 'c, 'k) et_factory))) =
     dom (ef_bindings (fold run_ef_call cs (CreateExposedThingFactory appID cert ca :: ('h, 'c, 'k) et_factory))) \<and>
   (case Expose up ans dev td f of
      (r, found, f', calls) \<Rightarrow> Expose up' ans' dev' td f' = (r, True, f', []))"
proof
  have "exposed.paired s \<Longrightarrow> exposed.paired (fold run_ef_call cs s)" for s :: "('h, 'c, 'k) et_factory"
  proof (induction cs arbitrary: s)
    case (Cons c cs)
    have "exposed.paired (run_ef_call c s)"
      using Cons.prems exposed.create_paired [OF Cons.prems] exposed.remove_paired [OF Cons.prems]
      by (cases c) (auto split: option.split)
    with Cons.IH show ?case by simp
  qed simp
  moreover have "exposed.paired (CreateExposedThingFactory appID cert ca :: ('h, 'c, 'k) et_factory)"
    by (simp add: exposed.paired_def CreateExposedThingFactory_def)
  ultimately show "dom (ef_etMap (fold run_ef_call cs (CreateExposedThingFactory appID cert ca :: ('h, 'c, 'k) et_factory))) =
      dom (ef_bindings (fold run_ef_call cs (CreateExposedThingFactory appID cert ca :: ('h, 'c, 'k) et_factory)))"
    by (simp add: exposed.paired_def)
next
  obtain r found f' calls where e: "Expose up ans dev td f = (r, found, f', calls)" by (metis prod_cases4)
  then have "ef_etMap f' (td_ID td) = Some r"
    using exposed.create_instance [of up ans dev td f] by (simp add: ef_create_def)
  with e show "case Expose up ans dev td f of (r, found, f', calls) \<Rightarrow> Expose up' ans' dev' td f' = (r, True, f', [])"
    by (simp add: Expose_def)
qed

text \<open>
  C24: Exposing a thing on a connected client subscribes the handler of its binding to its action topic, then publishes its TD, as JSON
  that reads back as the document. Without a connection the TD is never published: nothing is sent, and exposing
  the thing again finds it and sends nothing either.
\<close>

theorem expose_publishes_td:
  assumes "ef_etMap f (td_ID td) = None" and "td_ok td" and "mc_jsonIndent (ef_mqttClient f) = []"
    and "mc_pahoClient (ef_mqttClient f) \<noteq> None"
  shows "\<exists>r f' payload.
    Expose up ans dev td f = (r, False, f',
      PahoSubscribe (thing_topic TopicInvokeAction (td_ID td) @ ''/#'') (mc_subQos (ef_mqttClient f)) (CallHandler (Suc r)) #
      (if up then [PahoPublish (thing_topic TopicThingTD (td_ID td)) (mc_pubQos (ef_mqttClient f)) False payload] else [])) \<and>
    ef_bindings f' (td_ID td) = Some (Suc r) \<and> json_parse payload = Some (struct_json (td_fields td)) \<and>
    Expose True None dev td f' = (r, True, f', [])"
proof -
  let ?payload = "json_text (struct_json (td_fields td))"
  from Expose_new [OF assms(1), of up ans dev] obtain mqtt calls where
    n: "Expose up ans dev td f =
    (ef_next f, False,
     f\<lparr>ef_bindings := (ef_bindings f)(td_ID td \<mapsto> Suc (ef_next f)), ef_etMap := (ef_etMap f)(td_ID td \<mapsto> ef_next f),
       ef_mqttClient := mqtt,
       ef_things := (ef_things f)(ef_next f \<mapsto> (CreateExposedThing dev td)
          \<lparr>et_EmitPropertyChangeHook := Some (Suc (ef_next f)), et_EmitEventHook := Some (Suc (ef_next f))\<rparr>),
       ef_bindingObjects := (ef_bindingObjects f)(Suc (ef_next f) \<mapsto> \<lparr>eb_eThing = ef_next f, eb_td = td\<rparr>),
       ef_next := Suc (Suc (ef_next f))\<rparr>, calls)"
    "et_binding_Start up ans (Suc (ef_next f)) \<lparr>eb_eThing = ef_next f, eb_td = td\<rparr> (ef_mqttClient f) = (mqtt, calls)"
    by blast
  have "calls = PahoSubscribe (thing_topic TopicInvokeAction (td_ID td) @ ''/#'') (mc_subQos (ef_mqttClient f)) (CallHandler (Suc (ef_next f))) #
      (if up then [PahoPublish (thing_topic TopicThingTD (td_ID td)) (mc_pubQos (ef_mqttClient f)) False ?payload] else [])"
    using n(2) assms(3,4)
    by (auto simp: et_binding_Start_def Subscribe_def Let_def PublishObject_def Publish_def object_text_def action_topic_def)
  moreover have "json_parse ?payload = Some (struct_json (td_fields td))"
    unfolding json_text_def by (intro json_parse_print layout_ok_compact struct_json_ok td_fields_ok assms(2))
  ultimately show ?thesis using n(1) by (intro exI [of _ "ef_next f"] exI conjI) (assumption | simp add: Expose_def)+
qed

definition exposed_online :: "(nat, unit, unit) et_factory" where
  "exposed_online = (CreateExposedThingFactory ''gw'' None None)\<lparr>ef_mqttClient := online_client\<rparr>"

theorem expose_publishes_td_witness:
  "\<exists>r f' payload. Expose True None ''dev1'' lamp_td exposed_online =
     (r, False, f', [PahoSubscribe (thing_topic TopicInvokeAction (td_ID lamp_td) @ ''/#'') 1 (CallHandler (Suc r)),
        PahoPublish (thing_topic TopicThingTD (td_ID lamp_td)) 1 False payload])"
proof -
  have "ef_etMap exposed_online (td_ID lamp_td) = None" "mc_jsonIndent (ef_mqttClient exposed_online) = []"
    "mc_pahoClient (ef_mqttClient exposed_online) \<noteq> None" "mc_subQos (ef_mqttClient exposed_online) = 1"
    "mc_pubQos (ef_mqttClient exposed_online) = 1"
    by (simp_all add: exposed_online_def CreateExposedThingFactory_def online_client_def NewMqttClient_def)
  then show ?thesis
    using lamp_td_ok expose_publishes_td [of exposed_online lamp_td True None "''dev1''"] by auto
qed

end
