(* ===== verification/Messaging.thy ===== *)
theory Messaging
  imports ConsumedFactory ExposedThing
begin

text \<open>
  A device and an application with a broker between them: the factory of exposed things, the factory of consumed things, the routes of
  the application's Paho client, and the messages on their way from the one to the other.

  Other clients of the broker publish what they like, also on the topics of the events of things and also what is no JSON.

  The broker and Paho are not part of the repository. Which topics a filter matches is the argument \<open>matches\<close>; the hypothesis
  \<open>multi_level matches\<close> is the rule of the MQTT standard for filters that end in \<open>/#\<close>. A message published is put on its way if
  a filter of the application matches it at that time; messages arrive in the order in which they were published (one topic, QoS 1,
  without retransmission), and Paho runs the callbacks of the filters that match.
\<close>

section \<open>Filters\<close>

definition wildcard_free :: "string \<Rightarrow> bool" where
  "wildcard_free t \<longleftrightarrow> CHR ''#'' \<notin> set t \<and> CHR ''+'' \<notin> set t"

definition multi_level :: "(string \<Rightarrow> string \<Rightarrow> bool) \<Rightarrow> bool" where
  "multi_level matches \<longleftrightarrow>
     (\<forall>p t. wildcard_free p \<longrightarrow> (matches (p @ ''/#'') t \<longleftrightarrow> t = p \<or> has_prefix t (p @ ''/'')))"

text \<open>Filters level by level, as the standard has them.\<close>

fun levels_match :: "string list \<Rightarrow> string list \<Rightarrow> bool" where
  "levels_match [] ts = (ts = [])"
| "levels_match (p # ps) ts =
     (if p = ''#'' then True
      else case ts of
        [] \<Rightarrow> False
      | t # ts \<Rightarrow> (p = ''+'' \<or> p = t) \<and> levels_match ps ts)"

definition filter_matches :: "string \<Rightarrow> string \<Rightarrow> bool" where
  "filter_matches flt topic = levels_match (split_on CHR ''/'' flt) (split_on CHR ''/'' topic)"

text \<open>The IDs the system is used with: nothing in them is a level or a wildcard of a topic.\<close>

definition plain_id :: "string \<Rightarrow> bool" where
  "plain_id i \<longleftrightarrow> no_slash i \<and> wildcard_free i"

definition event_topic :: "string \<Rightarrow> string \<Rightarrow> string" where
  "event_topic i name = thing_topic TopicEmitEvent i @ ''/'' @ name"

definition event_filter :: "string \<Rightarrow> string" where
  "event_filter i = thing_topic TopicEmitEvent i @ ''/#''"

lemma levels_exact:
  "''#'' \<notin> set ps \<Longrightarrow> ''+'' \<notin> set ps \<Longrightarrow> levels_match (ps @ [''#'']) ts \<longleftrightarrow> take (length ps) ts = ps"
proof (induction ps arbitrary: ts)
  case (Cons p ps)
  then show ?case by (cases ts) auto
qed simp

lemma split_on_prefix:
  "take (length (split_on c p)) (split_on c t) = split_on c p \<longleftrightarrow> t = p \<or> has_prefix t (p @ [c])"
proof
  assume a: "take (length (split_on c p)) (split_on c t) = split_on c p"
  let ?rest = "drop (length (split_on c p)) (split_on c t)"
  have s: "split_on c t = split_on c p @ ?rest" using a by (metis append_take_drop_id)
  show "t = p \<or> has_prefix t (p @ [c])"
  proof (cases ?rest)
    case Nil
    with s show ?thesis by (metis append_Nil2 join_split_on)
  next
    case (Cons y ys)
    then have "t = p @ c # join_with c ?rest" using s by (metis join_split_on join_with_append list.discI split_on_ne)
    then show ?thesis by (auto simp: has_prefix_iff)
  qed
next
  assume "t = p \<or> has_prefix t (p @ [c])"
  then show "take (length (split_on c p)) (split_on c t) = split_on c p"
    by (auto simp: has_prefix_iff split_on_append_sep)
qed

lemma filter_matches_multi_level: "multi_level filter_matches"
  unfolding multi_level_def
proof (intro allI impI)
  fix p t assume p: "wildcard_free p"
  have n: "x \<notin> set (split_on CHR ''/'' p)" if "x = ''#'' \<or> x = ''+''" for x
  proof
    assume "x \<in> set (split_on CHR ''/'' p)"
    then have "set x \<subseteq> set p" by (rule split_on_parts_subset)
    with that p show False by (auto simp: wildcard_free_def)
  qed
  have "split_on CHR ''/'' (p @ ''/#'') = split_on CHR ''/'' p @ [''#'']" by (simp add: split_on_append_sep)
  then show "filter_matches (p @ ''/#'') t \<longleftrightarrow> t = p \<or> has_prefix t (p @ ''/'')"
    using levels_exact [of "split_on CHR ''/'' p"] n split_on_prefix [of "CHR ''/''" p t] by (simp add: filter_matches_def)
qed

text \<open>The filter of a thing matches the topics of its events, and no topic of another thing and no TD.\<close>

lemma level_filter_iff:
  assumes "multi_level matches" and "plain_id i" and "plain_id k"
  shows "matches (''things/'' @ i @ ''/'' @ k @ ''/#'') t \<longleftrightarrow> take 3 (split_on CHR ''/'' t) = [''things'', i, k]"
proof -
  define p where "p = ''things/'' @ i @ ''/'' @ k"
  have p: "wildcard_free p" using assms(2,3) by (simp add: p_def plain_id_def wildcard_free_def)
  have s: "split_on CHR ''/'' p = [''things'', i, k]"
    using split_topic_parts [of i k "[]"] assms(2,3) by (simp add: p_def plain_id_def no_slash_def)
  have "matches (p @ ''/#'') t \<longleftrightarrow> t = p \<or> has_prefix t (p @ ''/'')"
    using assms(1) p by (simp add: multi_level_def)
  then show ?thesis using split_on_prefix [of "CHR ''/''" p t, unfolded s] by (simp add: p_def numeral_3_eq_3)
qed

lemma event_filter_iff:
  "multi_level matches \<Longrightarrow> plain_id i \<Longrightarrow>
     matches (event_filter i) t \<longleftrightarrow> take 3 (split_on CHR ''/'' t) = [''things'', i, ''event'']"
  using level_filter_iff [of matches i "''event''" t]
  by (simp add: event_filter_def thing_topics plain_id_def no_slash_def wildcard_free_def)

lemma split_event_topic:
  "no_slash i \<Longrightarrow> no_slash n \<Longrightarrow> split_on CHR ''/'' (event_topic i n) = [''things'', i, ''event'', n]"
  using split_named_topic [of i "''event''" n] split_on_no_sep [of "CHR ''/''" n]
  by (simp add: event_topic_def thing_topics no_slash_def)

lemma event_filter_matches:
  "multi_level matches \<Longrightarrow> plain_id i \<Longrightarrow> no_slash j \<Longrightarrow> no_slash name \<Longrightarrow>
     matches (event_filter i) (event_topic j name) \<longleftrightarrow> i = j"
  by (auto simp: event_filter_iff split_event_topic)

lemma td_topic_unmatched:
  "multi_level matches \<Longrightarrow> plain_id i \<Longrightarrow> no_slash j \<Longrightarrow> \<not> matches (event_filter i) (thing_topic TopicThingTD j)"
  using split_topic_parts [of j "''td''" "[]"] by (simp add: event_filter_iff thing_topics no_slash_def)

lemma event_topic_inject:
  assumes "no_slash i" and "no_slash j" and "no_slash n" and "no_slash m" and "event_topic i n = event_topic j m"
  shows "i = j \<and> n = m"
  using assms by (metis list.inject split_event_topic)

lemma event_filter_inject: "event_filter i = event_filter j \<longleftrightarrow> i = j"
  by (simp add: event_filter_def thing_topics)

text \<open>The ID and the name in a topic with at least four levels; the consumed thing takes the name from there.\<close>

definition topic_key :: "string \<Rightarrow> (string \<times> string) option" where
  "topic_key topic = (case split_on CHR ''/'' topic of x # i # ty # n # rest \<Rightarrow> Some (i, n) | _ \<Rightarrow> None)"

lemma topic_key_event: "no_slash i \<Longrightarrow> no_slash n \<Longrightarrow> topic_key (event_topic i n) = Some (i, n)"
  by (simp add: topic_key_def split_event_topic)

lemma event_name_key: "event_name topic = map_option snd (topic_key topic)"
  by (auto simp: event_name_def topic_key_def Let_def eval_nat_numeral split: list.split)

lemma topic_key_thing: "take 3 (split_on CHR ''/'' topic) = [x, i, ty] \<Longrightarrow> topic_key topic = Some (j, n) \<Longrightarrow> j = i"
  by (auto simp: topic_key_def eval_nat_numeral split: list.splits)

section \<open>The system\<close>

text \<open>
  \<open>sy_routes\<close> are the callbacks of the application's Paho client, \<open>sy_filters\<close> the filters the broker has for it. \<open>sy_last\<close>
  records, for the statements only, the last value that was put on its way for an ID and a name; of a message that is no JSON it is the text.
\<close>

record ('l, 'h, 'c, 'k) system =
  sy_app :: "('l, 'c, 'k) ct_factory"
  sy_dev :: "('h, 'c, 'k) et_factory"
  sy_routes :: "string \<Rightarrow> nat callback option"
  sy_filters :: "string list"
  sy_queue :: "(string \<times> string) list"
  sy_last :: "string \<times> string \<Rightarrow> goval option"

fun broker_call :: "('h, 'c, 'k) paho_call \<Rightarrow> string list \<Rightarrow> string list" where
  "broker_call (PahoSubscribe t q cb) flts = (if t \<in> set flts then flts else flts @ [t])"
| "broker_call (PahoUnsubscribe t) flts = removeAll t flts"
| "broker_call (PahoNewClient opts) flts = []"
| "broker_call (PahoDisconnect ms) flts = []"
| "broker_call PahoConnect flts = flts"
| "broker_call (PahoPublish t q x m) flts = flts"

fun forwarded :: "(string \<Rightarrow> string \<Rightarrow> bool) \<Rightarrow> string list \<Rightarrow> ('h, 'c, 'k) paho_call list \<Rightarrow> (string \<times> string) list" where
  "forwarded matches flts [] = []"
| "forwarded matches flts (PahoPublish t q x m # calls) =
     (if list_ex (\<lambda>flt. matches flt t) flts then [(t, m)] else []) @ forwarded matches flts calls"
| "forwarded matches flts (call # calls) = forwarded matches flts calls"

text \<open>Paho runs the callback of every filter that matches the topic. \<open>handle b\<close> is the handler of binding \<open>b\<close>.\<close>

fun run_filters ::
    "(nat \<Rightarrow> string \<Rightarrow> string \<Rightarrow> 's \<Rightarrow> ('s \<times> 'x list) outcome) \<Rightarrow> (string \<Rightarrow> string \<Rightarrow> bool) \<Rightarrow>
      (string \<Rightarrow> nat callback option) \<Rightarrow> string list \<Rightarrow> string \<Rightarrow> string \<Rightarrow> 's \<Rightarrow> ('s \<times> 'x list) outcome" where
  "run_filters handle matches r [] topic message f = Ret (f, [])"
| "run_filters handle matches r (flt # flts) topic message f =
     (case (if matches flt topic then r flt else None) of
        None \<Rightarrow> run_filters handle matches r flts topic message f
      | Some cb \<Rightarrow>
          bind_outcome (bind_outcome (run_callback cb) (\<lambda>b. handle b topic message f)) (\<lambda>(f, calls).
            map_outcome (apsnd (append calls)) (run_filters handle matches r flts topic message f)))"

text \<open>The operations of an exposed thing of the factory, with the methods of its binding behind the hooks.\<close>

definition dev_binding :: "('h, 'c, 'k) et_factory \<Rightarrow> nat \<Rightarrow> et_binding" where
  "dev_binding d b = the (ef_bindingObjects d b)"

definition dev_emit_property ::
    "nat \<Rightarrow> string \<Rightarrow> goval \<Rightarrow> bool \<Rightarrow> ('h, 'c, 'k) et_factory \<Rightarrow>
      (error option \<times> ('h, 'c, 'k) et_factory \<times> (nat, 'c, 'k) paho_call list) outcome" where
  "dev_emit_property ref name v changesOnly d =
     (case ef_things d ref of
        None \<Rightarrow> Panic NilDereference
      | Some e \<Rightarrow>
          map_outcome (\<lambda>(err, e, calls). (err, d\<lparr>ef_things := (ef_things d)(ref \<mapsto> e)\<rparr>, calls))
            (EmitPropertyChange (\<lambda>b. et_binding_EmitPropertyChange True None (dev_binding d b) (ef_mqttClient d)) name v changesOnly e))"

definition dev_emit_event ::
    "nat \<Rightarrow> string \<Rightarrow> goval \<Rightarrow> ('h, 'c, 'k) et_factory \<Rightarrow> (error option \<times> (nat, 'c, 'k) paho_call list) outcome" where
  "dev_emit_event ref name v d =
     (case ef_things d ref of
        None \<Rightarrow> Panic NilDereference
      | Some e \<Rightarrow> Ret (EmitEvent (\<lambda>b. et_binding_EmitEvent True None (dev_binding d b) (ef_mqttClient d)) name v e))"

definition note_last ::
    "('a list) \<Rightarrow> string \<Rightarrow> string \<Rightarrow> goval \<Rightarrow> (string \<times> string \<Rightarrow> goval option) \<Rightarrow> string \<times> string \<Rightarrow> goval option" where
  "note_last fw i name v lst = (if fw = [] then lst else lst((i, name) \<mapsto> v))"

definition note_other ::
    "('a list) \<Rightarrow> string \<Rightarrow> string \<Rightarrow> (string \<times> string \<Rightarrow> goval option) \<Rightarrow> string \<times> string \<Rightarrow> goval option" where
  "note_other fw topic payload lst =
     (case (if fw = [] then None else topic_key topic) of None \<Rightarrow> lst | Some k \<Rightarrow> lst(k \<mapsto> payload_value payload))"

definition deliver ::
    "(string \<Rightarrow> string \<Rightarrow> bool) \<Rightarrow> string \<times> string \<Rightarrow> ('l, 'h, 'c, 'k) system \<Rightarrow> ('l, 'h, 'c, 'k) system outcome" where
  "deliver matches m s =
     map_outcome (\<lambda>(app, calls). s\<lparr>sy_app := app, sy_queue := tl (sy_queue s)\<rparr>)
       (run_filters cf_message matches (sy_routes s) (sy_filters s) (fst m) (snd m) (sy_app s))"

fun deliver_msgs ::
    "(string \<Rightarrow> string \<Rightarrow> bool) \<Rightarrow> (string \<times> string) list \<Rightarrow> ('l, 'h, 'c, 'k) system \<Rightarrow> ('l, 'h, 'c, 'k) system outcome" where
  "deliver_msgs matches [] s = Ret s"
| "deliver_msgs matches (m # ms) s = bind_outcome (deliver matches m s) (deliver_msgs matches ms)"

definition deliver_all :: "(string \<Rightarrow> string \<Rightarrow> bool) \<Rightarrow> ('l, 'h, 'c, 'k) system \<Rightarrow> ('l, 'h, 'c, 'k) system outcome" where
  "deliver_all matches s = deliver_msgs matches (sy_queue s) s"

text \<open>
  Both factories begin as they are made, with a connected MQTT client. What happens: the application consumes things, observes
  properties and subscribes to events with handlers that are not nil; the device exposes and destroys things and emits values JSON
  can represent, under names without a slash; another client publishes any text on any topic; a message arrives.
\<close>

definition connected :: "('m, 'c, 'k) mqtt_client \<Rightarrow> bool" where
  "connected m \<longleftrightarrow> mc_pahoClient m \<noteq> None \<and> mc_jsonIndent m = []"

definition sys_init :: "('l, 'h, 'c, 'k) system \<Rightarrow> bool" where
  "sys_init s \<longleftrightarrow>
     (\<exists>appID account ca m gw cert ca2 m2.
        sy_app s = (CreateConsumedThingFactory appID account ca)\<lparr>cf_mqttClient := m\<rparr> \<and>
        connected m \<and> mc_subscriptions m = Map.empty \<and>
        sy_dev s = (CreateExposedThingFactory gw cert ca2)\<lparr>ef_mqttClient := m2\<rparr> \<and> connected m2) \<and>
     sy_routes s = (\<lambda>_. None) \<and> sy_filters s = [] \<and> sy_queue s = [] \<and> sy_last s = (\<lambda>_. None)"

inductive sys_step ::
    "(string \<Rightarrow> string \<Rightarrow> bool) \<Rightarrow> ('l, 'h, 'c, 'k) system \<Rightarrow> ('l, 'h, 'c, 'k) system \<Rightarrow> bool" for matches where
  sys_consume:
    "plain_id (td_ID td) \<Longrightarrow> Consume td (sy_app s) = (r, app, calls) \<Longrightarrow>
       sys_step matches s (s\<lparr>sy_app := app, sy_routes := routes calls (sy_routes s), sy_filters := fold broker_call calls (sy_filters s)\<rparr>)"
| sys_observe:
    "cf_things (sy_app s) r = Some c \<Longrightarrow> ObserveProperty name (Some l) c = (err, c') \<Longrightarrow>
       sys_step matches s (s\<lparr>sy_app := (sy_app s)\<lparr>cf_things := (cf_things (sy_app s))(r \<mapsto> c')\<rparr>\<rparr>)"
| sys_subscribe:
    "cf_things (sy_app s) r = Some c \<Longrightarrow> SubscribeEvent name (Some l) c = (err, c') \<Longrightarrow>
       sys_step matches s (s\<lparr>sy_app := (sy_app s)\<lparr>cf_things := (cf_things (sy_app s))(r \<mapsto> c')\<rparr>\<rparr>)"
| sys_expose:
    "plain_id (td_ID td) \<Longrightarrow> Expose True ans deviceID td (sy_dev s) = (r, found, dev, calls) \<Longrightarrow>
       sys_step matches s (s\<lparr>sy_dev := dev, sy_queue := sy_queue s @ forwarded matches (sy_filters s) calls\<rparr>)"
| sys_withdraw:
    "ef_Destroy r (sy_dev s) = Ret (dev, calls) \<Longrightarrow>
       sys_step matches s (s\<lparr>sy_dev := dev, sy_queue := sy_queue s @ forwarded matches (sy_filters s) calls\<rparr>)"
| sys_emit:
    "ef_things (sy_dev s) r = Some e \<Longrightarrow> no_slash name \<Longrightarrow> goval_ok v \<Longrightarrow>
       dev_emit_property r name v changesOnly (sy_dev s) = Ret (err, dev, calls) \<Longrightarrow> fw = forwarded matches (sy_filters s) calls \<Longrightarrow>
       sys_step matches s (s\<lparr>sy_dev := dev, sy_queue := sy_queue s @ fw,
         sy_last := note_last fw (td_ID (et_TD e)) name v (sy_last s)\<rparr>)"
| sys_event:
    "ef_things (sy_dev s) r = Some e \<Longrightarrow> no_slash name \<Longrightarrow> goval_ok v \<Longrightarrow>
       dev_emit_event r name v (sy_dev s) = Ret (err, calls) \<Longrightarrow> fw = forwarded matches (sy_filters s) calls \<Longrightarrow>
       sys_step matches s (s\<lparr>sy_queue := sy_queue s @ fw, sy_last := note_last fw (td_ID (et_TD e)) name v (sy_last s)\<rparr>)"
| sys_other:
    "fw = forwarded matches (sy_filters s) [PahoPublish topic q retained payload :: (nat, 'c, 'k) paho_call] \<Longrightarrow>
       sys_step matches s (s\<lparr>sy_queue := sy_queue s @ fw, sy_last := note_other fw topic payload (sy_last s)\<rparr>)"
| sys_deliver:
    "sy_queue s = m # q \<Longrightarrow> deliver matches m s = Ret s' \<Longrightarrow> sys_step matches s s'"

section \<open>The application\<close>

definition listening :: "'l consumed_thing \<Rightarrow> bool" where
  "listening c \<longleftrightarrow> (\<forall>n. observer c n \<noteq> Some None \<and> subscriber c n \<noteq> Some None)"

text \<open>The broker has the filters of the things that are consumed, and Paho routes each to the binding of its thing.\<close>

definition app_ok :: "('l, 'c, 'k) ct_factory \<Rightarrow> (string \<Rightarrow> nat callback option) \<Rightarrow> string list \<Rightarrow> bool" where
  "app_ok app r flts \<longleftrightarrow>
     cf_inv app \<and> (\<forall>x c. cf_things app x = Some c \<longrightarrow> listening c) \<and> mc_pahoClient (cf_mqttClient app) \<noteq> None \<and>
     distinct flts \<and> (\<forall>t. t \<in> set flts \<longleftrightarrow> (\<exists>i. t = event_filter i \<and> cf_bindings app i \<noteq> None)) \<and>
     (\<forall>i b. cf_bindings app i = Some b \<longrightarrow> plain_id i \<and> r (event_filter i) = Some (CallHandler b))"

lemma binding_topic_filter [simp]: "binding_topic b = event_filter (td_ID (cb_td b))"
  by (simp add: binding_topic_def event_filter_def)

text \<open>What a thing becomes with a message for a name, and with a message on a topic.\<close>

definition received :: "string \<Rightarrow> string \<Rightarrow> 'l consumed_thing \<Rightarrow> 'l consumed_thing" where
  "received name msg c =
     store_value name (property_value (ct_TD c) name msg) (store_value name (event_value (ct_TD c) name msg) c)"

lemma received_frame [simp]:
  "ct_TD (received n t c) = ct_TD c" "listening (received n t c) = listening c"
  "m \<noteq> n \<Longrightarrow> getValue (received n t c) m = getValue c m"
  by (simp_all add: received_def listening_def getValue_store)

definition after_message :: "string \<Rightarrow> string \<Rightarrow> 'l consumed_thing \<Rightarrow> 'l consumed_thing" where
  "after_message topic msg c = (case event_name topic of None \<Rightarrow> c | Some n \<Rightarrow> received n msg c)"

lemma received_wiring: "wiring (received n t c) = wiring c"
  by (simp add: received_def wiring_def store_value_def putValue_def split: option.split)

lemma after_message_frame [simp]:
  "ct_TD (after_message t m c) = ct_TD c" "listening (after_message t m c) = listening c" "wiring (after_message t m c) = wiring c"
  by (simp_all add: after_message_def received_wiring split: option.split)

lemma app_thing:
  assumes "cf_inv app" and "cf_bindings app i = Some b"
  shows "\<exists>B r c. cf_bindingObjects app b = Some B \<and> cb_cThing B = r \<and> cf_ctMap app i = Some r \<and> cf_things app r = Some c \<and>
    cb_td B = ct_TD c \<and> td_ID (ct_TD c) = i"
proof -
  from assms(1) have "case cf_bindings app i of None \<Rightarrow> cf_ctMap app i = None
      | Some b \<Rightarrow> (\<exists>B. cf_bindingObjects app b = Some B \<and> td_ID (cb_td B) = i \<and> cf_ctMap app i = Some (cb_cThing B))"
    by (simp add: cf_inv_def linked_def)
  with assms(2) obtain B where B: "cf_bindingObjects app b = Some B" "td_ID (cb_td B) = i" "cf_ctMap app i = Some (cb_cThing B)"
    by auto
  moreover from assms(1) B(1) obtain c where "cf_things app (cb_cThing B) = Some c" "ct_TD c = cb_td B"
    unfolding cf_inv_def bound_def wiring_def by blast
  ultimately show ?thesis by auto
qed

lemma app_binding: "cf_inv app \<Longrightarrow> cf_ctMap app i = Some r \<Longrightarrow> cf_bindings app i \<noteq> None"
  by (auto simp: cf_inv_def linked_def split: option.splits dest!: spec [of _ i])

lemma cf_message_eq:
  assumes ok: "app_ok app rt flts" and "cf_bindings app i = Some b"
  shows "\<exists>r c calls. cf_ctMap app i = Some r \<and> cf_things app r = Some c \<and> td_ID (ct_TD c) = i \<and>
    cf_message b topic msg app = Ret (app\<lparr>cf_things := (cf_things app)(r \<mapsto> after_message topic msg c)\<rparr>, calls)"
proof -
  from ok have inv: "cf_inv app" by (simp add: app_ok_def)
  from app_thing [OF this assms(2)] obtain B r c where
    B: "cf_bindingObjects app b = Some B" "cb_cThing B = r" "cf_ctMap app i = Some r" "cf_things app r = Some c"
      "cb_td B = ct_TD c" "td_ID (ct_TD c) = i"
    by blast
  have l: "listening c" using ok B(4) by (simp add: app_ok_def)
  obtain calls where "handleEvent B topic msg c = Ret (after_message topic msg c, calls)"
  proof (cases "event_name topic")
    case None
    with that show thesis by (simp add: handleEvent_def after_message_def)
  next
    case (Some n)
    from handleEvent_eq [OF this B(5), of msg] l Some that show thesis by (simp add: listening_def after_message_def received_def)
  qed
  with B show ?thesis by (auto simp: cf_message_def)
qed

lemma run_filters_none:
  "\<forall>flt \<in> set flts. \<not> matches flt topic \<Longrightarrow> run_filters handle matches r flts topic m f = Ret (f, [])"
  by (induction flts) simp_all

lemma run_filters_one:
  assumes "distinct flts" and "flt0 \<in> set flts" and "\<forall>flt \<in> set flts. matches flt topic \<longleftrightarrow> flt = flt0"
    and "r flt0 = Some (CallHandler b)" and "handle b topic m f = Ret (f', calls)"
  shows "run_filters handle matches r flts topic m f = Ret (f', calls)"
  using assms(1-3)
proof (induction flts)
  case (Cons flt flts)
  show ?case
  proof (cases "flt = flt0")
    case True
    with Cons.prems have "\<forall>x \<in> set flts. \<not> matches x topic" by auto
    with True Cons.prems assms(4,5) show ?thesis by (simp add: run_filters_none)
  next
    case False
    with Cons show ?thesis by simp
  qed
qed simp

abbreviation event_of :: "string \<Rightarrow> string \<Rightarrow> bool" where
  "event_of i topic \<equiv> take 3 (split_on CHR ''/'' topic) = [''things'', i, ''event'']"

lemma event_of_topic: "no_slash i \<Longrightarrow> no_slash n \<Longrightarrow> event_of i (event_topic i n)"
  by (simp add: split_event_topic)

lemma app_filters_of:
  assumes "multi_level matches" and "app_ok app rt flts" and "event_of i topic" and "flt \<in> set flts"
  shows "matches flt topic \<longleftrightarrow> flt = event_filter i"
proof -
  from assms(2,4) obtain j where "flt = event_filter j" "plain_id j" by (auto simp: app_ok_def)
  with event_filter_iff [OF assms(1), of j topic] assms(3) show ?thesis by (auto simp: event_filter_inject)
qed

lemma app_filters:
  assumes "multi_level matches" and "app_ok app rt flts" and "no_slash i" and "no_slash n" and "flt \<in> set flts"
  shows "matches flt (event_topic i n) \<longleftrightarrow> flt = event_filter i"
  using app_filters_of [OF assms(1,2) event_of_topic [OF assms(3,4)] assms(5)] .

lemma app_received:
  assumes "multi_level matches" and ok: "app_ok app rt flts" and "cf_bindings app i \<noteq> None" and "event_of i topic"
  shows "\<exists>r c calls. cf_ctMap app i = Some r \<and> cf_things app r = Some c \<and> td_ID (ct_TD c) = i \<and>
    run_filters cf_message matches rt flts topic msg app
      = Ret (app\<lparr>cf_things := (cf_things app)(r \<mapsto> after_message topic msg c)\<rparr>, calls) \<and>
    app_ok (app\<lparr>cf_things := (cf_things app)(r \<mapsto> after_message topic msg c)\<rparr>) rt flts"
proof -
  from assms(3) obtain b where b: "cf_bindings app i = Some b" by auto
  from cf_message_eq [OF ok b, of topic msg] obtain r c calls where
    m: "cf_ctMap app i = Some r" "cf_things app r = Some c" "td_ID (ct_TD c) = i"
      "cf_message b topic msg app = Ret (app\<lparr>cf_things := (cf_things app)(r \<mapsto> after_message topic msg c)\<rparr>, calls)"
    by blast
  from ok b have p: "rt (event_filter i) = Some (CallHandler b)" "distinct flts" "event_filter i \<in> set flts"
    by (auto simp: app_ok_def)
  have "run_filters cf_message matches rt flts topic msg app
      = Ret (app\<lparr>cf_things := (cf_things app)(r \<mapsto> after_message topic msg c)\<rparr>, calls)"
    using app_filters_of [OF assms(1) ok assms(4)]
    by (intro run_filters_one [where r = rt and handle = cf_message, OF p(2,3) _ p(1) m(4)]) simp
  moreover have "cf_inv (app\<lparr>cf_things := (cf_things app)(r \<mapsto> after_message topic msg c)\<rparr>)"
    using ok m(2) by (intro cf_inv_things) (simp_all add: app_ok_def)
  then have "app_ok (app\<lparr>cf_things := (cf_things app)(r \<mapsto> after_message topic msg c)\<rparr>) rt flts"
    using ok m(2) by (auto simp: app_ok_def)
  ultimately show ?thesis using m(1-3) by blast
qed

text \<open>Consuming keeps the things there are, and adds the filter of the new one.\<close>

definition agree :: "('l, 'c, 'k) ct_factory \<Rightarrow> ('l, 'c, 'k) ct_factory \<Rightarrow> bool" where
  "agree app app' \<longleftrightarrow>
     (\<forall>i x c. cf_ctMap app i = Some x \<longrightarrow> cf_things app x = Some c \<longrightarrow>
        cf_ctMap app' i = Some x \<and>
        (\<exists>c'. cf_things app' x = Some c' \<and> ct_TD c' = ct_TD c \<and> (\<forall>n. getValue c' n = getValue c n))) \<and>
     (\<forall>i. cf_bindings app i \<noteq> None \<longrightarrow> cf_bindings app' i \<noteq> None)"

lemma agree_refl [simp]: "agree app app"
  by (simp add: agree_def)

lemma listening_new:
  "listening (CreateConsumedThing td)" "listening (c\<lparr>ct_InvokeActionHook := h, ct_WritePropertyHook := w\<rparr>) = listening c"
  by (simp_all add: listening_def observer_def subscriber_def CreateConsumedThing_def)

lemma app_consume:
  assumes ok: "app_ok app rt flts" and "plain_id (td_ID td)" and c: "Consume td app = (r, app', calls)"
  shows "app_ok app' (routes calls rt) (fold broker_call calls flts) \<and> agree app app'"
proof (cases "cf_ctMap app (td_ID td)")
  case (Some x)
  with ok c show ?thesis by (simp add: Consume_def routes_def)
next
  case None
  let ?i = "td_ID td" and ?b = "Suc (cf_next app)"
  let ?c = "(CreateConsumedThing td)\<lparr>ct_InvokeActionHook := Some ?b, ct_WritePropertyHook := Some ?b\<rparr>"
  from ok have inv: "cf_inv app" and up: "mc_pahoClient (cf_mqttClient app) \<noteq> None" by (simp_all add: app_ok_def)
  have nb: "cf_bindings app ?i = None"
    using None inv app_thing [OF inv, of ?i] by (cases "cf_bindings app ?i") auto
  have nf: "event_filter ?i \<notin> set flts" using ok nb by (auto simp: app_ok_def event_filter_inject)
  from Consume_new [OF None] c up obtain mqtt where
    app': "app' = app\<lparr>cf_bindings := (cf_bindings app)(?i \<mapsto> ?b), cf_ctMap := (cf_ctMap app)(?i \<mapsto> cf_next app),
       cf_mqttClient := mqtt, cf_things := (cf_things app)(cf_next app \<mapsto> ?c),
       cf_bindingObjects := (cf_bindingObjects app)(?b \<mapsto> \<lparr>cb_td = td, cb_cThing = cf_next app\<rparr>),
       cf_next := Suc (Suc (cf_next app))\<rparr>"
    and calls: "calls = [PahoSubscribe (event_filter ?i) (mc_subQos (cf_mqttClient app)) (CallHandler ?b)]"
    and mqtt: "mc_pahoClient mqtt \<noteq> None"
    by (auto simp: Subscribe_def Let_def)
  have "cf_inv app'" by (rule cf_inv_consume [OF inv c])
  moreover have "\<forall>x d. cf_things app' x = Some d \<longrightarrow> listening d"
    using ok by (auto simp: app' app_ok_def listening_new)
  moreover have "distinct (fold broker_call calls flts)"
    "\<forall>t. t \<in> set (fold broker_call calls flts) \<longleftrightarrow> (\<exists>i. t = event_filter i \<and> cf_bindings app' i \<noteq> None)"
    using ok nf by (auto simp: calls app' app_ok_def event_filter_inject)
  moreover have "\<forall>i b. cf_bindings app' i = Some b \<longrightarrow> plain_id i \<and> routes calls rt (event_filter i) = Some (CallHandler b)"
    using ok assms(2) by (auto simp: calls app' app_ok_def routes_def event_filter_inject)
  ultimately have "app_ok app' (routes calls rt) (fold broker_call calls flts)" using mqtt by (simp add: app_ok_def app')
  moreover have "x \<noteq> cf_next app" if "cf_things app x = Some d" for x d
    using inv that by (auto simp: cf_inv_def below_def)
  then have "agree app app'" using None by (auto simp: agree_def app')
  ultimately show ?thesis by blast
qed

lemma subscribe_keeps:
  "ObserveProperty n (Some l) c = (err, c') \<Longrightarrow> wiring c' = wiring c \<and> getValue c' = getValue c \<and> (listening c \<longrightarrow> listening c')"
  "SubscribeEvent n (Some l) c = (err, c') \<Longrightarrow> wiring c' = wiring c \<and> getValue c' = getValue c \<and> (listening c \<longrightarrow> listening c')"
  by (auto simp: ObserveProperty_def SubscribeEvent_def Let_def wiring_def getValue_def listening_def observer_def subscriber_def fun_eq_iff
      split: if_splits)

lemma app_user:
  assumes ok: "app_ok app rt flts" and r: "cf_things app r = Some c"
    and c': "wiring c' = wiring c \<and> getValue c' = getValue c \<and> (listening c \<longrightarrow> listening c')"
  shows "app_ok (app\<lparr>cf_things := (cf_things app)(r \<mapsto> c')\<rparr>) rt flts \<and> agree app (app\<lparr>cf_things := (cf_things app)(r \<mapsto> c')\<rparr>)"
proof -
  have "cf_inv (app\<lparr>cf_things := (cf_things app)(r \<mapsto> c')\<rparr>)"
    using ok r c' by (intro cf_inv_things) (simp_all add: app_ok_def)
  moreover have "ct_TD c' = ct_TD c" using c' by (simp add: wiring_def)
  ultimately show ?thesis using ok r c' by (auto simp: app_ok_def agree_def)
qed

section \<open>The device\<close>

text \<open>The hooks of a thing lead to a binding with its TD.\<close>

definition hooked :: "(nat \<rightharpoonup> et_binding) \<Rightarrow> 'h exposed_thing \<Rightarrow> bool" where
  "hooked objs e \<longleftrightarrow>
     (\<forall>b. et_EmitPropertyChangeHook e = Some b \<or> et_EmitEventHook e = Some b \<longrightarrow>
        (\<exists>B. objs b = Some B \<and> eb_td B = et_TD e))"

definition dev_ok :: "('h, 'c, 'k) et_factory \<Rightarrow> bool" where
  "dev_ok d \<longleftrightarrow>
     connected (ef_mqttClient d) \<and> below (ef_bindingObjects d) (ef_next d) \<and>
     (\<forall>r e. ef_things d r = Some e \<longrightarrow> plain_id (td_ID (et_TD e)) \<and> hooked (ef_bindingObjects d) e)"

lemma hooked_new: "hooked objs e \<Longrightarrow> below objs n \<Longrightarrow> n \<le> k \<Longrightarrow> hooked (objs(k \<mapsto> B)) e"
  unfolding hooked_def below_def by (metis fun_upd_other not_le option.discI)

text \<open>A list of calls that publishes nothing, or one message with a value on a topic; the topic of an event.\<close>

definition sends :: "string \<Rightarrow> goval \<Rightarrow> ('m, 'c, 'k) paho_call list \<Rightarrow> bool" where
  "sends topic v calls \<longleftrightarrow>
     calls = [] \<or> (\<exists>q msg. calls = [PahoPublish topic q False msg] \<and> json_unmarshal msg = Some (canon v))"

abbreviation emits :: "string \<Rightarrow> string \<Rightarrow> goval \<Rightarrow> ('m, 'c, 'k) paho_call list \<Rightarrow> bool" where
  "emits i n \<equiv> sends (event_topic i n)"

lemma publish_sends:
  assumes "connected m" and "goval_ok v"
  shows "\<exists>calls. PublishObject True None topic (to_json v) m = (None, calls) \<and> sends topic v calls"
  using assms compact_codec.reads_back [OF assms(2)]
  by (simp add: connected_def PublishObject_def Publish_def object_text_def json_marshal_def sends_def)

lemma dev_binding_td:
  "dev_ok d \<Longrightarrow> ef_things d r = Some e \<Longrightarrow> et_EmitPropertyChangeHook e = Some b \<or> et_EmitEventHook e = Some b \<Longrightarrow>
     eb_td (dev_binding d b) = et_TD e"
  unfolding dev_ok_def hooked_def dev_binding_def by force

lemma emit_keeps:
  "EmitPropertyChange hook n v co e = Ret (err, e', es) \<Longrightarrow> et_TD e' = et_TD e \<and>
     et_EmitPropertyChangeHook e' = et_EmitPropertyChangeHook e \<and> et_EmitEventHook e' = et_EmitEventHook e \<and>
     (es = [] \<or> (\<exists>b. et_EmitPropertyChangeHook e = Some b \<and> es = snd (hook b n v)))"
  by (cases "if co then unchanged e n v else Ret False")
     (auto simp: EmitPropertyChange_def Let_def split: option.splits prod.splits if_splits)

lemma dev_thing:
  assumes "dev_ok d" and "ef_things d r = Some e" and "et_TD e' = et_TD e"
    and "et_EmitPropertyChangeHook e' = et_EmitPropertyChangeHook e" and "et_EmitEventHook e' = et_EmitEventHook e"
  shows "dev_ok (d\<lparr>ef_things := (ef_things d)(r \<mapsto> e')\<rparr>)"
  using assms unfolding dev_ok_def hooked_def by auto

lemma dev_emit_property_ok:
  assumes ok: "dev_ok d" and e: "ef_things d r = Some e" and v: "goval_ok v"
    and d': "dev_emit_property r n v co d = Ret (err, d', calls)"
  shows "dev_ok d' \<and> emits (td_ID (et_TD e)) n v calls"
proof -
  let ?hook = "\<lambda>b. et_binding_EmitPropertyChange True None (dev_binding d b) (ef_mqttClient d)"
  from d' e obtain e' where e': "EmitPropertyChange ?hook n v co e = Ret (err, e', calls)"
      "d' = d\<lparr>ef_things := (ef_things d)(r \<mapsto> e')\<rparr>"
    by (auto simp: dev_emit_property_def map_outcome_Ret_iff)
  note k = emit_keeps [OF e'(1)]
  have "connected (ef_mqttClient d)" using ok by (simp add: dev_ok_def)
  from publish_sends [OF this v, of "event_topic (td_ID (et_TD e)) n"] have
    "emits (td_ID (et_TD e)) n v (snd (?hook b n v))" if "et_EmitPropertyChangeHook e = Some b" for b
    using dev_binding_td [OF ok e, of b] that by (auto simp: et_binding_EmitPropertyChange_def event_topic_def)
  then have "emits (td_ID (et_TD e)) n v calls" using k by (auto simp: sends_def)
  then show ?thesis using dev_thing [OF ok e] k e'(2) by simp
qed

lemma dev_emit_event_ok:
  assumes ok: "dev_ok d" and e: "ef_things d r = Some e" and v: "goval_ok v"
    and calls: "dev_emit_event r n v d = Ret (err, calls)"
  shows "emits (td_ID (et_TD e)) n v calls"
proof -
  have "connected (ef_mqttClient d)" using ok by (simp add: dev_ok_def)
  from publish_sends [OF this v, of "event_topic (td_ID (et_TD e)) n"] have
    "emits (td_ID (et_TD e)) n v (snd (et_binding_EmitEvent True None (dev_binding d b) (ef_mqttClient d) n v))"
    if "et_EmitEventHook e = Some b" for b
    using dev_binding_td [OF ok e, of b] that by (auto simp: et_binding_EmitEvent_def event_topic_def)
  then show ?thesis using calls e
    by (auto simp: dev_emit_event_def EmitEvent_def sends_def split: if_splits option.splits)
qed

lemma CreateExposedThing_TD [simp]: "et_TD (CreateExposedThing dev td) = td"
  by (simp add: CreateExposedThing_def)

lemma dev_expose_ok:
  assumes ok: "dev_ok d" and p: "plain_id (td_ID td)" and e: "Expose True ans dev td d = (r, found, d', calls)"
  shows "dev_ok d' \<and> (\<forall>t q x m. PahoPublish t q x m \<in> set calls \<longrightarrow> t = thing_topic TopicThingTD (td_ID td))"
proof (cases "ef_etMap d (td_ID td)")
  case (Some x)
  with ok e show ?thesis by (simp add: Expose_def)
next
  case None
  let ?n = "ef_next d"
  let ?B = "\<lparr>eb_eThing = ?n, eb_td = td\<rparr>"
  let ?e = "(CreateExposedThing dev td)\<lparr>et_EmitPropertyChangeHook := Some (Suc ?n), et_EmitEventHook := Some (Suc ?n)\<rparr>"
  from Expose_new [OF None, of True ans dev] e obtain mqtt where
    d': "d' = d\<lparr>ef_bindings := (ef_bindings d)(td_ID td \<mapsto> Suc ?n), ef_etMap := (ef_etMap d)(td_ID td \<mapsto> ?n),
       ef_mqttClient := mqtt, ef_things := (ef_things d)(?n \<mapsto> ?e),
       ef_bindingObjects := (ef_bindingObjects d)(Suc ?n \<mapsto> ?B), ef_next := Suc (Suc ?n)\<rparr>"
    and st: "et_binding_Start True ans (Suc ?n) ?B (ef_mqttClient d) = (mqtt, calls)"
    by auto
  from ok have c: "connected (ef_mqttClient d)" and b: "below (ef_bindingObjects d) ?n" by (simp_all add: dev_ok_def)
  have m: "connected mqtt" "\<forall>t q x m. PahoPublish t q x m \<in> set calls \<longrightarrow> t = thing_topic TopicThingTD (td_ID td)"
    using st c by (auto simp: et_binding_Start_def Subscribe_def Let_def PublishObject_def Publish_def connected_def split: if_splits)
  have bs: "below ((ef_bindingObjects d)(Suc ?n \<mapsto> ?B)) (Suc (Suc ?n))" using b by (auto intro: below_upd)
  have "hooked ((ef_bindingObjects d)(Suc ?n \<mapsto> ?B)) f" if "ef_things d x = Some f" for x f
    using ok b that by (intro hooked_new [of _ _ ?n]) (auto simp: dev_ok_def)
  moreover have "hooked ((ef_bindingObjects d)(Suc ?n \<mapsto> ?B)) ?e"
    by (simp_all add: hooked_def CreateExposedThing_def)
  ultimately have "dev_ok d'"
    using ok p m(1) bs unfolding dev_ok_def d' by (auto split: if_splits)
  with m(2) show ?thesis by blast
qed

lemma dev_withdraw_ok:
  assumes ok: "dev_ok d" and w: "ef_Destroy r d = Ret (d', calls)"
  shows "dev_ok d' \<and> (\<forall>t q x m. PahoPublish t q x m \<notin> set calls)"
proof -
  from w obtain e where e: "ef_things d r = Some e" by (auto simp: ef_Destroy_def split: option.splits)
  have u: "connected (fst (Unsubscribe t m)) \<longleftrightarrow> connected m" "PahoPublish t' q x k \<notin> set (snd (Unsubscribe t m))"
    for t t' q x k and m :: "(nat, 'b, 'c) mqtt_client"
    by (auto simp: Unsubscribe_def connected_def split: option.splits)
  have "hooked objs (et_Destroy e) = hooked objs e" "et_TD (et_Destroy e) = et_TD e" for objs
    by (simp_all add: hooked_def et_Destroy_def)
  moreover from w e have "ef_things d' = (ef_things d)(r \<mapsto> et_Destroy e) \<and>
      ef_bindingObjects d' = ef_bindingObjects d \<and> ef_next d' = ef_next d \<and>
      (connected (ef_mqttClient d) \<longrightarrow> connected (ef_mqttClient d')) \<and> (\<forall>t q x m. PahoPublish t q x m \<notin> set calls)"
  proof (cases "ef_bindings d (td_ID (et_TD e))")
    case None
    with w e show ?thesis by (auto simp: ef_Destroy_def Let_def)
  next
    case (Some b)
    obtain m cs where m: "et_binding_Stop (the (ef_bindingObjects d b)) (ef_mqttClient d) = (m, cs)" by (metis surj_pair)
    with u(1) [of "action_topic (the (ef_bindingObjects d b))" "ef_mqttClient d"]
      u(2) [of _ _ _ _ "action_topic (the (ef_bindingObjects d b))" "ef_mqttClient d"]
    have "connected m \<longleftrightarrow> connected (ef_mqttClient d)" "\<forall>t q x k. PahoPublish t q x k \<notin> set cs"
      by (simp_all add: et_binding_Stop_def)
    with w e Some m show ?thesis by (auto simp: ef_Destroy_def Let_def)
  qed
  ultimately show ?thesis using ok e by (auto simp: dev_ok_def)
qed

section \<open>Messages on their way\<close>

text \<open>The consumed thing of an ID has a value for a property, as it reads that value.\<close>

definition settled :: "('l, 'c, 'k) ct_factory \<Rightarrow> string \<Rightarrow> string \<Rightarrow> goval \<Rightarrow> bool" where
  "settled app i n v \<longleftrightarrow>
     (\<exists>r c. cf_ctMap app i = Some r \<and> cf_things app r = Some c \<and>
        (\<forall>pa. GetProperty (ct_TD c) n = Some pa \<longrightarrow>
           (\<exists>io. getValue c n = Some io \<and> io_Value io = read_as (pa_DataSchema pa) v)))"

text \<open>The last message on its way for a name carries the value; when there is none the thing has it.\<close>

definition latest :: "('l, 'c, 'k) ct_factory \<Rightarrow> (string \<times> string) list \<Rightarrow> string \<Rightarrow> string \<Rightarrow> goval \<Rightarrow> bool" where
  "latest app queue i n v \<longleftrightarrow>
     (let ms = filter (\<lambda>m. topic_key (fst m) = Some (i, n)) queue in
      if ms = [] then settled app i n v else payload_value (snd (last ms)) = canon v)"

definition msg_ok :: "('l, 'c, 'k) ct_factory \<Rightarrow> string \<times> string \<Rightarrow> bool" where
  "msg_ok app m \<longleftrightarrow> (\<exists>i. event_of i (fst m) \<and> cf_bindings app i \<noteq> None)"

definition sys_inv :: "('l, 'h, 'c, 'k) system \<Rightarrow> bool" where
  "sys_inv s \<longleftrightarrow>
     app_ok (sy_app s) (sy_routes s) (sy_filters s) \<and> dev_ok (sy_dev s) \<and>
     (\<forall>m \<in> set (sy_queue s). msg_ok (sy_app s) m) \<and>
     (\<forall>i n v. sy_last s (i, n) = Some v \<longrightarrow> latest (sy_app s) (sy_queue s) i n v)"

lemma settled_agree: "settled app i n v \<Longrightarrow> agree app app' \<Longrightarrow> settled app' i n v"
  unfolding settled_def agree_def by metis

lemma latest_agree: "latest app q i n v \<Longrightarrow> agree app app' \<Longrightarrow> latest app' q i n v"
  by (auto simp: latest_def Let_def intro: settled_agree)

lemma msg_agree: "msg_ok app m \<Longrightarrow> agree app app' \<Longrightarrow> msg_ok app' m"
  unfolding msg_ok_def agree_def by blast

lemma sys_inv_app:
  assumes "sys_inv s" and "app_ok app rt flts" and "agree (sy_app s) app"
  shows "sys_inv (s\<lparr>sy_app := app, sy_routes := rt, sy_filters := flts\<rparr>)"
  using assms(1,2) msg_agree [OF _ assms(3)] latest_agree [OF _ assms(3)] by (auto simp: sys_inv_def)

lemma latest_other:
  "topic_key (fst m) \<noteq> Some (i, n) \<Longrightarrow> latest app (q @ [m]) i n v \<longleftrightarrow> latest app q i n v"
  by (simp add: latest_def)

lemma latest_new:
  "topic_key (fst m) = Some (i, n) \<Longrightarrow> payload_value (snd m) = canon v \<Longrightarrow> latest app (q @ [m]) i n v"
  by (simp add: latest_def)

text \<open>What is emitted is put on its way when the thing is consumed.\<close>

lemma forwarded_emits:
  assumes "multi_level matches" and "app_ok app rt flts" and "no_slash i" and "no_slash n" and "emits i n v calls"
  shows "forwarded matches flts calls = [] \<or>
    (\<exists>msg. forwarded matches flts calls = [(event_topic i n, msg)] \<and> json_unmarshal msg = Some (canon v) \<and> cf_bindings app i \<noteq> None)"
proof (cases "forwarded matches flts calls")
  case (Cons m ms)
  with assms(5) obtain q msg where c: "calls = [PahoPublish (event_topic i n) q False msg]" "json_unmarshal msg = Some (canon v)"
    by (auto simp: sends_def)
  with Cons obtain flt where f: "flt \<in> set flts" "matches flt (event_topic i n)" by (auto simp: list_ex_iff split: if_splits)
  then have "flt = event_filter i" using app_filters [OF assms(1-4)] by blast
  with f(1) assms(2) have "cf_bindings app i \<noteq> None" by (auto simp: app_ok_def event_filter_inject)
  with c Cons show ?thesis by (auto split: if_splits)
qed simp

lemma forwarded_none:
  "\<forall>t q x m. PahoPublish t q x m \<in> set calls \<longrightarrow> (\<forall>flt \<in> set flts. \<not> matches flt t) \<Longrightarrow>
     forwarded matches flts calls = []"
proof (induction calls)
  case (Cons c calls)
  have "forwarded matches flts calls = []"
    by (rule Cons.IH) (meson Cons.prems list.set_intros(2))
  moreover have "\<forall>flt \<in> set flts. \<not> matches flt t" if "c = PahoPublish t q x m" for t q x m
    using Cons.prems [rule_format, of t q x m] that by auto
  ultimately show ?case by (cases c) (auto simp: list_ex_iff)
qed simp

lemma forwarded_nothing:
  assumes "multi_level matches" and "app_ok app rt flts" and "no_slash i"
    and "\<forall>t q x m. PahoPublish t q x m \<in> set calls \<longrightarrow> t = thing_topic TopicThingTD i"
  shows "forwarded matches flts calls = []"
proof -
  have "\<not> matches flt (thing_topic TopicThingTD i)" if "flt \<in> set flts" for flt
    using assms(2) that td_topic_unmatched [OF assms(1) _ assms(3)] by (auto simp: app_ok_def)
  with assms(4) show ?thesis by (intro forwarded_none) auto
qed

lemma received_value:
  assumes "payload_value msg = canon v" and "GetProperty (ct_TD c) n = Some pa"
  shows "\<exists>io. getValue (received n msg c) n = Some io \<and> io_Value io = read_as (pa_DataSchema pa) v"
  using from_json_payload [of msg "pa_DataSchema pa"] assms by (simp add: received_def getValue_store property_value_def)

lemma map_ID: "cf_inv app \<Longrightarrow> cf_ctMap app i = Some r \<Longrightarrow> cf_things app r = Some c \<Longrightarrow> td_ID (ct_TD c) = i"
  using app_binding [of app i r] app_thing [of app i] by fastforce

text \<open>A message handed to its thing leaves the last one of every name as it was, or settles it.\<close>

lemma after_message_other:
  assumes "topic_key t \<noteq> Some (i, n)" and "event_of i t"
  shows "getValue (after_message t msg c) n = getValue c n"
proof (cases "topic_key t")
  case (Some k)
  with topic_key_thing [OF assms(2)] obtain m where "k = (i, m)" by (cases k) blast
  with Some assms(1) have "n \<noteq> m" "after_message t msg c = received m msg c" by (auto simp: after_message_def event_name_key)
  then show ?thesis by simp
qed (simp add: after_message_def event_name_key)

lemma latest_received:
  assumes inv: "cf_inv app" and r: "cf_ctMap app i = Some r" and c: "cf_things app r = Some c"
    and e: "event_of i t" and l: "latest app ((t, msg) # q) j k v"
  shows "latest (app\<lparr>cf_things := (cf_things app)(r \<mapsto> after_message t msg c)\<rparr>) q j k v"
proof (cases "topic_key t = Some (j, k)")
  case True
  with topic_key_thing [OF e] have j: "j = i" "after_message t msg c = received k msg c" by (auto simp: after_message_def event_name_key)
  from True l have "payload_value msg = canon v" if "filter (\<lambda>m. topic_key (fst m) = Some (j, k)) q = []"
    using that by (simp add: latest_def)
  with received_value [of msg v c k] True j r l show ?thesis by (auto simp: latest_def Let_def settled_def)
next
  case False
  have "settled (app\<lparr>cf_things := (cf_things app)(r \<mapsto> after_message t msg c)\<rparr>) j k v" if st: "settled app j k v"
  proof -
    from st obtain r' c' where r': "cf_ctMap app j = Some r'" "cf_things app r' = Some c'"
      and v: "\<forall>pa. GetProperty (ct_TD c') k = Some pa \<longrightarrow>
           (\<exists>io. getValue c' k = Some io \<and> io_Value io = read_as (pa_DataSchema pa) v)"
      by (auto simp: settled_def)
    show ?thesis
    proof (cases "r' = r")
      case True
      with map_ID [OF inv r c] map_ID [OF inv r'] c r'(2) have "j = i" "c' = c" by auto
      with v after_message_other [of t i k msg c] False e r r' True show ?thesis by (simp add: settled_def)
    next
      case False
      with r' v show ?thesis by (auto simp: settled_def)
    qed
  qed
  with False l show ?thesis by (auto simp: latest_def Let_def)
qed

definition same_tds :: "('l, 'c, 'k) ct_factory \<Rightarrow> ('l, 'c, 'k) ct_factory \<Rightarrow> bool" where
  "same_tds app app' \<longleftrightarrow> cf_ctMap app' = cf_ctMap app \<and> (\<forall>r. map_option ct_TD (cf_things app' r) = map_option ct_TD (cf_things app r))"

lemma deliver_ok:
  assumes "multi_level matches" and inv: "sys_inv s" and q: "sy_queue s = m # q"
  shows "\<exists>app. deliver matches m s = Ret (s\<lparr>sy_app := app, sy_queue := q\<rparr>) \<and> sys_inv (s\<lparr>sy_app := app, sy_queue := q\<rparr>) \<and>
    same_tds (sy_app s) app"
proof -
  from inv q have ok: "app_ok (sy_app s) (sy_routes s) (sy_filters s)" and "msg_ok (sy_app s) m"
    by (simp_all add: sys_inv_def)
  then obtain i where i: "event_of i (fst m)" "cf_bindings (sy_app s) i \<noteq> None" by (auto simp: msg_ok_def)
  from app_received [OF assms(1) ok i(2,1), of "snd m"] obtain r c calls where
    r: "cf_ctMap (sy_app s) i = Some r" "cf_things (sy_app s) r = Some c"
    and run: "run_filters cf_message matches (sy_routes s) (sy_filters s) (fst m) (snd m) (sy_app s)
      = Ret ((sy_app s)\<lparr>cf_things := (cf_things (sy_app s))(r \<mapsto> after_message (fst m) (snd m) c)\<rparr>, calls)"
    and ok': "app_ok ((sy_app s)\<lparr>cf_things := (cf_things (sy_app s))(r \<mapsto> after_message (fst m) (snd m) c)\<rparr>) (sy_routes s) (sy_filters s)"
    by blast
  let ?app = "(sy_app s)\<lparr>cf_things := (cf_things (sy_app s))(r \<mapsto> after_message (fst m) (snd m) c)\<rparr>"
  have "deliver matches m s = Ret (s\<lparr>sy_app := ?app, sy_queue := q\<rparr>)" by (simp add: deliver_def run q)
  moreover have "latest ?app q j k v" if "sy_last s (j, k) = Some v" for j k v
  proof (rule latest_received [OF _ r i(1)])
    show "cf_inv (sy_app s)" using ok by (simp add: app_ok_def)
    show "latest (sy_app s) ((fst m, snd m) # q) j k v" using inv that q by (auto simp: sys_inv_def)
  qed
  then have "sys_inv (s\<lparr>sy_app := ?app, sy_queue := q\<rparr>)"
    using inv q ok' by (auto simp: sys_inv_def msg_ok_def)
  moreover have "same_tds (sy_app s) ?app" using r by (simp add: same_tds_def)
  ultimately show ?thesis by blast
qed

lemma sys_inv_emit:
  assumes ml: "multi_level matches" and inv: "sys_inv s" and i: "no_slash i" "no_slash n" and dev: "dev_ok dev"
    and e: "emits i n v calls" and fw: "fw = forwarded matches (sy_filters s) calls"
  shows "sys_inv (s\<lparr>sy_dev := dev, sy_queue := sy_queue s @ fw, sy_last := note_last fw i n v (sy_last s)\<rparr>)"
proof -
  from inv have ok: "app_ok (sy_app s) (sy_routes s) (sy_filters s)" by (simp add: sys_inv_def)
  show ?thesis
  proof (cases "fw = []")
    case True
    with inv dev show ?thesis by (simp add: sys_inv_def note_last_def)
  next
    case False
    with forwarded_emits [OF ml ok i e] fw obtain msg where
      m: "fw = [(event_topic i n, msg)]" "json_unmarshal msg = Some (canon v)" "cf_bindings (sy_app s) i \<noteq> None"
      by auto
    note key = topic_key_event [OF i]
    have "latest (sy_app s) (sy_queue s @ fw) j k w" if "note_last fw i n v (sy_last s) (j, k) = Some w" for j k w
    proof (cases "j = i \<and> k = n")
      case True
      with that m(1) have "v = w" by (simp add: note_last_def)
      with True key payload_value_encoded [OF m(2)] show ?thesis unfolding m(1) by (intro latest_new) simp_all
    next
      case False
      with that have "sy_last s (j, k) = Some w" by (auto simp: note_last_def split: if_splits)
      with inv have "latest (sy_app s) (sy_queue s) j k w" by (auto simp: sys_inv_def)
      with False key m(1) show ?thesis by (auto simp: latest_other)
    qed
    moreover have "msg_ok (sy_app s) (event_topic i n, msg)" using event_of_topic [OF i] m(3) by (auto simp: msg_ok_def)
    ultimately show ?thesis using inv dev m(1) by (auto simp: sys_inv_def)
  qed
qed

text \<open>What another client publishes is put on its way when it is on a topic of the events of a thing that is consumed.\<close>

lemma sys_inv_other:
  assumes ml: "multi_level matches" and inv: "sys_inv s"
    and fw: "fw = forwarded matches (sy_filters s) [PahoPublish topic q retained payload]"
  shows "sys_inv (s\<lparr>sy_queue := sy_queue s @ fw, sy_last := note_other fw topic payload (sy_last s)\<rparr>)"
proof (cases "fw = []")
  case True
  with inv show ?thesis by (simp add: sys_inv_def note_other_def)
next
  case False
  with fw obtain flt where f: "fw = [(topic, payload)]" "flt \<in> set (sy_filters s)" "matches flt topic"
    by (auto simp: list_ex_iff split: if_splits)
  from inv have "app_ok (sy_app s) (sy_routes s) (sy_filters s)" by (simp add: sys_inv_def)
  with f(2) obtain i where i: "flt = event_filter i" "cf_bindings (sy_app s) i \<noteq> None" "plain_id i" by (auto simp: app_ok_def)
  with f(3) event_filter_iff [OF ml i(3)] have "msg_ok (sy_app s) (topic, payload)" by (auto simp: msg_ok_def)
  moreover have "latest (sy_app s) (sy_queue s @ fw) j k w" if "note_other fw topic payload (sy_last s) (j, k) = Some w" for j k w
  proof (cases "topic_key topic = Some (j, k)")
    case True
    with that f(1) have "w = payload_value payload" by (simp add: note_other_def)
    with True show ?thesis unfolding f(1) by (intro latest_new) simp_all
  next
    case False
    with that f(1) have "sy_last s (j, k) = Some w" by (auto simp: note_other_def split: option.splits if_splits)
    with inv have "latest (sy_app s) (sy_queue s) j k w" by (auto simp: sys_inv_def)
    with False f(1) show ?thesis by (simp add: latest_other)
  qed
  ultimately show ?thesis using inv f(1) by (auto simp: sys_inv_def)
qed

lemma sys_inv_init: "sys_init s \<Longrightarrow> sys_inv s"
  unfolding sys_init_def sys_inv_def app_ok_def dev_ok_def cf_inv_def
  by (auto simp: CreateConsumedThingFactory_def CreateExposedThingFactory_def connected_def below_def linked_def bound_def)

lemma sys_inv_step:
  assumes ml: "multi_level matches" and inv: "sys_inv s" and "sys_step matches s t"
  shows "sys_inv t"
  using assms(3)
proof cases
  note ok = inv [unfolded sys_inv_def]
  {
    case (sys_consume td r app calls)
    with app_consume [of "sy_app s"] ok have
      "app_ok app (routes calls (sy_routes s)) (fold broker_call calls (sy_filters s))" "agree (sy_app s) app" by blast+
    with sys_inv_app [OF inv] sys_consume show ?thesis by simp
  next
    case (sys_observe r c name l err c')
    have "app_ok ((sy_app s)\<lparr>cf_things := (cf_things (sy_app s))(r \<mapsto> c')\<rparr>) (sy_routes s) (sy_filters s) \<and>
        agree (sy_app s) ((sy_app s)\<lparr>cf_things := (cf_things (sy_app s))(r \<mapsto> c')\<rparr>)"
      using app_user [OF _ sys_observe(2) subscribe_keeps(1) [OF sys_observe(3)]] ok by blast
    with sys_inv_app [OF inv] sys_observe(1) show ?thesis by fastforce
  next
    case (sys_subscribe r c name l err c')
    have "app_ok ((sy_app s)\<lparr>cf_things := (cf_things (sy_app s))(r \<mapsto> c')\<rparr>) (sy_routes s) (sy_filters s) \<and>
        agree (sy_app s) ((sy_app s)\<lparr>cf_things := (cf_things (sy_app s))(r \<mapsto> c')\<rparr>)"
      using app_user [OF _ sys_subscribe(2) subscribe_keeps(2) [OF sys_subscribe(3)]] ok by blast
    with sys_inv_app [OF inv] sys_subscribe(1) show ?thesis by fastforce
  next
    case (sys_expose td ans deviceID r found dev calls)
    with dev_expose_ok [of "sy_dev s"] ok have
      d: "dev_ok dev" "\<forall>t q x m. PahoPublish t q x m \<in> set calls \<longrightarrow> t = thing_topic TopicThingTD (td_ID td)" by blast+
    then have "forwarded matches (sy_filters s) calls = []"
      using forwarded_nothing [OF ml _ _ d(2)] ok sys_expose by (auto simp: plain_id_def)
    with ok d(1) sys_expose show ?thesis by (simp add: sys_inv_def)
  next
    case (sys_withdraw r dev calls)
    with dev_withdraw_ok [of "sy_dev s"] ok have d: "dev_ok dev" "\<forall>t q x m. PahoPublish t q x m \<notin> set calls" by blast+
    then have "forwarded matches (sy_filters s) calls = []" by (intro forwarded_none) simp
    with ok d(1) sys_withdraw show ?thesis by (simp add: sys_inv_def)
  next
    case (sys_emit r e name v co err dev calls fw)
    with dev_emit_property_ok [of "sy_dev s"] ok have "dev_ok dev" "emits (td_ID (et_TD e)) name v calls" by blast+
    moreover have "no_slash (td_ID (et_TD e))" using ok sys_emit by (auto simp: dev_ok_def plain_id_def)
    ultimately show ?thesis using sys_inv_emit [OF ml inv] sys_emit by blast
  next
    case (sys_event r e name v err calls fw)
    with dev_emit_event_ok [of "sy_dev s"] ok have "emits (td_ID (et_TD e)) name v calls" by blast
    moreover have "no_slash (td_ID (et_TD e))" "dev_ok (sy_dev s)" using ok sys_event by (auto simp: dev_ok_def plain_id_def)
    ultimately have "sys_inv (s\<lparr>sy_dev := sy_dev s, sy_queue := sy_queue s @ fw,
        sy_last := note_last fw (td_ID (et_TD e)) name v (sy_last s)\<rparr>)"
      using sys_inv_emit [OF ml inv] sys_event by blast
    with sys_event show ?thesis by simp
  next
    case (sys_other fw topic q retained payload)
    with sys_inv_other [OF ml inv sys_other(2)] show ?thesis by simp
  next
    case (sys_deliver m q)
    with deliver_ok [OF ml inv] show ?thesis by fastforce
  }
qed

interpretation broker_system: transition_system sys_init "sys_step matches" "\<lambda>s. multi_level matches \<longrightarrow> sys_inv s" for matches
  by unfold_locales (auto intro: sys_inv_init sys_inv_step)

section \<open>The last value arrives\<close>

lemma deliver_queue:
  assumes "multi_level matches" and "sys_inv s" and "sy_queue s = q"
  shows "\<exists>app. deliver_msgs matches q s = Ret (s\<lparr>sy_app := app, sy_queue := []\<rparr>) \<and> sys_inv (s\<lparr>sy_app := app, sy_queue := []\<rparr>) \<and>
    same_tds (sy_app s) app"
  using assms(2,3)
proof (induction q arbitrary: s)
  case Nil
  then have "s\<lparr>sy_app := sy_app s, sy_queue := []\<rparr> = s" by (cases s) simp
  moreover have "same_tds (sy_app s) (sy_app s)" by (simp add: same_tds_def)
  ultimately show ?case using Nil by (metis deliver_msgs.simps(1))
next
  case (Cons m q)
  from deliver_ok [OF assms(1) Cons.prems] obtain app where
    a: "deliver matches m s = Ret (s\<lparr>sy_app := app, sy_queue := q\<rparr>)" "sys_inv (s\<lparr>sy_app := app, sy_queue := q\<rparr>)"
      "same_tds (sy_app s) app" by blast
  from Cons.IH [OF a(2)] a(1,3) show ?case by (auto simp: same_tds_def)
qed

text \<open>
  C1: In every state the system of device, broker and application can get into, the messages on their way can all be delivered without a
  panic, whatever other clients published. Afterwards every consumed thing reads as the value of a property the last value published for it since
  it was consumed: a value of the device, with integers up to \<open>2 ^ 53\<close>, in the form JSON gives it; of another client the value its message decodes to,
  or the text when it is no JSON. The exception is a property with the schema of an object, which reads as nil. It does not matter what other things
  the factories hold and what was subscribed to in between.
\<close>

theorem last_value_arrives:
  assumes "multi_level matches" and "reachable sys_init (sys_step matches) s"
  shows "\<exists>s'. deliver_all matches s = Ret s' \<and> sy_queue s' = [] \<and>
    (\<forall>i n v. sy_last s (i, n) = Some v \<longrightarrow>
       (\<exists>r c c'. cf_ctMap (sy_app s) i = Some r \<and> cf_things (sy_app s) r = Some c \<and>
          cf_things (sy_app s') r = Some c' \<and> ct_TD c' = ct_TD c \<and>
          (\<forall>pa. GetProperty (ct_TD c) n = Some pa \<longrightarrow>
             (\<exists>io. fst (ReadProperty c' n) = Some io \<and>
                io_Value io = (if object_schema (Some (pa_DataSchema pa)) then GNil else canon v)))))"
proof -
  have "sys_inv s" using broker_system.reachable_inv [OF assms(2)] assms(1) by simp
  from deliver_queue [OF assms(1) this refl] obtain app where
    d: "deliver_all matches s = Ret (s\<lparr>sy_app := app, sy_queue := []\<rparr>)" and inv: "sys_inv (s\<lparr>sy_app := app, sy_queue := []\<rparr>)"
    and td: "same_tds (sy_app s) app"
    by (auto simp: deliver_all_def)
  have "\<exists>r c c'. cf_ctMap (sy_app s) i = Some r \<and> cf_things (sy_app s) r = Some c \<and> cf_things app r = Some c' \<and> ct_TD c' = ct_TD c \<and>
      (\<forall>pa. GetProperty (ct_TD c) n = Some pa \<longrightarrow>
         (\<exists>io. fst (ReadProperty c' n) = Some io \<and>
            io_Value io = (if object_schema (Some (pa_DataSchema pa)) then GNil else canon v)))" if "sy_last s (i, n) = Some v" for i n v
  proof -
    from inv that have "settled app i n v" by (auto simp: sys_inv_def latest_def)
    then obtain r c' where r: "cf_ctMap app i = Some r" "cf_things app r = Some c'"
      and v: "\<forall>pa. GetProperty (ct_TD c') n = Some pa \<longrightarrow>
        (\<exists>io. getValue c' n = Some io \<and> io_Value io = read_as (pa_DataSchema pa) v)"
      by (auto simp: settled_def)
    from td r(2) obtain c where "cf_things (sy_app s) r = Some c" "ct_TD c' = ct_TD c"
      by (cases "cf_things (sy_app s) r") (auto simp: same_tds_def dest!: spec [of _ r])
    with td r v show ?thesis by (fastforce simp: same_tds_def ReadProperty_def read_as_def)
  qed
  then show ?thesis using d by auto
qed

text \<open>
  Emitting a property of an exposed thing, not only if it changed, puts the value on its way when a thing of that ID is consumed.
\<close>

lemma emission_recorded:
  assumes ml: "multi_level matches" and inv: "sys_inv s" and e: "ef_things (sy_dev s) r = Some e"
    and p: "GetProperty (et_TD e) n = Some pa" and h: "et_EmitPropertyChangeHook e = Some b" and n: "no_slash n" and v: "goval_ok v"
    and c: "cf_ctMap (sy_app s) (td_ID (et_TD e)) \<noteq> None"
  shows "\<exists>s' e'. sys_step matches s s' \<and> sy_last s' (td_ID (et_TD e), n) = Some v \<and> sy_app s' = sy_app s \<and>
    ef_things (sy_dev s') r = Some e' \<and> et_TD e' = et_TD e \<and> et_EmitPropertyChangeHook e' = Some b"
proof -
  let ?i = "td_ID (et_TD e)"
  from inv have app: "app_ok (sy_app s) (sy_routes s) (sy_filters s)" and dev: "dev_ok (sy_dev s)" by (simp_all add: sys_inv_def)
  let ?hook = "\<lambda>b. et_binding_EmitPropertyChange True None (dev_binding (sy_dev s) b) (ef_mqttClient (sy_dev s))"
  have b: "eb_td (dev_binding (sy_dev s) b) = et_TD e" using dev_binding_td [OF dev e] h by blast
  have "connected (ef_mqttClient (sy_dev s))" using dev by (simp add: dev_ok_def)
  then obtain q msg where hk: "?hook b n v = (None, [PahoPublish (event_topic ?i n) q False msg])"
    by (simp add: et_binding_EmitPropertyChange_def b PublishObject_def Publish_def connected_def event_topic_def)
  then obtain e' where e': "EmitPropertyChange ?hook n v False e = Ret (None, e', [PahoPublish (event_topic ?i n) q False msg])"
    using p h by (simp add: EmitPropertyChange_def Let_def)
  from app c have "event_filter ?i \<in> set (sy_filters s)" "plain_id ?i"
    using app_binding [of "sy_app s" ?i] by (auto simp: app_ok_def)
  then have f: "[(event_topic ?i n, msg)] = forwarded matches (sy_filters s) [PahoPublish (event_topic ?i n) q False msg]"
    using event_filter_matches [OF ml, of ?i ?i n] n by (auto simp: list_ex_iff plain_id_def)
  have d: "dev_emit_property r n v False (sy_dev s) =
      Ret (None, (sy_dev s)\<lparr>ef_things := (ef_things (sy_dev s))(r \<mapsto> e')\<rparr>, [PahoPublish (event_topic ?i n) q False msg])"
    using e e' by (simp add: dev_emit_property_def)
  show ?thesis using sys_emit [OF e n v d f] emit_keeps [OF e'] h by (intro exI conjI) (assumption | simp add: note_last_def)+
qed

definition home_start :: "(nat, nat, unit, unit) system" where
  "home_start =
     \<lparr>sy_app = (CreateConsumedThingFactory ''app1'' hub_account None)\<lparr>cf_mqttClient := online_client\<rparr>, sy_dev = exposed_online,
      sy_routes = (\<lambda>_. None), sy_filters = [], sy_queue = [], sy_last = (\<lambda>_. None)\<rparr>"

lemma home_start_init: "sys_init home_start"
proof -
  have "connected online_client" "mc_subscriptions online_client = Map.empty"
    by (simp_all add: online_client_def NewMqttClient_def connected_def)
  then show ?thesis unfolding sys_init_def home_start_def exposed_online_def by fastforce
qed

lemma plain_switch: "plain_id (td_ID switch_td)"
  by (simp add: switch_td_fields plain_id_def no_slash_def wildcard_free_def)

lemma home_running:
  "\<exists>s e r c. reachable sys_init (sys_step filter_matches) (s :: (nat, nat, unit, unit) system) \<and>
     ef_things (sy_dev s) 0 = Some e \<and> et_TD e = switch_td \<and> et_EmitPropertyChangeHook e = Some 1 \<and>
     cf_ctMap (sy_app s) (td_ID switch_td) = Some r \<and> cf_things (sy_app s) r = Some c \<and> ct_TD c = switch_td"
proof -
  obtain r app calls where c: "Consume switch_td (sy_app home_start) = (r, app, calls)" by (metis prod_cases3)
  let ?s1 = "home_start\<lparr>sy_app := app, sy_routes := routes calls (sy_routes home_start), sy_filters := fold broker_call calls (sy_filters home_start)\<rparr>"
  have "reachable sys_init (sys_step filter_matches) home_start" by (rule reach_init) (rule home_start_init)
  then have 1: "reachable sys_init (sys_step filter_matches) ?s1" by (rule reach_step) (rule sys_consume [OF plain_switch c])
  obtain r2 found dev calls2 where x: "Expose True None ''dev1'' switch_td (sy_dev ?s1) = (r2, found, dev, calls2)" by (metis prod_cases4)
  from 1 have 2: "reachable sys_init (sys_step filter_matches) (?s1\<lparr>sy_dev := dev, sy_queue := sy_queue ?s1 @ forwarded filter_matches (sy_filters ?s1) calls2\<rparr>)"
    by (rule reach_step) (rule sys_expose [OF plain_switch x])
  have "cf_ctMap (sy_app home_start) (td_ID switch_td) = None" "ef_etMap (sy_dev ?s1) (td_ID switch_td) = None" "ef_next (sy_dev ?s1) = 0"
    by (simp_all add: home_start_def CreateConsumedThingFactory_def exposed_online_def CreateExposedThingFactory_def)
  then have "\<exists>r c. cf_ctMap app (td_ID switch_td) = Some r \<and> cf_things app r = Some c \<and> ct_TD c = switch_td"
    "\<exists>e. ef_things dev 0 = Some e \<and> et_TD e = switch_td \<and> et_EmitPropertyChangeHook e = Some 1"
    using Consume_new [of "sy_app home_start" switch_td] c Expose_new [of "sy_dev ?s1" switch_td True None "''dev1''"] x
    by (auto simp: CreateConsumedThing_def)
  with 2 show ?thesis by fastforce
qed

lemma home_emitted:
  "\<exists>s r c. reachable sys_init (sys_step filter_matches) (s :: (nat, nat, unit, unit) system) \<and>
     sy_last s (''urn:switch'', ''on'') = Some (GBool False) \<and> cf_ctMap (sy_app s) ''urn:switch'' = Some r \<and>
     cf_things (sy_app s) r = Some c \<and> ct_TD c = switch_td"
proof -
  have ml: "multi_level filter_matches" by (rule filter_matches_multi_level)
  note inv = broker_system.reachable_inv [where matches = filter_matches, THEN mp, OF _ ml]
  note pa = switch_td_fields(3)
  have n: "no_slash ''on''" by (simp add: no_slash_def)
  from home_running obtain s1 e1 r c where s1: "reachable sys_init (sys_step filter_matches) (s1 :: (nat, nat, unit, unit) system)"
      "ef_things (sy_dev s1) 0 = Some e1" "et_TD e1 = switch_td" "et_EmitPropertyChangeHook e1 = Some 1"
      "cf_ctMap (sy_app s1) (td_ID switch_td) = Some r" "cf_things (sy_app s1) r = Some c" "ct_TD c = switch_td" by blast
  from emission_recorded [OF ml inv [OF s1(1)] s1(2) _ s1(4) n, of _ "GBool True"] s1(3,5) pa obtain s2 e2 where
    s2: "sys_step filter_matches s1 s2" "sy_app s2 = sy_app s1" "ef_things (sy_dev s2) 0 = Some e2" "et_TD e2 = switch_td"
      "et_EmitPropertyChangeHook e2 = Some 1" by auto
  from s1(1) s2(1) have r2: "reachable sys_init (sys_step filter_matches) s2" by (rule reach_step)
  from emission_recorded [OF ml inv [OF r2] s2(3) _ s2(5) n, of _ "GBool False"] s1(5) s2(2,4) pa obtain s3 where
    s3: "sys_step filter_matches s2 s3" "sy_last s3 (''urn:switch'', ''on'') = Some (GBool False)" "sy_app s3 = sy_app s1"
    by (auto simp: switch_td_fields)
  from r2 s3(1) have "reachable sys_init (sys_step filter_matches) s3" by (rule reach_step)
  moreover have "cf_ctMap (sy_app s3) ''urn:switch'' = Some r" "cf_things (sy_app s3) r = Some c"
    using s3(3) s1(5,6) by (simp_all add: switch_td_fields(1))
  ultimately show ?thesis using s3(2) s1(7) by blast
qed

lemma switch_no_object: "\<not> object_schema (Some (schema_lit ''On'' ''boolean'' False))"
  by (simp add: object_schema_def schema_lit_def WoTDataTypeObject_def)

theorem last_value_arrives_witness:
  "\<exists>s s' r c io. deliver_all filter_matches (s :: (nat, nat, unit, unit) system) = Ret s' \<and> sy_last s (''urn:switch'', ''on'') = Some (GBool False) \<and>
     cf_ctMap (sy_app s) ''urn:switch'' = Some r \<and> cf_things (sy_app s') r = Some c \<and>
     fst (ReadProperty c ''on'') = Some io \<and> io_Value io = GBool False"
proof -
  from home_emitted obtain s r c where s: "reachable sys_init (sys_step filter_matches) (s :: (nat, nat, unit, unit) system)"
      "sy_last s (''urn:switch'', ''on'') = Some (GBool False)" "cf_ctMap (sy_app s) ''urn:switch'' = Some r"
      "cf_things (sy_app s) r = Some c" "ct_TD c = switch_td" by blast
  from last_value_arrives [OF filter_matches_multi_level s(1)] obtain s' where
    d: "deliver_all filter_matches s = Ret s'"
    "\<forall>i n v. sy_last s (i, n) = Some v \<longrightarrow>
       (\<exists>r c c'. cf_ctMap (sy_app s) i = Some r \<and> cf_things (sy_app s) r = Some c \<and>
          cf_things (sy_app s') r = Some c' \<and> ct_TD c' = ct_TD c \<and>
          (\<forall>pa. GetProperty (ct_TD c) n = Some pa \<longrightarrow>
             (\<exists>io. fst (ReadProperty c' n) = Some io \<and>
                io_Value io = (if object_schema (Some (pa_DataSchema pa)) then GNil else canon v))))" by blast
  from d(2) [rule_format, OF s(2)] s(3-5) obtain c' where
    s': "cf_things (sy_app s') r = Some c'"
    "\<forall>pa. GetProperty switch_td ''on'' = Some pa \<longrightarrow>
       (\<exists>io. fst (ReadProperty c' ''on'') = Some io \<and>
          io_Value io = (if object_schema (Some (pa_DataSchema pa)) then GNil else canon (GBool False)))"
    by auto
  with switch_no_object switch_td_fields(3) obtain io where "fst (ReadProperty c' ''on'') = Some io" "io_Value io = GBool False" by auto
  with d(1) s'(1) s(2,3) show ?thesis by blast
qed

section \<open>The type of the values\<close>

definition typed_thing :: "'l consumed_thing \<Rightarrow> bool" where
  "typed_thing c \<longleftrightarrow> (\<forall>k io. getValue c k = Some io \<longrightarrow> value_typed io)"

definition typed_app :: "('l, 'c, 'k) ct_factory \<Rightarrow> bool" where
  "typed_app app \<longleftrightarrow> (\<forall>r c. cf_things app r = Some c \<longrightarrow> typed_thing c)"

lemma handle_typed:
  "typed_thing c \<Longrightarrow> HandleEvent n m c = Ret (c', calls) \<Longrightarrow> typed_thing c'"
  "typed_thing c \<Longrightarrow> HandlePropertyChange n m c = Ret (c', calls) \<Longrightarrow> typed_thing c'"
  by (auto simp: HandleEvent_def HandlePropertyChange_def typed_thing_def Let_def map_outcome_Ret_iff getValue_def putValue_def
      from_json_typed split: option.splits if_splits)

lemma handleEvent_typed: "typed_thing c \<Longrightarrow> handleEvent b t m c = Ret (c', calls) \<Longrightarrow> typed_thing c'"
  by (auto simp: handleEvent_def bind_outcome_Ret_iff map_outcome_Ret_iff split: option.splits if_splits dest: handle_typed)

lemma message_typed: "typed_app app \<Longrightarrow> cf_message b t m app = Ret (app', calls) \<Longrightarrow> typed_app app'"
  by (auto simp: cf_message_def typed_app_def map_outcome_Ret_iff split: option.splits if_splits dest: handleEvent_typed [rotated])

lemma run_filters_typed: "typed_app app \<Longrightarrow> run_filters cf_message matches r flts t m app = Ret (app', calls) \<Longrightarrow> typed_app app'"
proof (induction flts arbitrary: app calls)
  case (Cons flt flts)
  show ?case
  proof (cases "if matches flt t then r flt else None")
    case None
    with Cons show ?thesis by simp
  next
    case (Some cb)
    with Cons.prems(2) obtain b app1 cs cs2 where
      "cf_message b t m app = Ret (app1, cs)" "run_filters cf_message matches r flts t m app1 = Ret (app', cs2)"
      by (auto simp: bind_outcome_Ret_iff map_outcome_Ret_iff)
    with Cons.IH message_typed [OF Cons.prems(1)] show ?thesis by blast
  qed
qed simp

lemma consume_typed: "typed_app app \<Longrightarrow> Consume td app = (r, app', calls) \<Longrightarrow> typed_app app'"
proof (cases "cf_ctMap app (td_ID td)")
  case None
  assume "typed_app app" "Consume td app = (r, app', calls)"
  with Consume_new [OF None] show ?thesis
    by (auto simp: typed_app_def typed_thing_def getValue_def CreateConsumedThing_def split: if_splits)
qed (simp add: Consume_def)

lemma typed_user: "typed_app app \<Longrightarrow> cf_things app r = Some c \<Longrightarrow> getValue c' = getValue c \<Longrightarrow>
    typed_app (app\<lparr>cf_things := (cf_things app)(r \<mapsto> c')\<rparr>)"
  by (auto simp: typed_app_def typed_thing_def)

interpretation typed_system: transition_system sys_init "sys_step matches" "\<lambda>s. typed_app (sy_app s)" for matches
proof unfold_locales
  show "typed_app (sy_app s)" if "sys_init s" for s :: "('a, 'b, 'c, 'd) system"
    using that by (auto simp: sys_init_def typed_app_def CreateConsumedThingFactory_def)
  show "typed_app (sy_app t)" if "typed_app (sy_app s)" and "sys_step matches s t" for s t :: "('a, 'b, 'c, 'd) system"
    using that(2,1)
  proof cases
    case sys_consume
    with that(1) consume_typed show ?thesis by fastforce
  next
    case sys_observe
    with that(1) subscribe_keeps(1) typed_user show ?thesis by fastforce
  next
    case sys_subscribe
    with that(1) subscribe_keeps(2) typed_user show ?thesis by fastforce
  next
    case sys_deliver
    with that(1) run_filters_typed show ?thesis by (fastforce simp: deliver_def map_outcome_Ret_iff)
  qed simp_all
qed

text \<open>
  C23: Whatever messages arrive, those of the device and those of other clients, with any payload on any topic, also such that is no JSON, a
  consumed thing holds only values of the types JSON gives: nil, booleans, floats, strings, slices and maps of them with each key once, and never
  an integer; a value with the schema of an object is nil.
\<close>

theorem consumed_values_typed:
  assumes "reachable sys_init (sys_step matches) s" and "cf_things (sy_app s) r = Some c" and "fst (ReadProperty c n) = Some io"
  shows "json_typed (io_Value io) \<and> (object_schema (io_Schema io) \<longrightarrow> io_Value io = GNil)"
  using typed_system.reachable_inv [OF assms(1)] assms(2,3)
  by (auto simp: typed_app_def typed_thing_def value_typed_def ReadProperty_def split: option.splits)

lemma deliver_reachable:
  "reachable sys_init (sys_step matches) s \<Longrightarrow> deliver_msgs matches q s = Ret s' \<Longrightarrow> sy_queue s = q \<Longrightarrow>
     reachable sys_init (sys_step matches) s'"
proof (induction q arbitrary: s)
  case (Cons m q)
  then obtain t where t: "deliver matches m s = Ret t" "deliver_msgs matches q t = Ret s'" by (auto simp: bind_outcome_Ret_iff)
  from Cons.prems(1) have "reachable sys_init (sys_step matches) t" by (rule reach_step) (rule sys_deliver [OF Cons.prems(3) t(1)])
  moreover have "sy_queue t = q" using t(1) Cons.prems(3) by (auto simp: deliver_def map_outcome_Ret_iff)
  ultimately show ?case using Cons.IH t(2) by blast
qed simp

lemma other_recorded:
  fixes s :: "('l, 'h, 'c, 'k) system"
  assumes ml: "multi_level matches" and inv: "sys_inv s" and c: "cf_ctMap (sy_app s) i \<noteq> None" and n: "no_slash n"
  shows "\<exists>s'. sys_step matches s s' \<and> sy_last s' (i, n) = Some (payload_value payload) \<and> sy_app s' = sy_app s"
proof -
  from inv have ok: "app_ok (sy_app s) (sy_routes s) (sy_filters s)" by (simp add: sys_inv_def)
  then have "event_filter i \<in> set (sy_filters s)" "plain_id i"
    using c app_binding [of "sy_app s" i] by (auto simp: app_ok_def)
  then have i: "no_slash i" "list_ex (\<lambda>flt. matches flt (event_topic i n)) (sy_filters s)"
    using event_filter_matches [OF ml, of i i n] n by (auto simp: list_ex_iff plain_id_def)
  let ?call = "PahoPublish (event_topic i n) 1 False payload :: (nat, 'c, 'k) paho_call"
  from i(2) have "forwarded matches (sy_filters s) [?call] = [(event_topic i n, payload)]" by simp
  with sys_other [OF this [symmetric]] topic_key_event [OF i(1) n] show ?thesis
    by (intro exI conjI) (assumption | simp add: note_other_def)+
qed

text \<open>
  Another client publishes a text that is no JSON; the consumed thing then reads that text.\<close>

theorem consumed_values_typed_witness:
  "\<exists>s r c io. cf_ctMap (sy_app (s :: (nat, nat, unit, unit) system)) ''urn:switch'' = Some r \<and> cf_things (sy_app s) r = Some c \<and>
     fst (ReadProperty c ''on'') = Some io \<and> io_Value io = GString ''hello'' \<and> json_typed (io_Value io)"
proof -
  have ml: "multi_level filter_matches" by (rule filter_matches_multi_level)
  note inv = broker_system.reachable_inv [where matches = filter_matches, THEN mp, OF _ ml]
  from home_running obtain s1 r c where s1: "reachable sys_init (sys_step filter_matches) (s1 :: (nat, nat, unit, unit) system)"
      "cf_ctMap (sy_app s1) ''urn:switch'' = Some r" "cf_things (sy_app s1) r = Some c" "ct_TD c = switch_td"
    by (auto simp: switch_td_fields)
  from other_recorded [OF ml inv [OF s1(1)], of "''urn:switch''" "''on''" "''hello''"] s1(2) obtain s where
    "sys_step filter_matches s1 s" "sy_last s (''urn:switch'', ''on'') = Some (payload_value ''hello'')" "sy_app s = sy_app s1"
    by (auto simp: no_slash_def)
  moreover have "json_unmarshal ''hello'' = None" by code_simp
  ultimately have s: "reachable sys_init (sys_step filter_matches) s" "sy_last s (''urn:switch'', ''on'') = Some (GString ''hello'')"
      "sy_app s = sy_app s1"
    using reach_step [OF s1(1)] by (simp_all add: payload_value_def)
  from deliver_queue [OF ml inv [OF s(1)] refl] obtain app where
    d: "deliver_msgs filter_matches (sy_queue s) s = Ret (s\<lparr>sy_app := app, sy_queue := []\<rparr>)"
      "sys_inv (s\<lparr>sy_app := app, sy_queue := []\<rparr>)" "same_tds (sy_app s) app" by blast
  from d(2) s(2) have "settled app ''urn:switch'' ''on'' (GString ''hello'')" by (auto simp: sys_inv_def latest_def)
  then obtain r' c' where r: "cf_ctMap app ''urn:switch'' = Some r'" "cf_things app r' = Some c'"
    and v: "\<forall>pa. GetProperty (ct_TD c') ''on'' = Some pa \<longrightarrow>
        (\<exists>io. getValue c' ''on'' = Some io \<and> io_Value io = read_as (pa_DataSchema pa) (GString ''hello''))"
    by (auto simp: settled_def)
  from s1(2-4) s(3) d(3) r have "ct_TD c' = switch_td" by (auto simp: same_tds_def dest!: spec [of _ r'])
  with v switch_no_object switch_td_fields(3) obtain io where
    io: "fst (ReadProperty c' ''on'') = Some io" "io_Value io = GString ''hello''" by (auto simp: ReadProperty_def read_as_def)
  from deliver_reachable [OF s(1) d(1) refl] have "reachable sys_init (sys_step filter_matches) (s\<lparr>sy_app := app, sy_queue := []\<rparr>)" .
  from consumed_values_typed [OF this _ io(1)] r io show ?thesis by (intro exI [of _ "s\<lparr>sy_app := app, sy_queue := []\<rparr>"] exI [of _ r']) auto
qed

end
