(* ===== verification/Requests.thy ===== *)
theory Requests
  imports Messaging
begin

text \<open>
  The way back: requests from an application to a device. The application invokes actions and writes properties of the things it
  consumes; the broker puts a request on its way when the device is subscribed to its topic at that time; the device hands it to the
  thing that has the ID when it arrives, and the thing to its handler.

  The TDs of the two sides need not be the same. The broker and Paho are as in Messaging. What a handler does is not part of a step.
\<close>

section \<open>Topics\<close>

definition request_topic :: "string \<Rightarrow> string \<Rightarrow> string" where
  "request_topic i name = thing_topic TopicInvokeAction i @ ''/'' @ name"

definition request_filter :: "string \<Rightarrow> string" where
  "request_filter i = thing_topic TopicInvokeAction i @ ''/#''"

lemma action_topic_filter [simp]: "action_topic b = request_filter (td_ID (eb_td b))"
  by (simp add: action_topic_def request_filter_def)

lemma request_filter_iff:
  "multi_level matches \<Longrightarrow> plain_id i \<Longrightarrow>
     matches (request_filter i) t \<longleftrightarrow> take 3 (split_on CHR ''/'' t) = [''things'', i, ''action'']"
  using level_filter_iff [of matches i "''action''" t]
  by (simp add: request_filter_def thing_topics plain_id_def no_slash_def wildcard_free_def)

lemma split_request_topic:
  "no_slash i \<Longrightarrow> no_slash n \<Longrightarrow> split_on CHR ''/'' (request_topic i n) = [''things'', i, ''action'', n]"
  using split_named_topic [of i "''action''" n] split_on_no_sep [of "CHR ''/''" n]
  by (simp add: request_topic_def thing_topics no_slash_def)

lemma request_filter_matches:
  "multi_level matches \<Longrightarrow> plain_id i \<Longrightarrow> no_slash j \<Longrightarrow> no_slash name \<Longrightarrow>
     matches (request_filter i) (request_topic j name) \<longleftrightarrow> i = j"
  by (auto simp: request_filter_iff split_request_topic)

lemma td_topic_no_request:
  "multi_level matches \<Longrightarrow> plain_id i \<Longrightarrow> no_slash j \<Longrightarrow> \<not> matches (request_filter i) (thing_topic TopicThingTD j)"
  using split_topic_parts [of j "''td''" "[]"] by (simp add: request_filter_iff thing_topics no_slash_def)

lemma request_filter_inject: "request_filter i = request_filter j \<longleftrightarrow> i = j"
  by (simp add: request_filter_def thing_topics)

section \<open>The system\<close>

text \<open>
  \<open>rq_routes\<close> are the callbacks of the device's Paho client, \<open>rq_filters\<close> the filters the broker has for it. For the statements only:
  \<open>rq_sent\<close> are the requests put on their way, and \<open>rq_log\<close> has for each that arrived the calls of handlers it led to.
\<close>

record ('l, 'h, 'c, 'k) request_system =
  rq_app :: "('l, 'c, 'k) ct_factory"
  rq_dev :: "('h, 'c, 'k) et_factory"
  rq_routes :: "string \<Rightarrow> nat callback option"
  rq_filters :: "string list"
  rq_queue :: "(string \<times> string) list"
  rq_sent :: "(string \<times> string \<times> goval) list"
  rq_log :: "('h \<times> string \<times> goval) list list"

text \<open>The operations of a consumed thing of the factory, with the methods of its binding behind the hooks.\<close>

definition app_binding_of :: "('l, 'c, 'k) ct_factory \<Rightarrow> nat \<Rightarrow> ct_binding" where
  "app_binding_of app b = the (cf_bindingObjects app b)"

definition app_invoke ::
    "nat \<Rightarrow> string \<Rightarrow> goval \<Rightarrow> ('l, 'c, 'k) ct_factory \<Rightarrow> (error option \<times> (nat, 'c, 'k) paho_call list) outcome" where
  "app_invoke ref name v app =
     (case cf_things app ref of
        None \<Rightarrow> Panic NilDereference
      | Some c \<Rightarrow> Ret (InvokeAction (\<lambda>b. binding_InvokeAction True None (app_binding_of app b) (cf_mqttClient app)) name v c))"

definition app_write ::
    "nat \<Rightarrow> string \<Rightarrow> goval \<Rightarrow> ('l, 'c, 'k) ct_factory \<Rightarrow> (error option \<times> (nat, 'c, 'k) paho_call list) outcome" where
  "app_write ref name v app =
     (case cf_things app ref of
        None \<Rightarrow> Panic NilDereference
      | Some c \<Rightarrow> Ret (WriteProperty (\<lambda>b. binding_WriteProperty True None (app_binding_of app b) (cf_mqttClient app)) name v c))"

text \<open>The MQTT client of the device calls the handler of binding \<open>bref\<close> with a message.\<close>

definition ef_message ::
    "nat \<Rightarrow> string \<Rightarrow> string \<Rightarrow> ('h, 'c, 'k) et_factory \<Rightarrow> (('h, 'c, 'k) et_factory \<times> 'h handler_call list) outcome" where
  "ef_message bref topic message d =
     (case ef_bindingObjects d bref of
        None \<Rightarrow> Panic NilDereference
      | Some binding \<Rightarrow>
          (case ef_things d (eb_eThing binding) of
             None \<Rightarrow> Panic NilDereference
           | Some eThing \<Rightarrow> Ret (d, handleActionRequest topic message eThing)))"

definition note_sent ::
    "'a list \<Rightarrow> string \<Rightarrow> string \<Rightarrow> goval \<Rightarrow> (string \<times> string \<times> goval) list \<Rightarrow> (string \<times> string \<times> goval) list" where
  "note_sent fw i name v sent = (if fw = [] then sent else sent @ [(i, name, v)])"

abbreviation call_values :: "'h handler_call list \<Rightarrow> ('h \<times> string \<times> goval) list" where
  "call_values \<equiv> map (\<lambda>(h, n, io). (h, n, io_Value io))"

definition request_arrives ::
    "(string \<Rightarrow> string \<Rightarrow> bool) \<Rightarrow> string \<times> string \<Rightarrow> ('l, 'h, 'c, 'k) request_system \<Rightarrow> ('l, 'h, 'c, 'k) request_system outcome" where
  "request_arrives matches m s =
     map_outcome (\<lambda>(d, calls). s\<lparr>rq_dev := d, rq_queue := tl (rq_queue s), rq_log := rq_log s @ [call_values calls]\<rparr>)
       (run_filters ef_message matches (rq_routes s) (rq_filters s) (fst m) (snd m) (rq_dev s))"

fun requests_arrive ::
    "(string \<Rightarrow> string \<Rightarrow> bool) \<Rightarrow> (string \<times> string) list \<Rightarrow> ('l, 'h, 'c, 'k) request_system \<Rightarrow>
      ('l, 'h, 'c, 'k) request_system outcome" where
  "requests_arrive matches [] s = Ret s"
| "requests_arrive matches (m # ms) s = bind_outcome (request_arrives matches m s) (requests_arrive matches ms)"

text \<open>
  What happens: the application consumes things, gives them up, and sends requests under names without a slash with values JSON can
  represent; the device exposes and withdraws things and sets their handlers; a request arrives. The TDs exposed have an ID.
\<close>

definition rq_init :: "('l, 'h, 'c, 'k) request_system \<Rightarrow> bool" where
  "rq_init s \<longleftrightarrow>
     (\<exists>appID account ca m gw cert ca2 m2.
        rq_app s = (CreateConsumedThingFactory appID account ca)\<lparr>cf_mqttClient := m\<rparr> \<and> connected m \<and>
        rq_dev s = (CreateExposedThingFactory gw cert ca2)\<lparr>ef_mqttClient := m2\<rparr> \<and> connected m2 \<and> mc_subscriptions m2 = Map.empty) \<and>
     rq_routes s = (\<lambda>_. None) \<and> rq_filters s = [] \<and> rq_queue s = [] \<and> rq_sent s = [] \<and> rq_log s = []"

inductive rq_step ::
    "(string \<Rightarrow> string \<Rightarrow> bool) \<Rightarrow> ('l, 'h, 'c, 'k) request_system \<Rightarrow> ('l, 'h, 'c, 'k) request_system \<Rightarrow> bool" for matches where
  rq_consume:
    "plain_id (td_ID td) \<Longrightarrow> Consume td (rq_app s) = (r, app, calls) \<Longrightarrow> rq_step matches s (s\<lparr>rq_app := app\<rparr>)"
| rq_release:
    "cf_Destroy r (rq_app s) = Ret (app, calls) \<Longrightarrow> rq_step matches s (s\<lparr>rq_app := app\<rparr>)"
| rq_expose:
    "plain_id (td_ID td) \<Longrightarrow> td_ID td \<noteq> [] \<Longrightarrow> Expose True ans deviceID td (rq_dev s) = (r, found, dev, calls) \<Longrightarrow>
       flts = fold broker_call calls (rq_filters s) \<Longrightarrow>
       rq_step matches s (s\<lparr>rq_dev := dev, rq_routes := routes calls (rq_routes s), rq_filters := flts,
         rq_queue := rq_queue s @ forwarded matches flts calls\<rparr>)"
| rq_withdraw:
    "ef_Destroy r (rq_dev s) = Ret (dev, calls) \<Longrightarrow>
       rq_step matches s (s\<lparr>rq_dev := dev, rq_routes := routes calls (rq_routes s),
         rq_filters := fold broker_call calls (rq_filters s)\<rparr>)"
| rq_set_action:
    "ef_things (rq_dev s) r = Some e \<Longrightarrow> SetActionHandler name h e = Ret e' \<Longrightarrow>
       rq_step matches s (s\<lparr>rq_dev := (rq_dev s)\<lparr>ef_things := (ef_things (rq_dev s))(r \<mapsto> e')\<rparr>\<rparr>)"
| rq_set_write:
    "ef_things (rq_dev s) r = Some e \<Longrightarrow> SetPropertyWriteHandler name h e = Ret e' \<Longrightarrow>
       rq_step matches s (s\<lparr>rq_dev := (rq_dev s)\<lparr>ef_things := (ef_things (rq_dev s))(r \<mapsto> e')\<rparr>\<rparr>)"
| rq_invoke:
    "cf_things (rq_app s) r = Some c \<Longrightarrow> no_slash name \<Longrightarrow> goval_ok v \<Longrightarrow> app_invoke r name v (rq_app s) = Ret (err, calls) \<Longrightarrow>
       fw = forwarded matches (rq_filters s) calls \<Longrightarrow>
       rq_step matches s (s\<lparr>rq_queue := rq_queue s @ fw, rq_sent := note_sent fw (td_ID (ct_TD c)) name v (rq_sent s)\<rparr>)"
| rq_write:
    "cf_things (rq_app s) r = Some c \<Longrightarrow> no_slash name \<Longrightarrow> goval_ok v \<Longrightarrow> app_write r name v (rq_app s) = Ret (err, calls) \<Longrightarrow>
       fw = forwarded matches (rq_filters s) calls \<Longrightarrow>
       rq_step matches s (s\<lparr>rq_queue := rq_queue s @ fw, rq_sent := note_sent fw (td_ID (ct_TD c)) name v (rq_sent s)\<rparr>)"
| rq_arrive:
    "rq_queue s = m # q \<Longrightarrow> request_arrives matches m s = Ret s' \<Longrightarrow> rq_step matches s s'"

section \<open>What a request asks for\<close>

text \<open>
  The calls a request is to lead to, by the state of the device: of the thing that has the ID, the handler of the action, or the write
  handler of a property that is not read-only, with the value in the form JSON gives it. A handler of an object gets nil
  (InteractionOutput.output_from_json_object).
\<close>

definition asked :: "'h exposed_thing \<Rightarrow> string \<Rightarrow> goval \<Rightarrow> ('h \<times> string \<times> goval) list" where
  "asked e name v =
     (case GetAction (et_TD e) name of
        Some aa \<Rightarrow>
          (case pick_handler (et_actionHandlers e) name of
             None \<Rightarrow> []
           | Some h \<Rightarrow> [(h, name, if object_schema (Some (aa_Input aa)) then GNil else canon v)])
      | None \<Rightarrow>
          (case (if et_propertyWriteHandlers e = None then None else GetProperty (et_TD e) name) of
             None \<Rightarrow> []
           | Some pa \<Rightarrow>
               (case (if ds_ReadOnly (pa_DataSchema pa) then None else pick_handler (et_propertyWriteHandlers e) name) of
                  None \<Rightarrow> []
                | Some h \<Rightarrow> [(h, name, canon v)])))"

definition request_calls :: "('h, 'c, 'k) et_factory \<Rightarrow> string \<times> string \<times> goval \<Rightarrow> ('h \<times> string \<times> goval) list" where
  "request_calls d rq =
     (case rq of (i, name, v) \<Rightarrow>
        (case ef_etMap d i of
           None \<Rightarrow> []
         | Some r \<Rightarrow> (case ef_things d r of None \<Rightarrow> [] | Some e \<Rightarrow> asked e name v)))"

text \<open>No call, or one call with the name and the value of the request.\<close>

definition answers :: "('h \<times> string \<times> goval) list \<Rightarrow> string \<times> string \<times> goval \<Rightarrow> bool" where
  "answers calls rq \<longleftrightarrow>
     (case rq of (i, name, v) \<Rightarrow> calls = [] \<or> (\<exists>h x. calls = [(h, name, x)] \<and> (x = canon v \<or> x = GNil)))"

lemma asked_answers: "answers (asked e name v) (i, name, v)"
  by (auto simp: asked_def answers_def split: option.splits)

lemma request_calls_answers: "answers (request_calls d rq) rq"
  using asked_answers by (auto simp: request_calls_def answers_def split: prod.splits option.splits)

lemma request_dispatch:
  assumes "no_slash (td_ID td)" and "td_ID td \<noteq> []" and "no_slash n" and "et_TD e = td" and "json_unmarshal msg = Some (canon v)"
  shows "call_values (handleActionRequest (request_topic (td_ID td) n) msg e) = asked e n v"
proof -
  have "call_values (HandleActionRequest n msg e) = asked e n v"
    using assms(5) from_json_payload [of msg] payload_value_encoded [OF assms(5)]
    by (auto simp: HandleActionRequest_def handlePropertyWriteRequest_def asked_def read_as_def Let_def NewInteractionOutput_def split: option.split)
  then show ?thesis unfolding request_topic_def handle_topic [OF assms(1,3,2)] .
qed

section \<open>The application\<close>

text \<open>The hooks of a consumed thing lead to a binding with its TD.\<close>

definition ct_hooked :: "(nat \<rightharpoonup> ct_binding) \<Rightarrow> 'l consumed_thing \<Rightarrow> bool" where
  "ct_hooked objs c \<longleftrightarrow>
     (\<forall>b. ct_InvokeActionHook c = Some b \<or> ct_WritePropertyHook c = Some b \<longrightarrow> (\<exists>B. objs b = Some B \<and> cb_td B = ct_TD c))"

definition sender_ok :: "('l, 'c, 'k) ct_factory \<Rightarrow> bool" where
  "sender_ok app \<longleftrightarrow>
     connected (cf_mqttClient app) \<and> below (cf_bindingObjects app) (cf_next app) \<and>
     (\<forall>r c. cf_things app r = Some c \<longrightarrow> plain_id (td_ID (ct_TD c)) \<and> ct_hooked (cf_bindingObjects app) c)"

lemma ct_hooked_new: "ct_hooked objs c \<Longrightarrow> below objs n \<Longrightarrow> n \<le> k \<Longrightarrow> ct_hooked (objs(k \<mapsto> B)) c"
  unfolding ct_hooked_def below_def by (metis fun_upd_other not_le option.discI)

lemma subscribe_connected:
  "connected (fst (Subscribe t h m)) \<longleftrightarrow> connected m" "connected (fst (Unsubscribe t m)) \<longleftrightarrow> connected m"
  by (auto simp: Subscribe_def Unsubscribe_def connected_def Let_def split: option.splits)

lemma CreateConsumedThing_TD [simp]: "ct_TD (CreateConsumedThing td) = td"
  by (simp add: CreateConsumedThing_def)

lemma sender_consume:
  assumes ok: "sender_ok app" and p: "plain_id (td_ID td)" and c: "Consume td app = (r, app', calls)"
  shows "sender_ok app'"
proof (cases "cf_ctMap app (td_ID td)")
  case (Some x)
  with ok c show ?thesis by (simp add: Consume_def)
next
  case None
  let ?n = "cf_next app"
  let ?B = "\<lparr>cb_td = td, cb_cThing = ?n\<rparr>"
  let ?c = "(CreateConsumedThing td)\<lparr>ct_InvokeActionHook := Some (Suc ?n), ct_WritePropertyHook := Some (Suc ?n)\<rparr>"
  from ok have b: "below (cf_bindingObjects app) ?n" and k: "connected (cf_mqttClient app)" by (simp_all add: sender_ok_def)
  have "ct_hooked ((cf_bindingObjects app)(Suc ?n \<mapsto> ?B)) d" if "cf_things app x = Some d" for x d
    using ok b that by (intro ct_hooked_new [of _ _ ?n]) (auto simp: sender_ok_def)
  moreover have "ct_hooked ((cf_bindingObjects app)(Suc ?n \<mapsto> ?B)) ?c"
    by (simp add: ct_hooked_def)
  moreover have "below ((cf_bindingObjects app)(Suc ?n \<mapsto> ?B)) (Suc (Suc ?n))" using b by (auto intro: below_upd)
  moreover obtain mqtt cs where s: "Subscribe (binding_topic ?B) (Suc ?n) (cf_mqttClient app) = (mqtt, cs)" by (metis surj_pair)
  moreover have "connected mqtt" using subscribe_connected(1) [of "binding_topic ?B" "Suc ?n" "cf_mqttClient app"] s k by simp
  ultimately show ?thesis
    using ok p Consume_new [OF None] c unfolding sender_ok_def by auto
qed

lemma sender_release:
  assumes ok: "sender_ok app" and d: "cf_Destroy r app = Ret (app', calls)"
  shows "sender_ok app'"
proof -
  from d obtain c where c: "cf_things app r = Some c" by (auto simp: cf_Destroy_def split: option.splits)
  have s: "ct_hooked objs (Stop c) = ct_hooked objs c" "ct_TD (Stop c) = ct_TD c" for objs
    by (simp_all add: ct_hooked_def Stop_def)
  from cf_Destroy_Ret [OF c] obtain mqtt cs where m: "cf_Destroy r app =
      Ret (app\<lparr>cf_mqttClient := mqtt, cf_bindings := (cf_bindings app)(td_ID (ct_TD c) := None),
           cf_things := (cf_things app)(r \<mapsto> Stop c), cf_ctMap := (cf_ctMap app)(td_ID (ct_TD c) := None)\<rparr>, cs)"
      "(mqtt, cs) = (case cf_bindings app (td_ID (ct_TD c)) of
        None \<Rightarrow> (cf_mqttClient app, [])
      | Some b \<Rightarrow> binding_Stop (the (cf_bindingObjects app b)) (cf_mqttClient app))" by blast
  have "connected mqtt \<longleftrightarrow> connected (cf_mqttClient app)"
  proof (cases "cf_bindings app (td_ID (ct_TD c))")
    case (Some b)
    with m(2) have "mqtt = fst (Unsubscribe (binding_topic (the (cf_bindingObjects app b))) (cf_mqttClient app))"
      by (simp add: binding_Stop_def) (metis fst_conv)
    then show ?thesis by (simp add: subscribe_connected)
  qed (use m(2) in simp)
  with m(1) d ok c s show ?thesis by (auto simp: sender_ok_def)
qed

text \<open>A request publishes nothing, or one message with the value.\<close>

lemma app_binding_td:
  "sender_ok app \<Longrightarrow> cf_things app r = Some c \<Longrightarrow> ct_InvokeActionHook c = Some b \<or> ct_WritePropertyHook c = Some b \<Longrightarrow>
     cb_td (app_binding_of app b) = ct_TD c"
  unfolding sender_ok_def ct_hooked_def app_binding_of_def by force

lemma app_invoke_sends:
  assumes ok: "sender_ok app" and c: "cf_things app r = Some c" and v: "goval_ok v" and i: "app_invoke r n v app = Ret (err, calls)"
  shows "sends (request_topic (td_ID (ct_TD c)) n) v calls"
proof -
  have "connected (cf_mqttClient app)" using ok by (simp add: sender_ok_def)
  from publish_sends [OF this v, of "request_topic (td_ID (ct_TD c)) n"]
  have "sends (request_topic (td_ID (ct_TD c)) n) v (snd (binding_InvokeAction True None (app_binding_of app b) (cf_mqttClient app) n v))"
    if "ct_InvokeActionHook c = Some b" for b
    using app_binding_td [OF ok c, of b] that
    by (auto simp: binding_InvokeAction_def request_topic_def sends_def split: option.split)
  then show ?thesis using i c by (auto simp: app_invoke_def InvokeAction_def sends_def split: option.splits)
qed

lemma app_write_sends:
  assumes ok: "sender_ok app" and c: "cf_things app r = Some c" and v: "goval_ok v" and i: "app_write r n v app = Ret (err, calls)"
  shows "sends (request_topic (td_ID (ct_TD c)) n) v calls"
proof -
  have "connected (cf_mqttClient app)" using ok by (simp add: sender_ok_def)
  from publish_sends [OF this v, of "request_topic (td_ID (ct_TD c)) n"]
  have "sends (request_topic (td_ID (ct_TD c)) n) v (snd (binding_WriteProperty True None (app_binding_of app b) (cf_mqttClient app) n v))"
    if "ct_WritePropertyHook c = Some b" for b
    using app_binding_td [OF ok c, of b] that by (auto simp: binding_WriteProperty_def request_topic_def)
  then show ?thesis using i c by (auto simp: app_write_def WriteProperty_def sends_def split: option.splits)
qed

section \<open>The device\<close>

text \<open>The binding under an ID belongs to the thing under it; Paho has its callback, and the wrapper its subscription.\<close>

definition served :: "('h, 'c, 'k) et_factory \<Rightarrow> (string \<Rightarrow> nat callback option) \<Rightarrow> string \<Rightarrow> nat \<Rightarrow> bool" where
  "served d rt i b \<longleftrightarrow>
     plain_id i \<and> i \<noteq> [] \<and> rt (request_filter i) = Some (CallHandler b) \<and> handler_of (ef_mqttClient d) (request_filter i) \<noteq> None \<and>
     (\<exists>x e. ef_bindingObjects d b = Some \<lparr>eb_eThing = x, eb_td = et_TD e\<rparr> \<and> ef_etMap d i = Some x \<and> ef_things d x = Some e \<and>
        td_ID (et_TD e) = i)"

definition server_ok :: "('h, 'c, 'k) et_factory \<Rightarrow> (string \<Rightarrow> nat callback option) \<Rightarrow> string list \<Rightarrow> bool" where
  "server_ok d rt flts \<longleftrightarrow>
     connected (ef_mqttClient d) \<and> below (ef_things d) (ef_next d) \<and> below (ef_bindingObjects d) (ef_next d) \<and>
     distinct flts \<and> (\<forall>t. t \<in> set flts \<longleftrightarrow> (\<exists>i. t = request_filter i \<and> ef_bindings d i \<noteq> None)) \<and>
     (\<forall>i. ef_bindings d i = None \<longrightarrow> ef_etMap d i = None) \<and> (\<forall>i b. ef_bindings d i = Some b \<longrightarrow> served d rt i b)"

lemma server_served: "server_ok d rt flts \<Longrightarrow> ef_bindings d i = Some b \<Longrightarrow> served d rt i b"
  by (simp add: server_ok_def)

lemma request_filters:
  assumes "multi_level matches" and "server_ok d rt flts" and "no_slash i" and "no_slash n" and "flt \<in> set flts"
  shows "matches flt (request_topic i n) \<longleftrightarrow> flt = request_filter i"
proof -
  from assms(2,5) obtain j b where "flt = request_filter j" "ef_bindings d j = Some b" by (auto simp: server_ok_def)
  moreover from this server_served [OF assms(2)] have "plain_id j" by (auto simp: served_def)
  ultimately show ?thesis using request_filter_matches [OF assms(1) _ assms(3,4)] by (auto simp: request_filter_inject)
qed

text \<open>A request goes to the binding of the thing that has the ID, or nowhere.\<close>

lemma request_unserved:
  assumes ml: "multi_level matches" and ok: "server_ok d rt flts" and s: "no_slash i" "no_slash n" and "ef_bindings d i = None"
  shows "ef_etMap d i = None" "run_filters handle matches rt flts (request_topic i n) msg f = Ret (f, [])"
proof -
  from ok assms(5) have "request_filter i \<notin> set flts" by (auto simp: server_ok_def request_filter_inject)
  with request_filters [OF ml ok s] show "run_filters handle matches rt flts (request_topic i n) msg f = Ret (f, [])"
    by (auto intro: run_filters_none)
  show "ef_etMap d i = None" using ok assms(5) by (simp add: server_ok_def)
qed

lemma request_routed:
  assumes ml: "multi_level matches" and ok: "server_ok d rt flts" and s: "no_slash i" "no_slash n" and b: "ef_bindings d i = Some b"
    and h: "handle b (request_topic i n) msg f = Ret (f', calls)"
  shows "run_filters handle matches rt flts (request_topic i n) msg f = Ret (f', calls)"
proof -
  have "rt (request_filter i) = Some (CallHandler b)" using server_served [OF ok b] by (simp add: served_def)
  moreover from ok b have "distinct flts" "request_filter i \<in> set flts" by (auto simp: server_ok_def)
  ultimately show ?thesis
    using request_filters [OF ml ok s] h by (intro run_filters_one [where handle = handle and r = rt]) (assumption | simp)+
qed

lemma request_served:
  assumes ml: "multi_level matches" and ok: "server_ok d rt flts" and s: "no_slash i" "no_slash n"
    and v: "json_unmarshal msg = Some (canon v)"
  shows "\<exists>calls. run_filters ef_message matches rt flts (request_topic i n) msg d = Ret (d, calls) \<and>
    call_values calls = request_calls d (i, n, v)"
proof (cases "ef_bindings d i")
  case None
  with request_unserved [OF ml ok s] show ?thesis by (simp add: request_calls_def)
next
  case (Some b)
  with server_served [OF ok] have "served d rt i b" by blast
  then obtain x e where e: "i \<noteq> []" "ef_bindingObjects d b = Some \<lparr>eb_eThing = x, eb_td = et_TD e\<rparr>" "ef_etMap d i = Some x"
      "ef_things d x = Some e" "td_ID (et_TD e) = i"
    by (auto simp: served_def)
  let ?calls = "handleActionRequest (request_topic i n) msg e"
  have "ef_message b (request_topic i n) msg d = Ret (d, ?calls)" using e by (simp add: ef_message_def)
  then have "run_filters ef_message matches rt flts (request_topic i n) msg d = Ret (d, ?calls)"
    by (rule request_routed [OF ml ok s Some])
  moreover have "call_values ?calls = request_calls d (i, n, v)"
    using request_dispatch [of "et_TD e" n e msg v] e s v by (simp add: request_calls_def)
  ultimately show ?thesis by blast
qed

lemma served_things:
  assumes "served d rt i b" and "ef_things d r = Some e" and "et_TD e' = et_TD e"
  shows "served (d\<lparr>ef_things := (ef_things d)(r \<mapsto> e')\<rparr>) rt i b"
proof -
  from assms(1) obtain x f where x: "ef_bindingObjects d b = Some \<lparr>eb_eThing = x, eb_td = et_TD f\<rparr>" "ef_etMap d i = Some x"
      "ef_things d x = Some f" "td_ID (et_TD f) = i" by (auto simp: served_def)
  let ?f = "if x = r then e' else f"
  have "et_TD ?f = et_TD f" "((ef_things d)(r \<mapsto> e')) x = Some ?f" using x(3) assms(2,3) by auto
  with x assms(1) show ?thesis by (auto simp: served_def intro!: exI [of _ ?f])
qed

lemma server_things:
  "server_ok d rt flts \<Longrightarrow> ef_things d r = Some e \<Longrightarrow> et_TD e' = et_TD e \<Longrightarrow>
     server_ok (d\<lparr>ef_things := (ef_things d)(r \<mapsto> e')\<rparr>) rt flts"
  by (auto simp: server_ok_def intro: below_same served_things)

lemma handler_of_subscribe:
  "handler_of (fst (Subscribe t h m)) = (handler_of m)(t \<mapsto> h)"
  "connected m \<Longrightarrow> handler_of (fst (Unsubscribe t m)) = (handler_of m)(t := None)"
  "connected m \<Longrightarrow> handler_of m t \<noteq> None \<Longrightarrow> snd (Unsubscribe t m) = [PahoUnsubscribe t]"
  by (auto simp: Subscribe_def Unsubscribe_def handler_of_def connected_def Let_def fun_eq_iff split: option.splits)

lemma server_expose:
  assumes ml: "multi_level matches" and ok: "server_ok d rt flts" and p: "plain_id (td_ID td)" "td_ID td \<noteq> []"
    and e: "Expose True ans deviceID td d = (r, found, d', calls)"
  shows "server_ok d' (routes calls rt) (fold broker_call calls flts) \<and> forwarded matches (fold broker_call calls flts) calls = []"
proof (cases "ef_etMap d (td_ID td)")
  case (Some x)
  with ok e show ?thesis by (simp add: Expose_def routes_def)
next
  case None
  let ?n = "ef_next d" and ?i = "td_ID td"
  let ?b = "Suc ?n"
  let ?B = "\<lparr>eb_eThing = ?n, eb_td = td\<rparr>"
  let ?e = "(CreateExposedThing deviceID td)\<lparr>et_EmitPropertyChangeHook := Some ?b, et_EmitEventHook := Some ?b\<rparr>"
  from ok have c: "connected (ef_mqttClient d)" and bel: "below (ef_things d) ?n" "below (ef_bindingObjects d) ?n"
    by (simp_all add: server_ok_def)
  have nb: "ef_bindings d ?i = None"
    using None server_served [OF ok, of ?i] by (cases "ef_bindings d ?i") (auto simp: served_def)
  from Expose_new [OF None, of True ans deviceID] e obtain mqtt where
    d': "d' = d\<lparr>ef_bindings := (ef_bindings d)(?i \<mapsto> ?b), ef_etMap := (ef_etMap d)(?i \<mapsto> ?n),
       ef_mqttClient := mqtt, ef_things := (ef_things d)(?n \<mapsto> ?e),
       ef_bindingObjects := (ef_bindingObjects d)(?b \<mapsto> ?B), ef_next := Suc ?b\<rparr>"
    and st: "et_binding_Start True ans ?b ?B (ef_mqttClient d) = (mqtt, calls)"
    by auto
  from st c obtain q q2 msg where calls: "calls = [PahoSubscribe (request_filter ?i) q (CallHandler ?b),
        PahoPublish (thing_topic TopicThingTD ?i) q2 False msg]"
      and mqtt: "mqtt = fst (Subscribe (request_filter ?i) ?b (ef_mqttClient d))"
    by (auto simp: et_binding_Start_def Subscribe_def Let_def PublishObject_def Publish_def connected_def
        split: if_splits prod.splits)
  let ?flts = "fold broker_call calls flts" and ?rt = "routes calls rt"
  have fl: "?flts = flts @ [request_filter ?i]" "?rt = rt(request_filter ?i \<mapsto> CallHandler ?b)"
    using ok nb by (auto simp: calls routes_def server_ok_def request_filter_inject)
  have h: "handler_of mqtt = (handler_of (ef_mqttClient d))(request_filter ?i \<mapsto> ?b)" "connected mqtt"
    using c by (simp_all add: mqtt handler_of_subscribe subscribe_connected)
  have "served d' ?rt i b" if "ef_bindings d' i = Some b" for i b
  proof (cases "i = ?i")
    case True
    with that p h(1) show ?thesis by (simp add: d' fl served_def)
  next
    case False
    with that server_served [OF ok, of i b] obtain x f where s: "plain_id i" "i \<noteq> []"
        "rt (request_filter i) = Some (CallHandler b)" "handler_of (ef_mqttClient d) (request_filter i) \<noteq> None"
        "ef_bindingObjects d b = Some \<lparr>eb_eThing = x, eb_td = et_TD f\<rparr>" "ef_etMap d i = Some x" "ef_things d x = Some f"
        "td_ID (et_TD f) = i"
      by (auto simp: d' served_def)
    with bel have "b < ?n" "x < ?n" by (auto simp: below_def)
    with s False h(1) have "ef_bindingObjects d' b = Some \<lparr>eb_eThing = x, eb_td = et_TD f\<rparr> \<and> ef_etMap d' i = Some x \<and>
        ef_things d' x = Some f" "?rt (request_filter i) = Some (CallHandler b)"
        "handler_of (ef_mqttClient d') (request_filter i) \<noteq> None"
      by (auto simp: d' fl request_filter_inject)
    with s show ?thesis unfolding served_def by blast
  qed
  moreover have "below (ef_things d') (ef_next d')" "below (ef_bindingObjects d') (ef_next d')"
    using bel by (auto simp: d' intro!: below_upd)
  ultimately have "server_ok d' ?rt ?flts"
    using ok nb h(2) fl(1) by (auto simp: server_ok_def d' request_filter_inject)
  moreover have "\<not> matches flt (thing_topic TopicThingTD ?i)" if "flt \<in> set ?flts" for flt
  proof -
    from that fl(1) ok p(1) obtain j where "flt = request_filter j" "plain_id j"
      by (auto simp: server_ok_def served_def)
    with td_topic_no_request [OF ml] p(1) show ?thesis by (auto simp: plain_id_def)
  qed
  then have "forwarded matches ?flts calls = []" by (intro forwarded_none) (auto simp: calls)
  ultimately show ?thesis by blast
qed

lemma server_withdraw:
  assumes ok: "server_ok d rt flts" and w: "ef_Destroy r d = Ret (d', calls)"
  shows "server_ok d' (routes calls rt) (fold broker_call calls flts)"
proof -
  from w obtain e where e: "ef_things d r = Some e" by (auto simp: ef_Destroy_def split: option.splits)
  let ?i = "td_ID (et_TD e)"
  have dt: "et_TD (et_Destroy e) = et_TD e" by (simp add: et_Destroy_def)
  from ok have c: "connected (ef_mqttClient d)" by (simp add: server_ok_def)
  show ?thesis
  proof (cases "ef_bindings d ?i")
    case None
    with ok have "ef_etMap d ?i = None" by (simp add: server_ok_def)
    then have "(ef_etMap d)(?i := None) = ef_etMap d" by auto
    with None w e have "d' = d\<lparr>ef_things := (ef_things d)(r \<mapsto> et_Destroy e)\<rparr>" "calls = []"
      by (auto simp: ef_Destroy_def Let_def)
    with server_things [OF ok e dt] show ?thesis by (simp add: routes_def)
  next
    case (Some b)
    let ?f = "request_filter ?i"
    from server_served [OF ok Some] obtain x where b: "the (ef_bindingObjects d b) = x" "td_ID (eb_td x) = ?i"
        "handler_of (ef_mqttClient d) ?f \<noteq> None"
      by (auto simp: served_def)
    obtain mqtt where u: "Unsubscribe ?f (ef_mqttClient d) = (mqtt, [PahoUnsubscribe ?f])"
      using handler_of_subscribe(3) [OF c b(3)] by (metis surj_pair snd_conv)
    with w e Some b have d': "d' = d\<lparr>ef_mqttClient := mqtt, ef_bindings := (ef_bindings d)(?i := None),
           ef_things := (ef_things d)(r \<mapsto> et_Destroy e), ef_etMap := (ef_etMap d)(?i := None)\<rparr>"
        and calls: "calls = [PahoUnsubscribe ?f]"
      by (auto simp: ef_Destroy_def Let_def et_binding_Stop_def)
    have h: "handler_of mqtt = (handler_of (ef_mqttClient d))(?f := None)" "connected mqtt"
      using handler_of_subscribe(2) [OF c, of ?f] subscribe_connected(2) [of ?f "ef_mqttClient d"] c u by simp_all
    have "served d' (routes calls rt) i y" if "ef_bindings d' i = Some y" for i y
    proof -
      from that have i: "i \<noteq> ?i" "ef_bindings d i = Some y" by (auto simp: d' split: if_splits)
      from served_things [OF server_served [OF ok i(2)] e dt] i(1) h(1) show ?thesis
        by (auto simp: d' calls routes_def served_def request_filter_inject)
    qed
    moreover have "below (ef_things d') (ef_next d')" using ok e by (auto simp: d' server_ok_def intro: below_same)
    ultimately show ?thesis
      using ok h(2) by (auto simp: server_ok_def d' calls request_filter_inject distinct_removeAll)
  qed
qed

section \<open>Requests on their way\<close>

definition carries :: "string \<times> string \<Rightarrow> string \<times> string \<times> goval \<Rightarrow> bool" where
  "carries m rq \<longleftrightarrow>
     (case rq of (i, name, v) \<Rightarrow>
        no_slash i \<and> no_slash name \<and> fst m = request_topic i name \<and> json_unmarshal (snd m) = Some (canon v))"

definition rq_inv :: "('l, 'h, 'c, 'k) request_system \<Rightarrow> bool" where
  "rq_inv s \<longleftrightarrow>
     sender_ok (rq_app s) \<and> server_ok (rq_dev s) (rq_routes s) (rq_filters s) \<and>
     (\<exists>arrived due. rq_sent s = arrived @ due \<and> list_all2 answers (rq_log s) arrived \<and> list_all2 carries (rq_queue s) due)"

lemma rq_invI:
  "sender_ok (rq_app s) \<Longrightarrow> server_ok (rq_dev s) (rq_routes s) (rq_filters s) \<Longrightarrow> rq_sent s = arrived @ due \<Longrightarrow>
     list_all2 answers (rq_log s) arrived \<Longrightarrow> list_all2 carries (rq_queue s) due \<Longrightarrow> rq_inv s"
  unfolding rq_inv_def by blast

lemma rq_inv_init: "rq_init s \<Longrightarrow> rq_inv s"
  unfolding rq_init_def rq_inv_def sender_ok_def server_ok_def
  by (auto simp: CreateConsumedThingFactory_def CreateExposedThingFactory_def below_def connected_def)

lemma rq_inv_app: "rq_inv s \<Longrightarrow> sender_ok app \<Longrightarrow> rq_inv (s\<lparr>rq_app := app\<rparr>)"
  by (simp add: rq_inv_def)

lemma rq_inv_dev:
  "rq_inv s \<Longrightarrow> server_ok dev rt flts \<Longrightarrow> rq_inv (s\<lparr>rq_dev := dev, rq_routes := rt, rq_filters := flts\<rparr>)"
  by (simp add: rq_inv_def)

lemma rq_inv_handlers:
  assumes "rq_inv s" and "ef_things (rq_dev s) r = Some e" and "et_TD e' = et_TD e"
  shows "rq_inv (s\<lparr>rq_dev := (rq_dev s)\<lparr>ef_things := (ef_things (rq_dev s))(r \<mapsto> e')\<rparr>\<rparr>)"
  using assms server_things [OF _ assms(2,3)] by (simp add: rq_inv_def)

lemma rq_inv_send:
  assumes inv: "rq_inv s" and i: "no_slash i" "no_slash n" and c: "sends (request_topic i n) v calls"
    and fw: "fw = forwarded matches (rq_filters s) calls"
  shows "rq_inv (s\<lparr>rq_queue := rq_queue s @ fw, rq_sent := note_sent fw i n v (rq_sent s)\<rparr>)"
proof (cases "fw = []")
  case True
  with inv show ?thesis by (simp add: note_sent_def rq_inv_def)
next
  case False
  with c fw obtain msg where m: "fw = [(request_topic i n, msg)]" "json_unmarshal msg = Some (canon v)"
    by (auto simp: sends_def split: if_splits)
  from inv obtain arrived due where d: "rq_sent s = arrived @ due" "list_all2 answers (rq_log s) arrived" "list_all2 carries (rq_queue s) due"
    by (auto simp: rq_inv_def)
  have "list_all2 carries (rq_queue s @ fw) (due @ [(i, n, v)])"
    using d(3) m i by (auto simp: carries_def intro: list_all2_appendI)
  moreover from inv have "sender_ok (rq_app s)" "server_ok (rq_dev s) (rq_routes s) (rq_filters s)" by (simp_all add: rq_inv_def)
  ultimately show ?thesis
    using d m(1) by (intro rq_invI [where arrived = arrived and due = "due @ [(i, n, v)]"]) (simp_all add: note_sent_def)
qed

lemma arrive_ok:
  assumes ml: "multi_level matches" and inv: "rq_inv s" and q: "rq_queue s = m # q"
  shows "\<exists>rq due. drop (length (rq_log s)) (rq_sent s) = rq # due \<and>
    request_arrives matches m s = Ret (s\<lparr>rq_queue := q, rq_log := rq_log s @ [request_calls (rq_dev s) rq]\<rparr>) \<and>
    rq_inv (s\<lparr>rq_queue := q, rq_log := rq_log s @ [request_calls (rq_dev s) rq]\<rparr>)"
proof -
  from inv q obtain arrived i n v due where d: "rq_sent s = arrived @ (i, n, v) # due" "list_all2 answers (rq_log s) arrived"
      "carries m (i, n, v)" "list_all2 carries q due"
    by (auto simp: rq_inv_def list_all2_Cons1)
  from inv have ok: "server_ok (rq_dev s) (rq_routes s) (rq_filters s)" by (simp add: rq_inv_def)
  from d(3) have c: "no_slash i" "no_slash n" "fst m = request_topic i n" "json_unmarshal (snd m) = Some (canon v)"
    by (simp_all add: carries_def)
  from request_served [OF ml ok c(1,2,4)] obtain calls where
    r: "run_filters ef_message matches (rq_routes s) (rq_filters s) (request_topic i n) (snd m) (rq_dev s) = Ret (rq_dev s, calls)"
      "call_values calls = request_calls (rq_dev s) (i, n, v)" by blast
  have "request_arrives matches m s = Ret (s\<lparr>rq_queue := q, rq_log := rq_log s @ [request_calls (rq_dev s) (i, n, v)]\<rparr>)"
    using r by (simp add: request_arrives_def c(3) q)
  moreover have "list_all2 answers (rq_log s @ [request_calls (rq_dev s) (i, n, v)]) (arrived @ [(i, n, v)])"
    using d(2) request_calls_answers by (intro list_all2_appendI) auto
  then have "rq_inv (s\<lparr>rq_queue := q, rq_log := rq_log s @ [request_calls (rq_dev s) (i, n, v)]\<rparr>)"
    using inv ok d(1,4) by (intro rq_invI [where arrived = "arrived @ [(i, n, v)]" and due = due]) (simp_all add: rq_inv_def)
  moreover have "drop (length (rq_log s)) (rq_sent s) = (i, n, v) # due"
    using d(1) list_all2_lengthD [OF d(2)] by simp
  ultimately show ?thesis by blast
qed

lemma rq_inv_step:
  assumes ml: "multi_level matches" and inv: "rq_inv s" and "rq_step matches s t"
  shows "rq_inv t"
  using assms(3)
proof cases
  note ok = inv [unfolded rq_inv_def]
  {
    case rq_consume
    then show ?thesis using sender_consume ok rq_inv_app [OF inv] by blast
  next
    case rq_release
    then show ?thesis using sender_release ok rq_inv_app [OF inv] by blast
  next
    case (rq_expose td ans deviceID r found dev calls flts)
    with server_expose [OF ml] ok have "server_ok dev (routes calls (rq_routes s)) flts" "forwarded matches flts calls = []" by blast+
    with rq_inv_dev [OF inv] rq_expose(1) show ?thesis by simp
  next
    case rq_withdraw
    then show ?thesis using server_withdraw ok rq_inv_dev [OF inv] by blast
  next
    case rq_set_action
    then show ?thesis using rq_inv_handlers [OF inv] set_handlers_frame(1) by blast
  next
    case rq_set_write
    then show ?thesis using rq_inv_handlers [OF inv] set_handlers_frame(2) by blast
  next
    case (rq_invoke r c name v err calls fw)
    then have "no_slash (td_ID (ct_TD c))" using ok by (auto simp: sender_ok_def plain_id_def)
    with rq_invoke rq_inv_send [OF inv _ _ app_invoke_sends] ok show ?thesis by blast
  next
    case (rq_write r c name v err calls fw)
    then have "no_slash (td_ID (ct_TD c))" using ok by (auto simp: sender_ok_def plain_id_def)
    with rq_write rq_inv_send [OF inv _ _ app_write_sends] ok show ?thesis by blast
  next
    case rq_arrive
    then show ?thesis using arrive_ok [OF ml inv] by fastforce
  }
qed

interpretation requests: transition_system rq_init "rq_step matches" "\<lambda>s. multi_level matches \<longrightarrow> rq_inv s" for matches
  by unfold_locales (auto intro: rq_inv_init rq_inv_step)

section \<open>Every request is handled once, in order\<close>

lemma all_arrive:
  assumes ml: "multi_level matches" and "rq_inv s" and "rq_queue s = q"
  shows "requests_arrive matches q s = Ret (s\<lparr>rq_queue := [],
      rq_log := rq_log s @ map (request_calls (rq_dev s)) (drop (length (rq_log s)) (rq_sent s))\<rparr>)"
  using assms(2,3)
proof (induction q arbitrary: s)
  case Nil
  then have "drop (length (rq_log s)) (rq_sent s) = []" by (auto simp: rq_inv_def dest: list_all2_lengthD)
  with Nil show ?case by simp
next
  case (Cons m q)
  from arrive_ok [OF ml Cons.prems] obtain rq due where
    a: "drop (length (rq_log s)) (rq_sent s) = rq # due"
      "request_arrives matches m s = Ret (s\<lparr>rq_queue := q, rq_log := rq_log s @ [request_calls (rq_dev s) rq]\<rparr>)"
      "rq_inv (s\<lparr>rq_queue := q, rq_log := rq_log s @ [request_calls (rq_dev s) rq]\<rparr>)" by blast
  from a(1) have "drop (Suc (length (rq_log s))) (rq_sent s) = due" by (metis drop_Suc list.sel(3) tl_drop)
  with Cons.IH [OF a(3)] a(1,2) show ?case by simp
qed

text \<open>
  C2: In every state that application, broker and device can get into, all requests on their way can be delivered without a panic. Each
  request that was put on its way then led to its calls exactly once and in the order of sending: earlier ones to at most one call, with
  its name and value, and those still on their way to what the handlers of the thing that has the ID ask for. The log of calls has one
  entry for each request.
\<close>

theorem requests_handled_in_order:
  assumes "multi_level matches" and "reachable rq_init (rq_step matches) s"
  shows "list_all2 answers (rq_log s) (take (length (rq_log s)) (rq_sent s)) \<and>
    length (rq_log s) + length (rq_queue s) = length (rq_sent s) \<and>
    (\<exists>s'. requests_arrive matches (rq_queue s) s = Ret s' \<and> rq_queue s' = [] \<and> rq_dev s' = rq_dev s \<and>
       rq_log s' = rq_log s @ map (request_calls (rq_dev s)) (drop (length (rq_log s)) (rq_sent s)))"
proof -
  have inv: "rq_inv s" using requests.reachable_inv [OF assms(2)] assms(1) by simp
  then obtain arrived due where d: "rq_sent s = arrived @ due" "list_all2 answers (rq_log s) arrived" "list_all2 carries (rq_queue s) due"
    by (auto simp: rq_inv_def)
  with list_all2_lengthD [OF d(2)] list_all2_lengthD [OF d(3)] show ?thesis
    using all_arrive [OF assms(1) inv refl] by simp
qed

text \<open>A property written while the device has the thing exposed is put on its way.\<close>

lemma write_sent:
  assumes ml: "multi_level matches" and inv: "rq_inv s" and c: "cf_things (rq_app s) r = Some c"
    and h: "ct_WritePropertyHook c = Some b" and n: "no_slash n" and x: "ef_bindings (rq_dev s) (td_ID (ct_TD c)) \<noteq> None"
  shows "\<exists>calls msg. app_write r n v (rq_app s) = Ret (None, calls) \<and>
    [(request_topic (td_ID (ct_TD c)) n, msg)] = forwarded matches (rq_filters s) calls"
proof -
  let ?i = "td_ID (ct_TD c)"
  from inv have ok: "sender_ok (rq_app s)" and sv: "server_ok (rq_dev s) (rq_routes s) (rq_filters s)" by (simp_all add: rq_inv_def)
  have b: "cb_td (app_binding_of (rq_app s) b) = ct_TD c" using app_binding_td [OF ok c] h by blast
  have "connected (cf_mqttClient (rq_app s))" "plain_id ?i" using ok c by (auto simp: sender_ok_def)
  then obtain q msg where w: "app_write r n v (rq_app s) = Ret (None, [PahoPublish (request_topic ?i n) q False msg])"
    using c h b by (auto simp: app_write_def WriteProperty_def binding_WriteProperty_def PublishObject_def Publish_def connected_def request_topic_def)
  have "request_filter ?i \<in> set (rq_filters s)" using sv x by (auto simp: server_ok_def)
  then have "[(request_topic ?i n, msg)] = forwarded matches (rq_filters s) [PahoPublish (request_topic ?i n) q False msg]"
    using request_filter_matches [OF ml \<open>plain_id ?i\<close>, of ?i n] \<open>plain_id ?i\<close> n by (auto simp: list_ex_iff plain_id_def)
  with w show ?thesis by blast
qed

lemma write_recorded:
  assumes ml: "multi_level matches" and inv: "rq_inv s" and c: "cf_things (rq_app s) r = Some c"
    and h: "ct_WritePropertyHook c = Some b" and n: "no_slash n" and v: "goval_ok v" and x: "ef_bindings (rq_dev s) (td_ID (ct_TD c)) \<noteq> None"
  shows "\<exists>s'. rq_step matches s s' \<and> rq_sent s' = rq_sent s @ [(td_ID (ct_TD c), n, v)] \<and> rq_dev s' = rq_dev s \<and> rq_log s' = rq_log s"
proof -
  from write_sent [OF ml inv c h n x, of v] obtain calls msg where
    w: "app_write r n v (rq_app s) = Ret (None, calls)" "[(request_topic (td_ID (ct_TD c)) n, msg)] = forwarded matches (rq_filters s) calls"
    by blast
  from rq_write [OF c n v w] show ?thesis by (intro exI conjI) (assumption | simp add: note_sent_def)+
qed

definition request_start :: "(nat, nat, unit, unit) request_system" where
  "request_start =
     \<lparr>rq_app = (CreateConsumedThingFactory ''app1'' hub_account None)\<lparr>cf_mqttClient := online_client\<rparr>, rq_dev = exposed_online,
      rq_routes = (\<lambda>_. None), rq_filters = [], rq_queue = [], rq_sent = [], rq_log = []\<rparr>"

lemma request_start_init: "rq_init request_start"
proof -
  have "connected online_client" "mc_subscriptions online_client = Map.empty"
    by (simp_all add: online_client_def NewMqttClient_def connected_def)
  then show ?thesis unfolding rq_init_def request_start_def exposed_online_def by fastforce
qed

lemma device_running:
  "\<exists>s e. reachable rq_init (rq_step filter_matches) (s :: (nat, nat, unit, unit) request_system) \<and> rq_sent s = [] \<and> rq_log s = [] \<and>
     rq_app s = rq_app request_start \<and> ef_etMap (rq_dev s) ''urn:switch'' = Some 0 \<and> ef_bindings (rq_dev s) ''urn:switch'' \<noteq> None \<and>
     ef_things (rq_dev s) 0 = Some e \<and> et_TD e = switch_td \<and> et_propertyWriteHandlers e = Some [''on'' \<mapsto> Some 9]"
proof -
  obtain r found dev calls where x: "Expose True None ''dev1'' switch_td (rq_dev request_start) = (r, found, dev, calls)" by (metis prod_cases4)
  let ?flts = "fold broker_call calls (rq_filters request_start)"
  let ?s1 = "request_start\<lparr>rq_dev := dev, rq_routes := routes calls (rq_routes request_start), rq_filters := ?flts,
      rq_queue := rq_queue request_start @ forwarded filter_matches ?flts calls\<rparr>"
  have "reachable rq_init (rq_step filter_matches) request_start" by (rule reach_init) (rule request_start_init)
  then have 1: "reachable rq_init (rq_step filter_matches) ?s1"
    by (rule reach_step) (rule rq_expose [OF plain_switch _ x refl], simp add: switch_td_fields)
  have "ef_etMap (rq_dev request_start) (td_ID switch_td) = None" "ef_next (rq_dev request_start) = 0"
    by (simp_all add: request_start_def exposed_online_def CreateExposedThingFactory_def)
  with Expose_new [of "rq_dev request_start" switch_td True None "''dev1''"] x obtain e where
    e: "ef_things dev 0 = Some e" "et_TD e = switch_td" "et_propertyWriteHandlers e = Some Map.empty"
      "ef_etMap dev (td_ID switch_td) = Some 0" "ef_bindings dev (td_ID switch_td) \<noteq> None"
    by (auto simp: CreateExposedThing_def)
  let ?e = "e\<lparr>et_propertyWriteHandlers := Some [''on'' \<mapsto> Some 9]\<rparr>"
  let ?s2 = "?s1\<lparr>rq_dev := dev\<lparr>ef_things := (ef_things dev)(0 \<mapsto> ?e)\<rparr>\<rparr>"
  have "SetPropertyWriteHandler ''on'' (Some 9) e = Ret ?e" using e(3) by (simp add: SetPropertyWriteHandler_def)
  with rq_set_write [of ?s1 0 e] e(1) have "rq_step filter_matches ?s1 ?s2" by simp
  with 1 have "reachable rq_init (rq_step filter_matches) ?s2" by (rule reach_step)
  moreover have "rq_sent ?s2 = []" "rq_log ?s2 = []" "rq_app ?s2 = rq_app request_start" by (simp_all add: request_start_def)
  ultimately show ?thesis using e(2,4,5) by (intro exI [of _ ?s2] exI [of _ ?e]) (simp add: switch_td_fields)
qed

theorem requests_handled_in_order_witness:
  "\<exists>s s'. rq_sent s = [(''urn:switch'', ''on'', GBool True)] \<and> rq_log s = [] \<and>
     requests_arrive filter_matches (rq_queue s) (s :: (nat, nat, unit, unit) request_system) = Ret s' \<and>
     rq_log s' = [[(9, ''on'', GBool True)]]"
proof -
  have ml: "multi_level filter_matches" by (rule filter_matches_multi_level)
  from device_running obtain s e where s: "reachable rq_init (rq_step filter_matches) (s :: (nat, nat, unit, unit) request_system)"
      "rq_sent s = []" "rq_log s = []" "rq_app s = rq_app request_start" "ef_etMap (rq_dev s) ''urn:switch'' = Some 0"
      "ef_bindings (rq_dev s) ''urn:switch'' \<noteq> None" "ef_things (rq_dev s) 0 = Some e" "et_TD e = switch_td"
      "et_propertyWriteHandlers e = Some [''on'' \<mapsto> Some 9]" by blast
  obtain r app calls where c: "Consume switch_td (rq_app s) = (r, app, calls)" by (metis prod_cases3)
  let ?s = "s\<lparr>rq_app := app\<rparr>"
  from s(1) have r: "reachable rq_init (rq_step filter_matches) ?s" by (rule reach_step) (rule rq_consume [OF plain_switch c])
  have "cf_ctMap (rq_app s) (td_ID switch_td) = None" by (simp add: s(4) request_start_def CreateConsumedThingFactory_def)
  from Consume_new [OF this] c obtain k b where k: "cf_things app r = Some k" "ct_TD k = switch_td" "ct_WritePropertyHook k = Some b"
    by (auto simp: CreateConsumedThing_def)
  have inv: "rq_inv ?s" using requests.reachable_inv [OF r] ml by simp
  from write_recorded [OF ml inv _ k(3), of r "''on''" "GBool True"] k s(2,3,6) obtain t where
    t: "rq_step filter_matches ?s t" "rq_sent t = [(''urn:switch'', ''on'', GBool True)]" "rq_dev t = rq_dev s" "rq_log t = []"
    by (auto simp: switch_td_fields no_slash_def)
  from r t(1) have "reachable rq_init (rq_step filter_matches) t" by (rule reach_step)
  from requests_handled_in_order [OF ml this] t(2-4) obtain t' where
    "requests_arrive filter_matches (rq_queue t) t = Ret t'" "rq_log t' = [request_calls (rq_dev s) (''urn:switch'', ''on'', GBool True)]"
    by auto
  moreover have "request_calls (rq_dev s) (''urn:switch'', ''on'', GBool True) = [(9, ''on'', GBool True)]"
    using s(5,7-9) by (simp add: request_calls_def asked_def switch_td_fields pick_handler_def ptr_get_def)
  ultimately show ?thesis using t(2,4) by auto
qed

end
