(* ===== verification/Home.thy ===== *)
theory Home
  imports Requests
begin

text \<open>
  Application and device with both directions between them: values and events to the application (Messaging), requests to the device
  (Requests). The broker hands every message to the clients that have a matching filter.

  The handlers of a device act: a handler is called with the value of a request and emits properties of its thing before it returns.
  \<open>react h name x\<close> is the list of what the handler \<open>h\<close> emits, with the names of the properties. The two systems of Messaging and Requests are
  views of this one, so that their invariants hold here.
\<close>

section \<open>The system\<close>

record ('l, 'h, 'c, 'k) home =
  ho_app :: "('l, 'c, 'k) ct_factory"
  ho_dev :: "('h, 'c, 'k) et_factory"
  ho_app_routes :: "string \<Rightarrow> nat callback option"
  ho_app_filters :: "string list"
  ho_events :: "(string \<times> string) list"
  ho_dev_routes :: "string \<Rightarrow> nat callback option"
  ho_dev_filters :: "string list"
  ho_requests :: "(string \<times> string) list"
  ho_last :: "string \<times> string \<Rightarrow> goval option"
  ho_sent :: "(string \<times> string \<times> goval) list"
  ho_log :: "('h \<times> string \<times> goval) list list"



text \<open>What a client publishes goes to both clients, where their filters match.\<close>

definition published ::
    "(string \<Rightarrow> string \<Rightarrow> bool) \<Rightarrow> ('m, 'c, 'k) paho_call list \<Rightarrow> ('l, 'h, 'c, 'k) home \<Rightarrow> ('l, 'h, 'c, 'k) home" where
  "published matches calls s =
     s\<lparr>ho_events := ho_events s @ forwarded matches (ho_app_filters s) calls,
       ho_requests := ho_requests s @ forwarded matches (ho_dev_filters s) calls\<rparr>"

definition emitted ::
    "(string \<Rightarrow> string \<Rightarrow> bool) \<Rightarrow> string \<Rightarrow> string \<Rightarrow> goval \<Rightarrow> ('m, 'c, 'k) paho_call list \<Rightarrow> ('l, 'h, 'c, 'k) home \<Rightarrow>
      ('l, 'h, 'c, 'k) home" where
  "emitted matches i name v calls s =
     published matches calls (s\<lparr>ho_last := note_last (forwarded matches (ho_app_filters s) calls) i name v (ho_last s)\<rparr>)"













section \<open>The invariant\<close>











section \<open>What the handlers emit\<close>

text \<open>The same device, but for the values that its things hold.\<close>

definition handling :: "'h exposed_thing \<Rightarrow> thing_td \<times> 'h option gomap \<times> 'h option gomap" where
  "handling e = (et_TD e, et_actionHandlers e, et_propertyWriteHandlers e)"

definition same_device :: "('h, 'c, 'k) et_factory \<Rightarrow> ('h, 'c, 'k) et_factory \<Rightarrow> bool" where
  "same_device d d' \<longleftrightarrow>
     ef_etMap d' = ef_etMap d \<and> (\<forall>r. map_option handling (ef_things d' r) = map_option handling (ef_things d r))"

lemma same_device_refl [simp]: "same_device d d"
  by (simp add: same_device_def)






text \<open>The emissions of a thing that the application hears: those of properties, while it consumes the thing.\<close>

definition heard ::
    "('l, 'c, 'k) ct_factory \<Rightarrow> string \<Rightarrow> thing_td \<Rightarrow> (string \<times> goval) list \<Rightarrow> ((string \<times> string) \<times> goval) list" where
  "heard app i td vs =
     (if cf_bindings app i = None then [] else map (\<lambda>(m, y). ((i, m), y)) (filter (\<lambda>(m, y). GetProperty td m \<noteq> None) vs))"

lemma heard_simps [simp]:
  "heard app i td [] = []"
  "heard app i td ((m, y) # vs) =
     (if cf_bindings app i = None \<or> GetProperty td m = None then heard app i td vs else ((i, m), y) # heard app i td vs)"
  by (simp_all add: heard_def)




lemma emitted_frame [simp]:
  "ho_app (emitted matches i n v calls s) = ho_app s" "ho_dev (emitted matches i n v calls s) = ho_dev s"
  "ho_dev_routes (emitted matches i n v calls s) = ho_dev_routes s" "ho_dev_filters (emitted matches i n v calls s) = ho_dev_filters s"
  "ho_app_routes (emitted matches i n v calls s) = ho_app_routes s" "ho_app_filters (emitted matches i n v calls s) = ho_app_filters s"
  "ho_sent (emitted matches i n v calls s) = ho_sent s" "ho_log (emitted matches i n v calls s) = ho_log s"
  "ho_last (emitted matches i n v calls s) = note_last (forwarded matches (ho_app_filters s) calls) i n v (ho_last s)"
  "(emitted matches i n v calls s)\<lparr>ho_dev := d\<rparr> = emitted matches i n v calls (s\<lparr>ho_dev := d\<rparr>)"
  by (simp_all add: emitted_def published_def)








section \<open>A request arrives\<close>





section \<open>Every step keeps the invariant\<close>











section \<open>A written property comes back\<close>




















end
