(* ===== verification/Locks.thy ===== *)
theory Locks
  imports Prelude
begin

text \<open>
  Goroutines that share mutexes (Go's package sync). A goroutine is what it still has to do: take and release locks, read and write
  shared variables. A mutex is a read-write mutex that nobody takes for reading.

  As in Go, Lock first announces the writer: from then on readers that come wait for it, also when the lock is only held by readers.
  A goroutine that holds a lock and takes it again waits for itself. Releasing a lock that is not held stops the program; here such a
  goroutine takes no step.
\<close>

section \<open>Goroutines\<close>

datatype mode = Shared | Exclusive

datatype ('l, 'v) act = Lock 'l | Unlock 'l | RLock 'l | RUnlock 'l | Load 'v | Store 'v

record ('l, 'v) goroutine =
  go_held :: "('l \<times> mode) list"
  go_waiting :: bool
  go_todo :: "('l, 'v) act list"

type_synonym ('l, 'v) goroutines = "('l, 'v) goroutine list"

definition unheld :: "'l \<Rightarrow> ('l, 'v) goroutines \<Rightarrow> bool" where
  "unheld l gs \<longleftrightarrow> (\<forall>g \<in> set gs. l \<notin> fst ` set (go_held g))"

lemma unheld_iff: "unheld l gs \<longleftrightarrow> (\<forall>g \<in> set gs. \<forall>m. (l, m) \<notin> set (go_held g))"
  by (force simp: unheld_def)

definition announced :: "'l \<Rightarrow> ('l, 'v) goroutine \<Rightarrow> bool" where
  "announced l g \<longleftrightarrow> go_waiting g \<and> (case go_todo g of a # p \<Rightarrow> a = Lock l | [] \<Rightarrow> False)"

definition no_writer :: "'l \<Rightarrow> ('l, 'v) goroutines \<Rightarrow> bool" where
  "no_writer l gs \<longleftrightarrow> (\<forall>g \<in> set gs. (l, Exclusive) \<notin> set (go_held g) \<and> \<not> announced l g)"

definition advance :: "('l \<times> mode) list \<Rightarrow> ('l, 'v) goroutine \<Rightarrow> ('l, 'v) goroutine" where
  "advance held g = g\<lparr>go_held := held, go_waiting := False, go_todo := tl (go_todo g)\<rparr>"

text \<open>The next step of a goroutine among all, if it has one.\<close>

definition go_next :: "('l, 'v) goroutines \<Rightarrow> ('l, 'v) goroutine \<Rightarrow> ('l, 'v) goroutine option" where
  "go_next gs g =
     (case go_todo g of
        [] \<Rightarrow> None
      | a # p \<Rightarrow>
          (case a of
             Lock l \<Rightarrow>
               if \<not> go_waiting g then Some (g\<lparr>go_waiting := True\<rparr>)
               else if unheld l gs then Some (advance ((l, Exclusive) # go_held g) g) else None
           | RLock l \<Rightarrow> if no_writer l gs then Some (advance ((l, Shared) # go_held g) g) else None
           | Unlock l \<Rightarrow>
               if (l, Exclusive) \<in> set (go_held g) then Some (advance (remove1 (l, Exclusive) (go_held g)) g) else None
           | RUnlock l \<Rightarrow>
               if (l, Shared) \<in> set (go_held g) then Some (advance (remove1 (l, Shared) (go_held g)) g) else None
           | Load v \<Rightarrow> Some (advance (go_held g) g)
           | Store v \<Rightarrow> Some (advance (go_held g) g)))"

inductive go_step :: "('l, 'v) goroutines \<Rightarrow> ('l, 'v) goroutines \<Rightarrow> bool" where
  step_go: "i < length gs \<Longrightarrow> go_next gs (gs ! i) = Some g \<Longrightarrow> go_step gs (gs[i := g])"

inductive_cases go_stepE: "go_step gs gs'"

definition start :: "('l, 'v) act list list \<Rightarrow> ('l, 'v) goroutines" where
  "start ps = map (\<lambda>p. \<lparr>go_held = [], go_waiting = False, go_todo = p\<rparr>) ps"

definition all_done :: "('l, 'v) goroutines \<Rightarrow> bool" where
  "all_done gs \<longleftrightarrow> (\<forall>g \<in> set gs. go_todo g = [])"

text \<open>A run by the list of the goroutines that take the steps.\<close>

fun run_schedule :: "nat list \<Rightarrow> ('l, 'v) goroutines \<Rightarrow> ('l, 'v) goroutines option" where
  "run_schedule [] gs = Some gs"
| "run_schedule (i # sched) gs =
     (if i < length gs then
        (case go_next gs (gs ! i) of None \<Rightarrow> None | Some g \<Rightarrow> run_schedule sched (gs[i := g]))
      else None)"

text \<open>Nobody can take a step, and somebody is not done.\<close>

definition deadlocked :: "('l, 'v) goroutines \<Rightarrow> bool" where
  "deadlocked gs \<longleftrightarrow> list_ex (\<lambda>g. go_todo g \<noteq> []) gs \<and> list_all (\<lambda>g. go_next gs g = None) gs"

lemma schedule_reachable:
  "run_schedule sched gs = Some gs' \<Longrightarrow> reachable init go_step gs \<Longrightarrow> reachable init go_step gs'"
proof (induction sched arbitrary: gs)
  case (Cons i sched)
  then obtain g where "i < length gs" "go_next gs (gs ! i) = Some g" "run_schedule sched (gs[i := g]) = Some gs'"
    by (auto split: if_splits option.splits)
  with Cons.IH Cons.prems(2) step_go reach_step show ?case by metis
qed simp

lemma advance_fields [simp]:
  "go_held (advance h g) = h" "\<not> go_waiting (advance h g)" "go_todo (advance h g) = tl (go_todo g)"
  by (simp_all add: advance_def)

section \<open>Every run ends\<close>

definition effort :: "('l, 'v) goroutine \<Rightarrow> nat" where
  "effort g = 2 * length (go_todo g) + (if go_waiting g then 0 else 1)"

definition work :: "('l, 'v) goroutines \<Rightarrow> nat" where
  "work gs = sum_list (map effort gs)"

lemma next_effort: "go_next gs g = Some g' \<Longrightarrow> effort g' < effort g"
  by (cases "go_todo g") (auto simp: go_next_def effort_def split: act.splits if_splits)

lemma sum_list_update_less:
  "i < length xs \<Longrightarrow> (y :: nat) < xs ! i \<Longrightarrow> sum_list (xs[i := y]) < sum_list xs"
  by (induction xs arbitrary: i) (auto split: nat.split)

lemma step_work: "go_step gs gs' \<Longrightarrow> work gs' < work gs"
  by (auto elim!: go_stepE simp: work_def map_update next_effort intro!: sum_list_update_less)

lemma run_length: "(go_step ^^ n) gs gs' \<Longrightarrow> n + work gs' \<le> work gs"
proof (induction n arbitrary: gs')
  case (Suc n)
  then obtain hs where "(go_step ^^ n) gs hs" "go_step hs gs'" by auto
  with Suc.IH step_work show ?case by fastforce
qed simp

section \<open>Locks taken in order\<close>

text \<open>A program that takes locks only above those it holds, releases what it holds, and ends without a lock.\<close>

fun orderly :: "('l \<Rightarrow> nat) \<Rightarrow> ('l \<times> mode) list \<Rightarrow> ('l, 'v) act list \<Rightarrow> bool" where
  "orderly rank held [] \<longleftrightarrow> held = []"
| "orderly rank held (Lock l # p) \<longleftrightarrow> (\<forall>h \<in> set held. rank (fst h) < rank l) \<and> orderly rank ((l, Exclusive) # held) p"
| "orderly rank held (RLock l # p) \<longleftrightarrow> (\<forall>h \<in> set held. rank (fst h) < rank l) \<and> orderly rank ((l, Shared) # held) p"
| "orderly rank held (Unlock l # p) \<longleftrightarrow> (l, Exclusive) \<in> set held \<and> orderly rank (remove1 (l, Exclusive) held) p"
| "orderly rank held (RUnlock l # p) \<longleftrightarrow> (l, Shared) \<in> set held \<and> orderly rank (remove1 (l, Shared) held) p"
| "orderly rank held (Load v # p) \<longleftrightarrow> orderly rank held p"
| "orderly rank held (Store v # p) \<longleftrightarrow> orderly rank held p"

abbreviation orderly_go :: "('l \<Rightarrow> nat) \<Rightarrow> ('l, 'v) goroutine \<Rightarrow> bool" where
  "orderly_go rank g \<equiv> orderly rank (go_held g) (go_todo g)"

lemma orderly_next: "orderly_go rank g \<Longrightarrow> go_next gs g = Some g' \<Longrightarrow> orderly_go rank g'"
  by (cases "go_todo g") (auto simp: go_next_def split: act.splits if_splits)

lemma list_all_step: "list_all P gs \<Longrightarrow> go_step gs gs' \<Longrightarrow> (\<And>g g'. P g \<Longrightarrow> go_next gs g = Some g' \<Longrightarrow> P g') \<Longrightarrow> list_all P gs'"
  by (elim go_stepE) (fastforce simp: list_all_length nth_list_update)

text \<open>What a goroutine without a step waits for.\<close>

fun wanted :: "('l, 'v) act list \<Rightarrow> 'l option" where
  "wanted (Lock l # p) = Some l"
| "wanted (RLock l # p) = Some l"
| "wanted _ = None"

lemma stuck_wants:
  assumes "orderly_go rank g" and "go_next gs g = None" and "go_todo g \<noteq> []"
  shows "\<exists>l. wanted (go_todo g) = Some l \<and> (\<forall>h \<in> set (go_held g). rank (fst h) < rank l) \<and>
    ((\<exists>k \<in> set gs. \<exists>m. (l, m) \<in> set (go_held k)) \<or> (\<exists>k \<in> set gs. announced l k))"
  using assms by (cases "go_todo g") (auto simp: go_next_def unheld_iff no_writer_def split: act.splits if_splits)

lemma announced_stuck: "announced l g \<Longrightarrow> go_next gs g = None \<Longrightarrow> \<exists>k \<in> set gs. \<exists>m. (l, m) \<in> set (go_held k)"
  by (cases "go_todo g") (auto simp: announced_def go_next_def unheld_iff split: if_splits)

lemma stuck_holder:
  assumes "list_all (orderly_go rank) gs" and "list_all (\<lambda>g. go_next gs g = None) gs" and "g \<in> set gs" and "go_todo g \<noteq> []"
  shows "\<exists>l h l'. wanted (go_todo g) = Some l \<and> h \<in> set gs \<and> go_todo h \<noteq> [] \<and> wanted (go_todo h) = Some l' \<and> rank l < rank l'"
proof -
  from assms obtain l where l: "wanted (go_todo g) = Some l"
      "(\<exists>k \<in> set gs. \<exists>m. (l, m) \<in> set (go_held k)) \<or> (\<exists>k \<in> set gs. announced l k)"
    using stuck_wants [of rank g gs] by (auto simp: list_all_iff)
  then obtain h m where h: "h \<in> set gs" "(l, m) \<in> set (go_held h)"
    using assms(2) announced_stuck [of l _ gs] by (auto simp: list_all_iff) blast
  then have "orderly_go rank h" "go_next gs h = None" using assms(1,2) by (auto simp: list_all_iff)
  moreover from this h(2) have "go_todo h \<noteq> []" by auto
  ultimately obtain l' where "wanted (go_todo h) = Some l'" "\<forall>x \<in> set (go_held h). rank (fst x) < rank l'"
    using stuck_wants [of rank h gs] by blast
  with l(1) h \<open>go_todo h \<noteq> []\<close> show ?thesis by fastforce
qed

lemma orderly_progress:
  assumes "list_all (orderly_go rank) gs" and "\<nexists>u. go_step gs u"
  shows "all_done gs"
proof (rule ccontr)
  assume "\<not> all_done gs"
  define want where "want g = (case wanted (go_todo g) of None \<Rightarrow> 0 | Some l \<Rightarrow> rank l)" for g :: "('a, 'b) goroutine"
  let ?S = "{g \<in> set gs. go_todo g \<noteq> []}"
  have st: "list_all (\<lambda>g. go_next gs g = None) gs"
    using assms(2) step_go [of _ gs] by (auto simp: list_all_length) (metis option.exhaust)
  from \<open>\<not> all_done gs\<close> have "?S \<noteq> {}" by (auto simp: all_done_def)
  then have "Max (want ` ?S) \<in> want ` ?S" by (intro Max_in) auto
  then obtain g where g: "g \<in> ?S" "want g = Max (want ` ?S)" by (metis (lifting) imageE)
  from stuck_holder [OF assms(1) st, of g] g(1) obtain l h l' where
    "wanted (go_todo g) = Some l" "h \<in> ?S" "wanted (go_todo h) = Some l'" "rank l < rank l'" by blast
  moreover from this(2) have "want h \<le> Max (want ` ?S)" by (intro Max_ge) auto
  ultimately have "want g < want h" "want h \<le> Max (want ` ?S)" by (simp_all add: want_def)
  with g(2) show False by simp
qed

text \<open>Locks hold one another out.\<close>

definition exclusion :: "('l, 'v) goroutines \<Rightarrow> bool" where
  "exclusion gs \<longleftrightarrow>
     (\<forall>i j l m. i < length gs \<longrightarrow> j < length gs \<longrightarrow> i \<noteq> j \<longrightarrow> (l, Exclusive) \<in> set (go_held (gs ! i)) \<longrightarrow>
        (l, m) \<notin> set (go_held (gs ! j)))"

lemma exclusionD:
  "exclusion gs \<Longrightarrow> i < length gs \<Longrightarrow> j < length gs \<Longrightarrow> i \<noteq> j \<Longrightarrow> (l, Exclusive) \<in> set (go_held (gs ! i)) \<Longrightarrow>
     (l, m) \<notin> set (go_held (gs ! j))"
  unfolding exclusion_def by meson

lemma unheldD: "unheld l gs \<Longrightarrow> j < length gs \<Longrightarrow> (l, m) \<notin> set (go_held (gs ! j))"
  by (simp add: unheld_iff)

lemma no_writerD: "no_writer l gs \<Longrightarrow> j < length gs \<Longrightarrow> (l, Exclusive) \<notin> set (go_held (gs ! j))"
  by (simp add: no_writer_def)

lemma next_held:
  "go_next gs g = Some g' \<Longrightarrow> x \<in> set (go_held g') \<Longrightarrow>
     x \<in> set (go_held g) \<or> (\<exists>l. x = (l, Exclusive) \<and> unheld l gs) \<or> (\<exists>l. x = (l, Shared) \<and> no_writer l gs)"
  by (cases "go_todo g") (auto simp: go_next_def split: act.splits if_splits dest: notin_set_remove1)

lemma exclusion_step:
  assumes ex: "exclusion gs" and "go_step gs gs'"
  shows "exclusion gs'"
proof -
  from assms(2) obtain k g where k: "k < length gs" "go_next gs (gs ! k) = Some g" "gs' = gs[k := g]" by (auto elim: go_stepE)
  have writer: "(l, m) \<notin> set (go_held (gs ! j))" if "(l, Exclusive) \<in> set (go_held g)" "j < length gs" "j \<noteq> k" for l m j
  proof -
    have "(l, Exclusive) \<in> set (go_held (gs ! k)) \<or> unheld l gs" using next_held [OF k(2) that(1)] by auto
    then show ?thesis using exclusionD [OF ex k(1) that(2)] unheldD [OF _ that(2)] that(3) by metis
  qed
  have reader: "(l, Exclusive) \<notin> set (go_held (gs ! j))" if "(l, m) \<in> set (go_held g)" "j < length gs" "j \<noteq> k" for l m j
  proof -
    have "(l, m) \<in> set (go_held (gs ! k)) \<or> unheld l gs \<or> no_writer l gs" using next_held [OF k(2) that(1)] by auto
    then show ?thesis using exclusionD [OF ex that(2) k(1) that(3)] unheldD [OF _ that(2)] no_writerD [OF _ that(2)] by metis
  qed
  show ?thesis
    unfolding exclusion_def
  proof (intro allI impI)
    fix i j l m
    assume a: "i < length gs'" "j < length gs'" "i \<noteq> j" "(l, Exclusive) \<in> set (go_held (gs' ! i))"
    show "(l, m) \<notin> set (go_held (gs' ! j))"
    proof (cases "i = k")
      case True
      with a k writer [of l j m] show ?thesis by simp
    next
      case False
      show ?thesis
      proof (cases "j = k")
        case True
        with False a k reader [of l m i] show ?thesis by auto
      next
        case False
        from \<open>i \<noteq> k\<close> False have "gs' ! i = gs ! i" "gs' ! j = gs ! j" "length gs' = length gs" by (simp_all add: k(3))
        with exclusionD [OF ex, of i j l m] a show ?thesis by metis
      qed
    qed
  qed
qed

section \<open>Variables guarded by locks\<close>

text \<open>
  \<open>guard v\<close> is the lock that protects a variable, if any does: it is held to read the variable, and held alone to write it.
\<close>

fun guarded :: "('v \<Rightarrow> 'l option) \<Rightarrow> ('l \<times> mode) list \<Rightarrow> ('l, 'v) act list \<Rightarrow> bool" where
  "guarded guard held [] \<longleftrightarrow> True"
| "guarded guard held (Lock l # p) \<longleftrightarrow> guarded guard ((l, Exclusive) # held) p"
| "guarded guard held (RLock l # p) \<longleftrightarrow> guarded guard ((l, Shared) # held) p"
| "guarded guard held (Unlock l # p) \<longleftrightarrow> guarded guard (remove1 (l, Exclusive) held) p"
| "guarded guard held (RUnlock l # p) \<longleftrightarrow> guarded guard (remove1 (l, Shared) held) p"
| "guarded guard held (Load v # p) \<longleftrightarrow>
     (case guard v of None \<Rightarrow> True | Some l \<Rightarrow> (l, Shared) \<in> set held \<or> (l, Exclusive) \<in> set held) \<and> guarded guard held p"
| "guarded guard held (Store v # p) \<longleftrightarrow>
     (case guard v of None \<Rightarrow> True | Some l \<Rightarrow> (l, Exclusive) \<in> set held) \<and> guarded guard held p"

abbreviation guarded_go :: "('v \<Rightarrow> 'l option) \<Rightarrow> ('l, 'v) goroutine \<Rightarrow> bool" where
  "guarded_go guard g \<equiv> guarded guard (go_held g) (go_todo g)"

lemma guarded_next: "guarded_go guard g \<Longrightarrow> go_next gs g = Some g' \<Longrightarrow> guarded_go guard g'"
  by (cases "go_todo g") (auto simp: go_next_def split: act.splits if_splits)

text \<open>Two goroutines are about to access a variable, and one of them to write it.\<close>

definition race :: "'v \<Rightarrow> ('l, 'v) goroutines \<Rightarrow> bool" where
  "race v gs \<longleftrightarrow>
     (\<exists>i j p q. i < length gs \<and> j < length gs \<and> i \<noteq> j \<and> go_todo (gs ! i) = Store v # p \<and>
        (go_todo (gs ! j) = Load v # q \<or> go_todo (gs ! j) = Store v # q))"

definition race_at :: "'v \<Rightarrow> nat \<Rightarrow> nat \<Rightarrow> ('l, 'v) goroutines \<Rightarrow> bool" where
  "race_at v i j gs \<longleftrightarrow>
     i < length gs \<and> j < length gs \<and> i \<noteq> j \<and> (case go_todo (gs ! i) of a # p \<Rightarrow> a = Store v | [] \<Rightarrow> False) \<and>
     (case go_todo (gs ! j) of a # p \<Rightarrow> a = Load v \<or> a = Store v | [] \<Rightarrow> False)"

lemma race_at_race: "race_at v i j gs \<Longrightarrow> race v gs"
  unfolding race_at_def race_def by (auto split: list.splits)

lemma raceI:
  assumes "i < length gs" and "j < length gs" and "i \<noteq> j" and "go_todo (gs ! i) = a # p" and "go_todo (gs ! j) = a' # q"
    and "a = Store v \<and> a' \<in> {Load v, Store v} \<or> a = Load v \<and> a' = Store v"
  shows "race v gs"
proof (cases "a = Store v")
  case True
  with assms have "race_at v i j gs" by (auto simp: race_at_def)
  then show ?thesis by (rule race_at_race)
next
  case False
  with assms have "race_at v j i gs" by (auto simp: race_at_def)
  then show ?thesis by (rule race_at_race)
qed

lemma start_reachable: "reachable (\<lambda>s. s = gs) go_step gs"
  by (rule reach_init) (rule refl)

lemma schedule_from: "run_schedule sched gs = Some gs' \<Longrightarrow> reachable (\<lambda>s. s = gs) go_step gs'"
  by (erule schedule_reachable) (rule start_reachable)

lemma schedule_race:
  "(case run_schedule sched gs of None \<Rightarrow> False | Some gs' \<Rightarrow> race_at v i j gs') \<Longrightarrow>
     \<exists>gs'. reachable (\<lambda>s. s = gs) go_step gs' \<and> race v gs'"
  by (auto split: option.splits dest!: schedule_from race_at_race)

lemma schedule_deadlock:
  "(case run_schedule sched gs of None \<Rightarrow> False | Some gs' \<Rightarrow> deadlocked gs') \<Longrightarrow>
     \<exists>gs'. reachable (\<lambda>s. s = gs) go_step gs' \<and> deadlocked gs'"
  by (auto split: option.splits dest!: schedule_from)

lemma guarded_no_race:
  assumes "exclusion gs" and "list_all (guarded_go guard) gs" and "guard v = Some l"
  shows "\<not> race v gs"
proof
  assume "race v gs"
  then obtain i j p q where r: "i < length gs" "j < length gs" "i \<noteq> j" "go_todo (gs ! i) = Store v # p"
      "go_todo (gs ! j) = Load v # q \<or> go_todo (gs ! j) = Store v # q"
    unfolding race_def by blast
  with assms(2) have "guarded_go guard (gs ! i)" "guarded_go guard (gs ! j)" unfolding list_all_length by blast+
  with r assms(3) have "(l, Exclusive) \<in> set (go_held (gs ! i))" "\<exists>m. (l, m) \<in> set (go_held (gs ! j))" by auto
  with assms(1) r(1-3) show False unfolding exclusion_def by blast
qed

section \<open>Programs in parts\<close>

fun acquires :: "('l, 'v) act list \<Rightarrow> 'l list" where
  "acquires [] = []"
| "acquires (Lock l # p) = l # acquires p"
| "acquires (RLock l # p) = l # acquires p"
| "acquires (_ # p) = acquires p"

lemma acquires_append [simp]: "acquires (p @ q) = acquires p @ acquires q"
  by (induction p rule: acquires.induct) simp_all

lemma acquires_concat: "set (acquires (concat ps)) = (\<Union>p \<in> set ps. set (acquires p))"
  by (induction ps) auto

definition above :: "('l \<Rightarrow> nat) \<Rightarrow> ('l \<times> mode) list \<Rightarrow> 'l list \<Rightarrow> bool" where
  "above rank held ls \<longleftrightarrow> (\<forall>l \<in> set ls. \<forall>h \<in> set held. rank (fst h) < rank l)"

lemma above_simps [simp]:
  "above rank [] ls" "above rank held []"
  "above rank held (l # ls) \<longleftrightarrow> (\<forall>h \<in> set held. rank (fst h) < rank l) \<and> above rank held ls"
  "above rank held (ls @ ms) \<longleftrightarrow> above rank held ls \<and> above rank held ms"
  by (auto simp: above_def)

lemma orderly_append:
  "orderly rank ks p \<Longrightarrow> above rank held (acquires p) \<Longrightarrow> orderly rank (ks @ held) (p @ q) \<longleftrightarrow> orderly rank held q"
  by (induction rank ks p rule: orderly.induct) (auto simp: remove1_append)

lemma guarded_append:
  "orderly rank ks p \<Longrightarrow> guarded guard ks p \<Longrightarrow> guarded guard (ks @ held) (p @ q) \<longleftrightarrow> guarded guard held q"
proof (induction rank ks p rule: orderly.induct)
  case (6 rank ks v p)
  then show ?case by (auto split: option.splits)
next
  case (7 rank ks v p)
  then show ?case by (auto split: option.splits)
qed (auto simp: remove1_append)

lemma released_acquired:
  "orderly rank held p \<Longrightarrow> RUnlock l \<in> set p \<Longrightarrow> (l, Shared) \<in> set held \<or> l \<in> set (acquires p)"
  by (induction rank held p rule: orderly.induct) (auto dest: subsetD [OF set_remove1_subset])

lemma orderly_concat:
  "(\<And>p. p \<in> set ps \<Longrightarrow> orderly rank [] p) \<Longrightarrow> orderly rank [] (concat ps)"
  using orderly_append [of rank "[]" _ "[]"] by (induction ps) auto

lemma guarded_concat:
  "(\<And>p. p \<in> set ps \<Longrightarrow> orderly rank [] p \<and> guarded guard [] p) \<Longrightarrow> guarded guard [] (concat ps)"
  using guarded_append [of rank "[]" _ guard "[]"] by (induction ps) auto

text \<open>A body that runs between taking a lock and releasing it.\<close>

lemma orderly_between:
  "orderly rank [] p \<Longrightarrow> above rank held (acquires p) \<Longrightarrow> orderly rank held (p @ q) \<longleftrightarrow> orderly rank held q"
  using orderly_append [of rank "[]"] by simp

lemma guarded_between:
  "orderly rank [] p \<Longrightarrow> guarded guard [] p \<Longrightarrow> guarded guard held (p @ q) \<longleftrightarrow> guarded guard held q"
  using guarded_append [of rank "[]"] by simp

section \<open>Waiting for oneself\<close>

text \<open>A goroutine that is to take a lock while it holds it for reading.\<close>

definition caught :: "'l \<Rightarrow> ('l, 'v) act list \<Rightarrow> ('l, 'v) goroutine \<Rightarrow> bool" where
  "caught l post g \<longleftrightarrow>
     (\<exists>pre mid. go_todo g = pre @ RLock l # mid @ Lock l # post \<and> RUnlock l \<notin> set mid) \<or>
     (\<exists>mid. go_todo g = mid @ Lock l # post \<and> RUnlock l \<notin> set mid \<and> (l, Shared) \<in> set (go_held g))"

lemma caughtI: "go_todo g = pre @ RLock l # mid @ Lock l # post \<Longrightarrow> RUnlock l \<notin> set mid \<Longrightarrow> caught l post g"
  unfolding caught_def by blast

lemma next_act:
  assumes "go_next gs g = Some g'" and "go_todo g = a # p"
  shows "go_todo g' = a # p \<and> go_held g' = go_held g \<or>
    go_todo g' = p \<and> (a = Lock l \<longrightarrow> unheld l gs) \<and> (a = RLock l \<longrightarrow> (l, Shared) \<in> set (go_held g')) \<and>
      ((l, Shared) \<in> set (go_held g) \<longrightarrow> a \<noteq> RUnlock l \<longrightarrow> (l, Shared) \<in> set (go_held g'))"
  using assms by (auto simp: go_next_def split: act.splits if_splits)

lemma caught_next:
  assumes "caught l post g" and g: "g \<in> set gs" and n: "go_next gs g = Some g'"
  shows "caught l post g'"
  using assms(1) unfolding caught_def
proof (elim disjE exE conjE)
  fix pre mid
  assume t: "go_todo g = pre @ RLock l # mid @ Lock l # post" "RUnlock l \<notin> set mid"
  show "(\<exists>pre mid. go_todo g' = pre @ RLock l # mid @ Lock l # post \<and> RUnlock l \<notin> set mid) \<or>
     (\<exists>mid. go_todo g' = mid @ Lock l # post \<and> RUnlock l \<notin> set mid \<and> (l, Shared) \<in> set (go_held g'))"
  proof (cases pre)
    case Nil
    with t next_act [OF n, of "RLock l" "mid @ Lock l # post" l] show ?thesis by fastforce
  next
    case (Cons a pre')
    with t next_act [OF n, of a "pre' @ RLock l # mid @ Lock l # post" l] show ?thesis by (metis append_Cons)
  qed
next
  fix mid
  assume t: "go_todo g = mid @ Lock l # post" "RUnlock l \<notin> set mid" "(l, Shared) \<in> set (go_held g)"
  show "(\<exists>pre mid. go_todo g' = pre @ RLock l # mid @ Lock l # post \<and> RUnlock l \<notin> set mid) \<or>
     (\<exists>mid. go_todo g' = mid @ Lock l # post \<and> RUnlock l \<notin> set mid \<and> (l, Shared) \<in> set (go_held g'))"
  proof (cases mid)
    case Nil
    moreover have "\<not> unheld l gs" using g t(3) by (auto simp: unheld_iff)
    ultimately show ?thesis using t next_act [OF n, of "Lock l" post l] by fastforce
  next
    case (Cons a mid')
    with t next_act [OF n, of a "mid' @ Lock l # post" l] show ?thesis by (metis append_Cons list.set_intros)
  qed
qed

lemma caught_forever:
  assumes "reachable init go_step gs" and "\<And>s. init s \<Longrightarrow> i < length s \<and> caught l post (s ! i)"
  shows "i < length gs \<and> caught l post (gs ! i)"
  using assms(1)
proof induction
  case (reach_step s t)
  from reach_step.hyps(2) obtain j g where j: "j < length s" "go_next s (s ! j) = Some g" "t = s[j := g]" by (auto elim: go_stepE)
  with caught_next [of l post "s ! j" s g] reach_step.IH show ?case by (cases "i = j") simp_all
qed (use assms(2) in blast)

lemma caught_not_done: "caught l post g \<Longrightarrow> go_todo g \<noteq> []"
  by (auto simp: caught_def)

section \<open>Running alone\<close>

text \<open>The locks held at the end of a program.\<close>

fun locks_after :: "('l \<times> mode) list \<Rightarrow> ('l, 'v) act list \<Rightarrow> ('l \<times> mode) list" where
  "locks_after held [] = held"
| "locks_after held (Lock l # p) = locks_after ((l, Exclusive) # held) p"
| "locks_after held (RLock l # p) = locks_after ((l, Shared) # held) p"
| "locks_after held (Unlock l # p) = locks_after (remove1 (l, Exclusive) held) p"
| "locks_after held (RUnlock l # p) = locks_after (remove1 (l, Shared) held) p"
| "locks_after held (_ # p) = locks_after held p"

lemma locks_after_orderly: "orderly rank held p \<Longrightarrow> locks_after held p = []"
  by (induction rank held p rule: orderly.induct) simp_all

abbreviation running :: "('l \<times> mode) list \<Rightarrow> ('l, 'v) act list \<Rightarrow> ('l, 'v) goroutine" where
  "running held p \<equiv> \<lparr>go_held = held, go_waiting = False, go_todo = p\<rparr>"

text \<open>The other goroutines are not about to take a lock, and hold none of the locks \<open>ls\<close>.\<close>

definition calm :: "nat \<Rightarrow> 'l list \<Rightarrow> ('l, 'v) goroutines \<Rightarrow> bool" where
  "calm i ls gs \<longleftrightarrow>
     (\<forall>k < length gs. k \<noteq> i \<longrightarrow> \<not> go_waiting (gs ! k) \<and> (\<forall>l \<in> set ls. l \<notin> fst ` set (go_held (gs ! k))))"

lemma calm_update [simp]: "calm i ls (gs[i := g]) \<longleftrightarrow> calm i ls gs"
  by (simp add: calm_def)

lemma calm_next: "calm i (acquires (a # p)) gs \<Longrightarrow> calm i (acquires p) gs"
  by (cases a) (auto simp: calm_def)

lemma calm_unheld:
  assumes "calm i (l # ls) gs" and "i < length gs" and "l \<notin> fst ` set (go_held (gs ! i))"
  shows "unheld l gs"
  unfolding unheld_def
proof
  fix g
  assume "g \<in> set gs"
  then obtain k where k: "k < length gs" "g = gs ! k" by (auto simp: in_set_conv_nth)
  show "l \<notin> fst ` set (go_held g)"
  proof (cases "k = i")
    case False
    with assms(1) k show ?thesis by (simp add: calm_def)
  qed (use assms(3) k in simp)
qed

lemma calm_no_writer:
  assumes "calm i (l # ls) gs" and "i < length gs" and "l \<notin> fst ` set (go_held (gs ! i))" and "\<not> go_waiting (gs ! i)"
  shows "no_writer l gs"
proof -
  have "\<not> announced l g" if g: "g \<in> set gs" for g
  proof -
    from g obtain k where "k < length gs" "g = gs ! k" by (auto simp: in_set_conv_nth)
    with assms(1,4) have "\<not> go_waiting g" by (cases "k = i") (simp_all add: calm_def)
    then show ?thesis by (simp add: announced_def)
  qed
  moreover have "(l, Exclusive) \<notin> set (go_held g)" if "g \<in> set gs" for g
    using that calm_unheld [OF assms(1-3)] by (simp add: unheld_iff)
  ultimately show ?thesis by (simp add: no_writer_def)
qed

text \<open>Nobody holds or waits for a lock.\<close>

definition quiet :: "('l, 'v) goroutines \<Rightarrow> bool" where
  "quiet gs \<longleftrightarrow> (\<forall>g \<in> set gs. go_held g = [] \<and> \<not> go_waiting g)"

lemma quiet_nth: "quiet gs \<Longrightarrow> k < length gs \<Longrightarrow> go_held (gs ! k) = [] \<and> \<not> go_waiting (gs ! k)"
  by (simp add: quiet_def)

lemma quiet_update: "quiet gs \<Longrightarrow> quiet (gs[i := running [] p])"
  using set_update_subset_insert [of gs i "running [] p"] by (auto simp: quiet_def)

lemma alone_step:
  assumes i: "i < length gs" "gs ! i = running held (a # p)" and o: "orderly rank held (a # r)"
    and c: "calm i (acquires (a # r')) gs"
  shows "go_step\<^sup>*\<^sup>* gs (gs[i := running (locks_after held [a]) p])"
proof (cases "\<exists>l. a = Lock l")
  case True
  then obtain l where a: "a = Lock l" by blast
  let ?gs = "gs[i := \<lparr>go_held = held, go_waiting = True, go_todo = a # p\<rparr>]"
  have "go_next gs (gs ! i) = Some \<lparr>go_held = held, go_waiting = True, go_todo = a # p\<rparr>"
    using i by (simp add: go_next_def a)
  with i(1) have one: "go_step gs ?gs" by (rule step_go)
  have "unheld l ?gs" using c i(1) o by (intro calm_unheld [where i = i and ls = "acquires r'"]) (auto simp: a)
  then have "go_next ?gs (?gs ! i) = Some (running ((l, Exclusive) # held) p)"
    using i(1) by (simp add: go_next_def a advance_def)
  with i(1) have "go_step ?gs (?gs[i := running ((l, Exclusive) # held) p])" by (intro step_go) simp_all
  with one show ?thesis by (simp add: a)
next
  case False
  have "no_writer l gs" if "a = RLock l" for l
    using that c i o by (intro calm_no_writer [where i = i and ls = "acquires r'"]) auto
  with False i o have "go_next gs (gs ! i) = Some (running (locks_after held [a]) p)"
    by (cases a) (simp_all add: go_next_def advance_def)
  with i(1) step_go show ?thesis by blast
qed

text \<open>A goroutine that runs the first part of an orderly program on its own.\<close>

lemma runs_alone:
  assumes "i < length gs" and "gs ! i = running held (p @ q)" and "orderly rank held (p @ r)" and "calm i (acquires p) gs"
  shows "go_step\<^sup>*\<^sup>* gs (gs[i := running (locks_after held p) q])"
  using assms
proof (induction p arbitrary: gs held)
  case Nil
  then show ?case by (metis append_Nil list_update_id locks_after.simps(1) rtranclp.rtrancl_refl)
next
  case (Cons a p)
  let ?held = "locks_after held [a]"
  have first: "go_step\<^sup>*\<^sup>* gs (gs[i := running ?held (p @ q)])"
    using Cons.prems by (intro alone_step [where r = "p @ r" and r' = p]) simp_all
  have "orderly rank ?held (p @ r)" using Cons.prems(3) by (cases a) simp_all
  moreover have "calm i (acquires p) gs" using Cons.prems(4) by (rule calm_next)
  ultimately have "go_step\<^sup>*\<^sup>* (gs[i := running ?held (p @ q)]) (gs[i := running ?held (p @ q), i := running (locks_after ?held p) q])"
    using Cons.prems(1) by (intro Cons.IH) simp_all
  moreover have "locks_after ?held p = locks_after held (a # p)" by (cases a) simp_all
  ultimately show ?case using first by simp
qed

lemma reachable_steps: "reachable init go_step s \<Longrightarrow> go_step\<^sup>*\<^sup>* s t \<Longrightarrow> reachable init go_step t"
  by (erule rtranclp_induct) (auto intro: reach_step)

section \<open>Accesses that nothing separates\<close>

text \<open>The accesses of a program to a variable: what the program does before, and whether the variable is written.\<close>

fun accesses :: "'v \<Rightarrow> ('l, 'v) act list \<Rightarrow> (('l, 'v) act list \<times> bool) list" where
  "accesses v [] = []"
| "accesses v (a # p) =
     (if a = Store v then [([], True)] else if a = Load v then [([], False)] else []) @ map (\<lambda>(p, w). (a # p, w)) (accesses v p)"

lemma accesses_split: "(p, w) \<in> set (accesses v r) \<Longrightarrow> \<exists>q. r = p @ (if w then Store v else Load v) # q"
  by (induction r arbitrary: p) (auto split: if_splits)

text \<open>
  Two programs can meet at a variable: both access it, one of them to write, and what the second takes before its access is nothing the
  first holds at its own.
\<close>

definition can_meet :: "'v \<Rightarrow> ('l, 'v) act list \<Rightarrow> ('l, 'v) act list \<Rightarrow> bool" where
  "can_meet v p q \<longleftrightarrow>
     list_ex (\<lambda>(p, w). list_ex (\<lambda>(q, w'). (w \<or> w') \<and> list_all (\<lambda>l. l \<notin> fst ` set (locks_after [] p)) (acquires q)) (accesses v q))
       (accesses v p)"

lemma can_meetD:
  assumes "can_meet v r r'"
  obtains p a q p' a' q' where "r = p @ a # q" and "r' = p' @ a' # q'"
    and "a = Store v \<and> a' \<in> {Load v, Store v} \<or> a = Load v \<and> a' = Store v"
    and "set (acquires p') \<inter> fst ` set (locks_after [] p) = {}"
proof -
  from assms obtain p w p' w' where a: "(p, w) \<in> set (accesses v r)" "(p', w') \<in> set (accesses v r')" "w \<or> w'"
      and d: "\<forall>l \<in> set (acquires p'). l \<notin> fst ` set (locks_after [] p)"
    by (auto simp: can_meet_def list_ex_iff list_all_iff)
  from a(1,2) obtain q q' where "r = p @ (if w then Store v else Load v) # q" "r' = p' @ (if w' then Store v else Load v) # q'"
    using accesses_split by meson
  with a(3) d show ?thesis by (intro that [of p "if w then Store v else Load v" q p' "if w' then Store v else Load v" q']) auto
qed

section \<open>Operations that keep the discipline\<close>

text \<open>
  A library of operations, each a program. Goroutines that call any of the operations allowed, one after the other, all come to an end,
  whatever the order of their steps, and never race for a guarded variable.
\<close>

locale lock_discipline =
  fixes rank :: "'l \<Rightarrow> nat"
    and guard :: "'v \<Rightarrow> 'l option"
    and acts :: "'o \<Rightarrow> ('l, 'v) act list"
    and allowed :: "'o \<Rightarrow> bool"
  assumes acts_orderly: "allowed x \<Longrightarrow> orderly rank [] (acts x)"
    and acts_guarded: "allowed x \<Longrightarrow> guarded guard [] (acts x)"
begin

definition calling :: "'o list list \<Rightarrow> ('l, 'v) goroutines \<Rightarrow> bool" where
  "calling ps gs \<longleftrightarrow> list_all (list_all allowed) ps \<and> gs = start (map (\<lambda>p. concat (map acts p)) ps)"

definition disciplined :: "('l, 'v) goroutines \<Rightarrow> bool" where
  "disciplined gs \<longleftrightarrow> list_all (orderly_go rank) gs \<and> list_all (guarded_go guard) gs \<and> exclusion gs"

lemma calling_disciplined:
  assumes "calling ps gs"
  shows "disciplined gs"
proof -
  have "orderly rank [] (concat (map acts p)) \<and> guarded guard [] (concat (map acts p))" if "list_all allowed p" for p
    using that acts_orderly acts_guarded
    by (intro conjI orderly_concat guarded_concat [where rank = rank]) (auto simp: list_all_iff)
  with assms show ?thesis by (auto simp: calling_def disciplined_def start_def list_all_iff exclusion_def)
qed

lemma disciplined_step: "disciplined gs \<Longrightarrow> go_step gs gs' \<Longrightarrow> disciplined gs'"
  by (auto simp: disciplined_def elim: list_all_step exclusion_step intro: orderly_next guarded_next)

lemma reachable_disciplined: "reachable (calling ps) go_step gs \<Longrightarrow> disciplined gs"
  by (induction rule: reachable.induct) (auto intro: calling_disciplined disciplined_step)

sublocale run: settling go_step disciplined all_done "\<lambda>gs. (work gs, 0)" "\<lambda>_. ()"
proof unfold_locales
  show "\<exists>t. go_step s t" if "disciplined s" and "\<not> all_done s" for s
    using that orderly_progress [of rank s] by (auto simp: disciplined_def)
qed (auto intro: disciplined_step dest: step_work)

lemma complete: "reachable (calling ps) go_step gs \<Longrightarrow> \<exists>t. go_step\<^sup>*\<^sup>* gs t \<and> all_done t"
  by (rule run.run_ends) (rule reachable_disciplined)

lemma no_deadlock: "reachable (calling ps) go_step gs \<Longrightarrow> \<not> all_done gs \<Longrightarrow> \<exists>t. go_step gs t"
  using reachable_disciplined orderly_progress [of rank gs] by (auto simp: disciplined_def)

lemma no_race: "reachable (calling ps) go_step gs \<Longrightarrow> guard v = Some l \<Longrightarrow> \<not> race v gs"
  using reachable_disciplined guarded_no_race [of gs guard v l] by (simp add: disciplined_def)

abbreviation code :: "'o list \<Rightarrow> ('l, 'v) act list" where
  "code ops \<equiv> concat (map acts ops)"

lemma code_alone:
  assumes "i < length gs" and "gs ! i = running [] (code xs @ r)" and "list_all allowed xs" and "quiet gs"
  shows "go_step\<^sup>*\<^sup>* gs (gs[i := running [] r])"
proof -
  have o: "orderly rank [] (code xs)" using assms(3) acts_orderly by (intro orderly_concat) (auto simp: list_all_iff)
  have "calm i (acquires (code xs)) gs" using assms(4) by (simp add: calm_def quiet_nth)
  with runs_alone [where r = "[]", OF assms(1,2)] o locks_after_orderly [OF o] show ?thesis by simp
qed

text \<open>
  The other way round: two goroutines that come to call operations which can meet at a variable get to a race for it. So operations that
  keep the discipline never meet at a guarded variable.
\<close>

lemma race_reached:
  assumes c: "can_meet v (acts x) (acts y)" and ok: "list_all allowed (xs @ [x])" "list_all allowed (ys @ [y])"
    and ij: "i < length ps" "j < length ps" "i \<noteq> j" and ps: "ps ! i = xs @ x # xs'" "ps ! j = ys @ y # ys'"
  shows "\<exists>gs. reachable (\<lambda>s. s = start (map code ps)) go_step gs \<and> race v gs"
proof -
  obtain p a q p' a' q' where pq: "acts x = p @ a # q" "acts y = p' @ a' # q'"
    and a: "a = Store v \<and> a' \<in> {Load v, Store v} \<or> a = Load v \<and> a' = Store v"
    and d: "set (acquires p') \<inter> fst ` set (locks_after [] p) = {}"
    by (rule can_meetD [OF c]) (rule that)
  let ?r = "a # q @ code xs'" and ?r' = "a' # q' @ code ys'"
  let ?s0 = "start (map code ps)"
  let ?s1 = "?s0[i := running [] (p @ ?r)]"
  let ?s2 = "?s1[j := running [] (p' @ ?r')]"
  let ?s3 = "?s2[i := running (locks_after [] p) ?r]"
  let ?s4 = "?s3[j := running (locks_after [] p') ?r']"
  have nth: "?s0 ! k = running [] (code (ps ! k))" if "k < length ps" for k using that by (simp add: start_def)
  have len: "length ?s0 = length ps" by (simp add: start_def)
  have quiet: "quiet ?s0" by (simp add: start_def quiet_def)
  then have quiet1: "quiet ?s1" by (rule quiet_update)
  have 1: "go_step\<^sup>*\<^sup>* ?s0 ?s1"
    using ij ps ok pq len by (intro code_alone [where xs = xs] quiet) (simp_all add: nth)
  have 2: "go_step\<^sup>*\<^sup>* ?s1 ?s2"
    using ij ps ok pq len by (intro code_alone [where xs = ys] quiet1) (simp_all add: nth)
  have quiet2: "quiet ?s2" using quiet1 by (rule quiet_update)
  then have "calm i (acquires p) ?s2" by (simp add: calm_def quiet_nth)
  then have 3: "go_step\<^sup>*\<^sup>* ?s2 ?s3"
    using ij ok(1) acts_orderly [of x] pq len by (intro runs_alone [where r = "a # q"]) (simp_all add: nth)
  have "calm j (acquires p') ?s3"
    unfolding calm_def
  proof (intro allI impI)
    fix k
    assume k: "k < length ?s3" "k \<noteq> j"
    show "\<not> go_waiting (?s3 ! k) \<and> (\<forall>l \<in> set (acquires p'). l \<notin> fst ` set (go_held (?s3 ! k)))"
    proof (cases "k = i")
      case True
      with d ij len show ?thesis by auto
    next
      case False
      with k have "?s3 ! k = ?s2 ! k" "k < length ?s2" by simp_all
      with quiet2 show ?thesis by (simp add: quiet_nth)
    qed
  qed
  then have 4: "go_step\<^sup>*\<^sup>* ?s3 ?s4"
    using ij ok(2) acts_orderly [of y] pq len by (intro runs_alone [where r = "a' # q'"]) (simp_all add: nth)
  have "race v ?s4"
  proof -
    have "go_todo (?s4 ! i) = ?r" "go_todo (?s4 ! j) = ?r'" "i < length ?s4" "j < length ?s4"
      using ij len by simp_all
    then show ?thesis using a ij(3) by (intro raceI [of i ?s4 j a _ a'])
  qed
  moreover have "reachable (\<lambda>s. s = ?s0) go_step ?s4"
    using 1 2 3 4 by (intro reachable_steps [OF start_reachable]) (meson rtranclp_trans)
  ultimately show ?thesis by blast
qed

lemma meet_unguarded:
  assumes "can_meet v (acts x) (acts y)" and "allowed x" and "allowed y"
  shows "guard v = None"
proof (rule ccontr)
  assume "guard v \<noteq> None"
  moreover have "\<exists>gs. reachable (\<lambda>s. s = start (map code [[x], [y]])) go_step gs \<and> race v gs"
    by (rule race_reached [where i = 0 and j = 1 and xs = "[]" and ys = "[]", OF assms(1)]) (simp_all add: assms)
  moreover have "(\<lambda>s. s = start (map code [[x], [y]])) = calling [[x], [y]]"
    using assms(2,3) by (auto simp: calling_def fun_eq_iff)
  ultimately show False using no_race by (metis not_Some_eq)
qed

end

end
