(* ===== verification/Locking.thy ===== *)
theory Locking
  imports Locks
begin

text \<open>
  The mutexes of the library: which operation takes which, in what order, and which shared maps and fields it reads and writes under
  them. An operation is the list of what it does with mutexes and shared variables, by the branch it takes; what it computes is the
  subject of the other theories. Reading a variable several times in a row counts once. Fields that are only written before an object
  is shared are left out, and so is what Paho does with locks of its own.

  A function that starts a goroutine is two operations: what the goroutine does, and what the function does from then on. Its local mutex
  and the variable it shares with the goroutine are numbered by the call.

  Things, TDs and MQTT clients are numbered; there is one factory of each kind and one thing store. The handlers of the application are
  lists of operations of the library.
\<close>

section \<open>Mutexes and what they protect\<close>

datatype mutex =
    EtMapMutex
  | HandlerMutex nat
  | CtMapMutex
  | SubscriptionMutex nat
  | CtValueMutex nat
  | EtValueMutex nat
  | TdMutex nat
  | StoreMutex
  | UpdateMutex nat
  | ScanMutex nat
  | StartMutex nat
  | BrokerMutex nat

datatype shared =
    EtMap
  | EtBindings
  | ActionHandlers nat
  | WriteHandlers nat
  | EtValues nat
  | CtMap
  | CtBindings
  | Subscriptions nat
  | Observations nat
  | CtValues nat
  | TdActions nat
  | TdEvents nat
  | TdForms nat
  | TdProperties nat
  | TdTitle nat
  | TdMap
  | MqttSubscriptions nat
  | PahoClient nat
  | IsRunning nat
  | ScanRecords nat
  | StartError nat
  | BrokerError nat

type_synonym acts = "(mutex, shared) act list"

section \<open>Thing Descriptions and the store\<close>

definition GetAction_acts :: "nat \<Rightarrow> acts" where
  "GetAction_acts t = [RLock (TdMutex t), Load (TdActions t), RUnlock (TdMutex t)]"

definition GetEvent_acts :: "nat \<Rightarrow> acts" where
  "GetEvent_acts t = [RLock (TdMutex t), Load (TdEvents t), RUnlock (TdMutex t)]"

definition GetProperty_acts :: "nat \<Rightarrow> acts" where
  "GetProperty_acts t = [RLock (TdMutex t), Load (TdProperties t), RUnlock (TdMutex t)]"

definition UpdateAction_acts :: "nat \<Rightarrow> acts" where
  "UpdateAction_acts t = [Lock (TdMutex t), Store (TdActions t), Unlock (TdMutex t)]"

definition UpdateEvent_acts :: "nat \<Rightarrow> acts" where
  "UpdateEvent_acts t = [Lock (TdMutex t), Store (TdEvents t), Unlock (TdMutex t)]"

definition UpdateForms_acts :: "nat \<Rightarrow> acts" where
  "UpdateForms_acts t = [Lock (TdMutex t), Store (TdForms t), Unlock (TdMutex t)]"

definition UpdateProperty_acts :: "nat \<Rightarrow> acts" where
  "UpdateProperty_acts t = [Lock (TdMutex t), Store (TdProperties t), Unlock (TdMutex t)]"

definition UpdateTitleDescription_acts :: "nat \<Rightarrow> acts" where
  "UpdateTitleDescription_acts t = [Lock (TdMutex t), Store (TdTitle t), Unlock (TdMutex t)]"

text \<open>What \<open>json.Marshal\<close> reads of a TD.\<close>

definition marshal_acts :: "nat \<Rightarrow> acts" where
  "marshal_acts t = [Load (TdActions t), Load (TdEvents t), Load (TdForms t), Load (TdProperties t), Load (TdTitle t)]"

definition AsMap_acts :: "nat \<Rightarrow> acts" where
  "AsMap_acts t = RLock (TdMutex t) # marshal_acts t @ [RUnlock (TdMutex t)]"

definition GetByID_acts :: acts where
  "GetByID_acts = [RLock StoreMutex, Load TdMap, RUnlock StoreMutex]"

definition store_Update_acts :: acts where
  "store_Update_acts = [Lock StoreMutex, Store TdMap, Unlock StoreMutex]"

definition GetIDs_acts :: acts where
  "GetIDs_acts = [Load TdMap]"

section \<open>The MQTT client\<close>

definition connect_acts :: "nat \<Rightarrow> acts" where
  "connect_acts m = [Load (PahoClient m), Store (PahoClient m), Store (IsRunning m), Load (PahoClient m)]"

definition Disconnect_acts :: "nat \<Rightarrow> bool \<Rightarrow> acts" where
  "Disconnect_acts m online =
     [Lock (UpdateMutex m), Store (IsRunning m), Unlock (UpdateMutex m), Load (PahoClient m)] @
     (if online then [Store (PahoClient m), Store (MqttSubscriptions m)] else [])"

definition Publish_acts :: "nat \<Rightarrow> acts" where
  "Publish_acts m = [Load (PahoClient m)]"

definition resubscribe_acts :: "nat \<Rightarrow> bool \<Rightarrow> acts" where
  "resubscribe_acts m any =
     [Lock (UpdateMutex m), Load (MqttSubscriptions m)] @ (if any then [Load (PahoClient m)] else []) @ [Unlock (UpdateMutex m)]"

definition Subscribe_acts :: "nat \<Rightarrow> acts" where
  "Subscribe_acts m = [Lock (UpdateMutex m), Load (PahoClient m), Store (MqttSubscriptions m), Unlock (UpdateMutex m)]"

definition Unsubscribe_acts :: "nat \<Rightarrow> bool \<Rightarrow> bool \<Rightarrow> acts" where
  "Unsubscribe_acts m known online =
     Load (MqttSubscriptions m) # (if known then Load (PahoClient m) # (if online then [Store (MqttSubscriptions m)] else []) else [])"

section \<open>Consumed things\<close>

definition getValue_acts :: "nat \<Rightarrow> acts" where
  "getValue_acts c = [RLock (CtValueMutex c), Load (CtValues c), RUnlock (CtValueMutex c)]"

definition putValue_acts :: "nat \<Rightarrow> acts" where
  "putValue_acts c = [Lock (CtValueMutex c), Store (CtValues c), Unlock (CtValueMutex c)]"

text \<open>\<open>body\<close> is what the handler does, nothing if there is none.\<close>

definition HandleEvent_acts :: "nat \<Rightarrow> nat \<Rightarrow> bool \<Rightarrow> acts \<Rightarrow> acts" where
  "HandleEvent_acts c t known body =
     GetEvent_acts t @
     (if known then
        putValue_acts c @ [Lock (SubscriptionMutex c), Load (Subscriptions c), Unlock (SubscriptionMutex c)] @ body
      else [])"

definition HandlePropertyChange_acts :: "nat \<Rightarrow> nat \<Rightarrow> bool \<Rightarrow> acts \<Rightarrow> acts" where
  "HandlePropertyChange_acts c t known body =
     GetProperty_acts t @
     (if known then
        putValue_acts c @ [Lock (SubscriptionMutex c), Load (Observations c), Unlock (SubscriptionMutex c)] @ body
      else [])"

definition handleEvent_acts :: "nat \<Rightarrow> nat \<Rightarrow> bool \<Rightarrow> acts \<Rightarrow> bool \<Rightarrow> acts \<Rightarrow> acts" where
  "handleEvent_acts c t event body1 property body2 =
     Load (TdEvents t) # (if event then HandleEvent_acts c t True body1 else []) @
     Load (TdProperties t) # (if property then HandlePropertyChange_acts c t True body2 else [])"

definition ObserveProperty_acts :: "nat \<Rightarrow> bool \<Rightarrow> acts" where
  "ObserveProperty_acts c refused =
     [Lock (SubscriptionMutex c), Load (Observations c)] @ (if refused then [] else [Store (Observations c)]) @
     [Unlock (SubscriptionMutex c)]"

definition SubscribeEvent_acts :: "nat \<Rightarrow> nat \<Rightarrow> bool \<Rightarrow> acts" where
  "SubscribeEvent_acts c t refused =
     [Lock (SubscriptionMutex c), Load (Subscriptions c)] @
     (if refused then [] else GetEvent_acts t @ [Store (Subscriptions c)]) @ [Unlock (SubscriptionMutex c)]"

definition ReadAllProperties_acts :: "nat \<Rightarrow> nat \<Rightarrow> nat \<Rightarrow> acts" where
  "ReadAllProperties_acts c t n = Load (TdProperties t) # concat (replicate n (getValue_acts c))"

definition Stop_acts :: "nat \<Rightarrow> acts" where
  "Stop_acts c =
     [Lock (SubscriptionMutex c), Store (Subscriptions c), Store (Observations c),
      Lock (CtValueMutex c), Store (CtValues c), Unlock (CtValueMutex c), Unlock (SubscriptionMutex c)]"

definition InvokeAction_acts :: "nat \<Rightarrow> nat \<Rightarrow> bool \<Rightarrow> acts" where
  "InvokeAction_acts t m known = GetAction_acts t @ (if known then GetAction_acts t @ Publish_acts m else [])"

definition Consume_acts :: "nat \<Rightarrow> bool \<Rightarrow> acts" where
  "Consume_acts m found =
     [Lock CtMapMutex, Load CtMap] @ (if found then [] else [Store CtBindings, Store CtMap] @ Subscribe_acts m) @ [Unlock CtMapMutex]"

definition cf_Destroy_acts :: "nat \<Rightarrow> nat \<Rightarrow> bool \<Rightarrow> bool \<Rightarrow> bool \<Rightarrow> acts" where
  "cf_Destroy_acts c m bound known online =
     [Lock CtMapMutex, Load CtBindings] @ (if bound then Unsubscribe_acts m known online @ [Store CtBindings] else []) @
     Stop_acts c @ [Store CtMap, Unlock CtMapMutex]"

section \<open>Exposed things\<close>

definition et_GetValue_acts :: "nat \<Rightarrow> acts" where
  "et_GetValue_acts e = [RLock (EtValueMutex e), Load (EtValues e), RUnlock (EtValueMutex e)]"

definition EmitEvent_acts :: "nat \<Rightarrow> nat \<Rightarrow> bool \<Rightarrow> acts" where
  "EmitEvent_acts t m known = Load (TdEvents t) # (if known then Publish_acts m else [])"

definition EmitPropertyChange_acts :: "nat \<Rightarrow> nat \<Rightarrow> nat \<Rightarrow> bool \<Rightarrow> bool \<Rightarrow> bool \<Rightarrow> acts" where
  "EmitPropertyChange_acts e t m known changesOnly same =
     GetProperty_acts t @
     (if known then
        (if changesOnly then et_GetValue_acts e else []) @
        (if changesOnly \<and> same then []
         else [Lock (EtValueMutex e), Store (EtValues e), Unlock (EtValueMutex e)] @ Publish_acts m)
      else [])"

text \<open>The write handlers run with the read lock.\<close>

definition handlePropertyWriteRequest_acts :: "nat \<Rightarrow> nat \<Rightarrow> bool \<Rightarrow> bool \<Rightarrow> acts \<Rightarrow> acts" where
  "handlePropertyWriteRequest_acts e t readable writable body =
     [RLock (HandlerMutex e), Load (WriteHandlers e)] @
     (if readable then GetProperty_acts t @ (if writable then Load (WriteHandlers e) # body else []) else []) @
     [RUnlock (HandlerMutex e)]"

definition HandleActionRequest_acts :: "nat \<Rightarrow> nat \<Rightarrow> bool \<Rightarrow> bool \<Rightarrow> bool \<Rightarrow> acts \<Rightarrow> acts" where
  "HandleActionRequest_acts e t action readable writable body =
     GetAction_acts t @
     (if action then Load (ActionHandlers e) # body else handlePropertyWriteRequest_acts e t readable writable body)"

definition SetActionHandler_acts :: "nat \<Rightarrow> acts" where
  "SetActionHandler_acts e = [Lock (HandlerMutex e), Store (ActionHandlers e), Unlock (HandlerMutex e)]"

definition SetPropertyWriteHandler_acts :: "nat \<Rightarrow> acts" where
  "SetPropertyWriteHandler_acts e = [Lock (HandlerMutex e), Store (WriteHandlers e), Unlock (HandlerMutex e)]"

definition et_Destroy_acts :: "nat \<Rightarrow> acts" where
  "et_Destroy_acts e =
     [Lock (HandlerMutex e), Store (WriteHandlers e), Store (ActionHandlers e), Unlock (HandlerMutex e)]"

text \<open>Starting the binding marshals the TD, without its lock.\<close>

definition et_binding_Start_acts :: "nat \<Rightarrow> nat \<Rightarrow> acts" where
  "et_binding_Start_acts t m = Subscribe_acts m @ marshal_acts t @ Publish_acts m"

definition Expose_acts :: "nat \<Rightarrow> nat \<Rightarrow> bool \<Rightarrow> acts" where
  "Expose_acts t m found =
     [Lock EtMapMutex, Load EtMap] @
     (if found then [] else [Store EtBindings, Store EtMap] @ et_binding_Start_acts t m) @ [Unlock EtMapMutex]"

definition ef_Destroy_acts :: "nat \<Rightarrow> nat \<Rightarrow> bool \<Rightarrow> bool \<Rightarrow> bool \<Rightarrow> acts" where
  "ef_Destroy_acts e m bound known online =
     [Lock EtMapMutex, Load EtBindings] @ (if bound then Unsubscribe_acts m known online @ [Store EtBindings] else []) @
     et_Destroy_acts e @ [Store EtMap, Unlock EtMapMutex]"

section \<open>Goroutines of the library\<close>

text \<open>\<open>DnsSDScan\<close> collects \<open>k\<close> entries in a goroutine and reads what there is when the time is over.\<close>

definition DnsSDScan_collect_acts :: "nat \<Rightarrow> nat \<Rightarrow> acts" where
  "DnsSDScan_collect_acts n k =
     concat (replicate k [Lock (ScanMutex n), Load (ScanRecords n), Store (ScanRecords n), Unlock (ScanMutex n)])"

definition DnsSDScan_result_acts :: "nat \<Rightarrow> acts" where
  "DnsSDScan_result_acts n = [Lock (ScanMutex n), Load (ScanRecords n), Unlock (ScanMutex n)]"

text \<open>\<open>TLSServer.Start\<close>: the error of the server is written when it fails, and copied to the result under the mutex.\<close>

definition server_Start_listen_acts :: "nat \<Rightarrow> bool \<Rightarrow> acts" where
  "server_Start_listen_acts n failed =
     (if failed then [Lock (StartMutex n), Store (StartError n), Unlock (StartMutex n)] else [])"

definition server_Start_result_acts :: "nat \<Rightarrow> acts" where
  "server_Start_result_acts n = [Lock (StartMutex n), Load (StartError n), Unlock (StartMutex n)]"

text \<open>
  \<open>StartMosquitto\<close>: here the error is the named result of the function. It is returned after the deferred Unlock, so it is read once more then.
\<close>

definition StartMosquitto_wait_acts :: "nat \<Rightarrow> acts" where
  "StartMosquitto_wait_acts n = [Lock (BrokerMutex n), Store (BrokerError n), Unlock (BrokerMutex n)]"

definition StartMosquitto_result_acts :: "nat \<Rightarrow> acts" where
  "StartMosquitto_result_acts n = [Lock (BrokerMutex n), Load (BrokerError n), Unlock (BrokerMutex n), Load (BrokerError n)]"

section \<open>The library\<close>

text \<open>
  The calls an application or Paho makes, with the branch taken. Listeners of consumed things and handlers of exposed things are lists
  of such calls; the empty list also stands for no handler.
\<close>

datatype op =
    TdGetAction nat | TdGetEvent nat | TdGetProperty nat | TdAsMap nat
  | TdUpdateAction nat | TdUpdateEvent nat | TdUpdateForms nat | TdUpdateProperty nat | TdUpdateTitle nat
  | StoreGetByID | StoreUpdate | StoreGetIDs
  | MqttConnect nat | MqttDisconnect nat bool | MqttPublish nat | MqttResubscribe nat bool | MqttSubscribe nat
  | MqttUnsubscribe nat bool bool
  | CtRead nat | CtReadAll nat nat nat | CtObserve nat bool | CtSubscribe nat nat bool | CtInvoke nat nat bool
  | CtMessage nat nat bool "op list" bool "op list"
  | CfConsume nat bool | CfDestroy nat nat bool bool bool
  | EtRead nat | EtEmitEvent nat nat bool | EtEmitProperty nat nat nat bool bool bool
  | EtSetAction nat | EtSetWrite nat | EtRequest nat nat bool bool bool "op list"
  | EfExpose nat nat bool | EfDestroy nat nat bool bool bool
  | ScanCollect nat nat | ScanResult nat | ServerListen nat bool | ServerResult nat | BrokerWait nat | BrokerResult nat

fun acts :: "op \<Rightarrow> acts" where
  "acts (TdGetAction t) = GetAction_acts t"
| "acts (TdGetEvent t) = GetEvent_acts t"
| "acts (TdGetProperty t) = GetProperty_acts t"
| "acts (TdAsMap t) = AsMap_acts t"
| "acts (TdUpdateAction t) = UpdateAction_acts t"
| "acts (TdUpdateEvent t) = UpdateEvent_acts t"
| "acts (TdUpdateForms t) = UpdateForms_acts t"
| "acts (TdUpdateProperty t) = UpdateProperty_acts t"
| "acts (TdUpdateTitle t) = UpdateTitleDescription_acts t"
| "acts StoreGetByID = GetByID_acts"
| "acts StoreUpdate = store_Update_acts"
| "acts StoreGetIDs = GetIDs_acts"
| "acts (MqttConnect m) = connect_acts m"
| "acts (MqttDisconnect m online) = Disconnect_acts m online"
| "acts (MqttPublish m) = Publish_acts m"
| "acts (MqttResubscribe m any) = resubscribe_acts m any"
| "acts (MqttSubscribe m) = Subscribe_acts m"
| "acts (MqttUnsubscribe m known online) = Unsubscribe_acts m known online"
| "acts (CtRead c) = getValue_acts c"
| "acts (CtReadAll c t n) = ReadAllProperties_acts c t n"
| "acts (CtObserve c refused) = ObserveProperty_acts c refused"
| "acts (CtSubscribe c t refused) = SubscribeEvent_acts c t refused"
| "acts (CtInvoke t m known) = InvokeAction_acts t m known"
| "acts (CtMessage c t event listener property observer) =
     handleEvent_acts c t event (concat (map acts listener)) property (concat (map acts observer))"
| "acts (CfConsume m found) = Consume_acts m found"
| "acts (CfDestroy c m bound known online) = cf_Destroy_acts c m bound known online"
| "acts (EtRead e) = et_GetValue_acts e"
| "acts (EtEmitEvent t m known) = EmitEvent_acts t m known"
| "acts (EtEmitProperty e t m known changesOnly same) = EmitPropertyChange_acts e t m known changesOnly same"
| "acts (EtSetAction e) = SetActionHandler_acts e"
| "acts (EtSetWrite e) = SetPropertyWriteHandler_acts e"
| "acts (EtRequest e t action readable writable handler) =
     HandleActionRequest_acts e t action readable writable (concat (map acts handler))"
| "acts (EfExpose t m found) = Expose_acts t m found"
| "acts (EfDestroy e m bound known online) = ef_Destroy_acts e m bound known online"
| "acts (ScanCollect n k) = DnsSDScan_collect_acts n k"
| "acts (ScanResult n) = DnsSDScan_result_acts n"
| "acts (ServerListen n failed) = server_Start_listen_acts n failed"
| "acts (ServerResult n) = server_Start_result_acts n"
| "acts (BrokerWait n) = StartMosquitto_wait_acts n"
| "acts (BrokerResult n) = StartMosquitto_result_acts n"

abbreviation program :: "op list \<Rightarrow> acts" where
  "program ops \<equiv> concat (map acts ops)"

text \<open>The order in which the operations nest the mutexes.\<close>

fun rank :: "mutex \<Rightarrow> nat" where
  "rank EtMapMutex = 0"
| "rank (HandlerMutex e) = 1"
| "rank CtMapMutex = 2"
| "rank (SubscriptionMutex c) = 3"
| "rank (CtValueMutex c) = 4"
| "rank (EtValueMutex e) = 4"
| "rank (TdMutex t) = 5"
| "rank StoreMutex = 5"
| "rank (UpdateMutex m) = 6"
| "rank (ScanMutex n) = 7"
| "rank (StartMutex n) = 7"
| "rank (BrokerMutex n) = 7"

text \<open>
  What the operations always do under one mutex. The others, which some operation accesses without: the handlers of actions, the maps
  of a TD, the TDs of the store, the fields of the MQTT client, and the error of the broker.
\<close>

fun guard :: "shared \<Rightarrow> mutex option" where
  "guard EtMap = Some EtMapMutex"
| "guard EtBindings = Some EtMapMutex"
| "guard (WriteHandlers e) = Some (HandlerMutex e)"
| "guard (EtValues e) = Some (EtValueMutex e)"
| "guard CtMap = Some CtMapMutex"
| "guard CtBindings = Some CtMapMutex"
| "guard (Subscriptions c) = Some (SubscriptionMutex c)"
| "guard (Observations c) = Some (SubscriptionMutex c)"
| "guard (CtValues c) = Some (CtValueMutex c)"
| "guard (ScanRecords n) = Some (ScanMutex n)"
| "guard (StartError n) = Some (StartMutex n)"
| "guard _ = None"

text \<open>What a write handler may call: nothing that takes the mutex of handlers or of the factory of exposed things.\<close>

definition inner :: "op \<Rightarrow> bool" where
  "inner x \<longleftrightarrow> list_all (\<lambda>l. 1 < rank l) (acquires (acts x))"

fun allowed :: "op \<Rightarrow> bool" where
  "allowed (CtMessage c t event listener property observer) \<longleftrightarrow> list_all allowed listener \<and> list_all allowed observer"
| "allowed (EtRequest e t action readable writable handler) \<longleftrightarrow>
     list_all allowed handler \<and> (action \<or> list_all inner handler)"
| "allowed _ \<longleftrightarrow> True"

lemmas td_acts =
  GetAction_acts_def GetEvent_acts_def GetProperty_acts_def UpdateAction_acts_def UpdateEvent_acts_def UpdateForms_acts_def
  UpdateProperty_acts_def UpdateTitleDescription_acts_def marshal_acts_def AsMap_acts_def GetByID_acts_def store_Update_acts_def
  GetIDs_acts_def

lemmas mqtt_acts =
  connect_acts_def Disconnect_acts_def Publish_acts_def resubscribe_acts_def Subscribe_acts_def Unsubscribe_acts_def

lemmas consumed_acts =
  getValue_acts_def putValue_acts_def HandleEvent_acts_def HandlePropertyChange_acts_def handleEvent_acts_def ObserveProperty_acts_def
  SubscribeEvent_acts_def Stop_acts_def InvokeAction_acts_def Consume_acts_def cf_Destroy_acts_def

lemmas exposed_acts =
  et_GetValue_acts_def EmitEvent_acts_def EmitPropertyChange_acts_def handlePropertyWriteRequest_acts_def HandleActionRequest_acts_def
  SetActionHandler_acts_def SetPropertyWriteHandler_acts_def et_Destroy_acts_def et_binding_Start_acts_def Expose_acts_def
  ef_Destroy_acts_def

lemmas start_acts =
  DnsSDScan_result_acts_def server_Start_listen_acts_def server_Start_result_acts_def StartMosquitto_wait_acts_def
  StartMosquitto_result_acts_def

lemma collect_orderly: "orderly rank [] (DnsSDScan_collect_acts n k) \<and> guarded guard [] (DnsSDScan_collect_acts n k)"
  unfolding DnsSDScan_collect_acts_def by (induction k) auto

lemma reads_orderly:
  "orderly rank [] (concat (replicate n (getValue_acts c))) \<and> guarded guard [] (concat (replicate n (getValue_acts c)))"
  by (induction n) (auto simp: getValue_acts_def)

lemma ReadAll_orderly: "orderly rank [] (ReadAllProperties_acts c t n) \<and> guarded guard [] (ReadAllProperties_acts c t n)"
  using reads_orderly [of n c] by (simp add: ReadAllProperties_acts_def)

lemma program_orderly:
  "(\<And>x. x \<in> set ops \<Longrightarrow> orderly rank [] (acts x) \<and> guarded guard [] (acts x)) \<Longrightarrow>
     orderly rank [] (program ops) \<and> guarded guard [] (program ops)"
  by (intro conjI orderly_concat guarded_concat [where rank = rank]) auto

lemma program_above: "list_all inner ops \<Longrightarrow> rank l \<le> 1 \<Longrightarrow> above rank [(l, m)] (acquires (program ops))"
  unfolding above_def acquires_concat by (fastforce simp: inner_def list_all_iff)

lemma acts_disciplined: "allowed x \<Longrightarrow> orderly rank [] (acts x) \<and> guarded guard [] (acts x)"
proof (induction x rule: acts.induct)
  case (24 c t event listener property observer)
  then have "orderly rank [] (program listener) \<and> guarded guard [] (program listener)"
    "orderly rank [] (program observer) \<and> guarded guard [] (program observer)"
    by (intro program_orderly; simp add: list_all_iff)+
  then show ?case by (simp add: consumed_acts td_acts orderly_between guarded_between [where rank = rank])
next
  case (32 e t action readable writable handler)
  then have "orderly rank [] (program handler) \<and> guarded guard [] (program handler)"
    by (intro program_orderly) (simp add: list_all_iff)
  moreover have "action \<or> above rank [(HandlerMutex e, Shared)] (acquires (program handler))"
    using 32 program_above [of handler "HandlerMutex e"] by auto
  ultimately show ?case by (auto simp: exposed_acts td_acts orderly_between guarded_between [where rank = rank])
qed (simp_all add: td_acts mqtt_acts consumed_acts exposed_acts start_acts ReadAll_orderly collect_orderly)

interpretation library: lock_discipline rank guard acts allowed
  by unfold_locales (simp_all add: acts_disciplined)

section \<open>Properties\<close>

text \<open>
  C4: Goroutines that call operations of the library at once never deadlock, provided that no write handler of a property calls an operation
  that takes the mutex of handlers or the mutex of the factory of exposed things (\<open>allowed\<close>; without this they can, by C10 and
  \<open>expose_in_write_handler_deadlocks\<close>). Listeners, observers and the handlers of actions may call any operation. However many
  goroutines there are and in whatever order their steps come, from every state they get into all of them can be brought to their end, some
  step is possible as long as one is not done, and the number of steps has a bound known from the beginning, whoever takes the next step.
\<close>

theorem library_calls_complete:
  assumes "list_all (list_all allowed) ps" and "reachable (\<lambda>s. s = start (map program ps)) go_step gs"
  shows "(\<exists>t. go_step\<^sup>*\<^sup>* gs t \<and> all_done t) \<and> (\<not> all_done gs \<longrightarrow> (\<exists>t. go_step gs t)) \<and>
    (\<forall>n t. (go_step ^^ n) gs t \<longrightarrow> n \<le> work (start (map program ps)))"
proof -
  have init: "(\<lambda>s. s = start (map program ps)) = library.calling ps"
    using assms(1) by (auto simp: library.calling_def fun_eq_iff)
  have "work gs \<le> work (start (map program ps))"
    using assms(2) by induction (auto dest!: step_work)
  then have "n \<le> work (start (map program ps))" if "(go_step ^^ n) gs t" for n t using run_length [OF that] by simp
  with library.complete library.no_deadlock assms(2) show ?thesis unfolding init by blast
qed

definition busy_home :: "op list list" where
  "busy_home =
     [[CtMessage 0 0 False [] True [CtRead 0, CtInvoke 0 0 True], CfDestroy 0 0 True True True],
      [CtSubscribe 0 0 False, CfConsume 0 False],
      [EtRequest 1 1 False True True [EtEmitProperty 1 1 1 True True False], EtSetWrite 1],
      [EfDestroy 1 1 True True True, EfExpose 1 1 False, MqttResubscribe 1 True],
      [ScanCollect 0 2], [ScanResult 0]]"

lemma busy_home_allowed: "list_all (list_all allowed) busy_home"
  by (simp add: busy_home_def inner_def exposed_acts td_acts mqtt_acts)

theorem library_calls_complete_witness: "\<exists>t. go_step\<^sup>*\<^sup>* (start (map program busy_home)) t \<and> all_done t"
  using library_calls_complete [OF busy_home_allowed start_reachable] by blast

text \<open>
  C9: The tables of both factories, the write handlers, the values of things, the listeners of consumed things, the records of a scan
  and the error of a server that starts are never accessed by two goroutines at once when one of them writes. This is shown for goroutines
  whose write handlers take neither the mutex of handlers nor that of the factory of exposed things, as in C4.
\<close>

theorem library_no_races:
  assumes "list_all (list_all allowed) ps" and "reachable (\<lambda>s. s = start (map program ps)) go_step gs"
    and "v \<in> {EtMap, EtBindings, WriteHandlers k, EtValues k, CtMap, CtBindings, Subscriptions k, Observations k, CtValues k,
        ScanRecords k, StartError k}"
  shows "\<not> race v gs"
proof -
  have init: "(\<lambda>s. s = start (map program ps)) = library.calling ps"
    using assms(1) by (auto simp: library.calling_def fun_eq_iff)
  from assms(3) obtain l where "guard v = Some l" by auto
  with library.no_race assms(2) show ?thesis unfolding init by blast
qed

definition reading_home :: "op list list" where
  "reading_home = [[CtMessage 0 0 False [] True [CtRead 0], CtRead 0], [CtRead 0, StoreUpdate]]"

theorem library_no_races_witness:
  "\<exists>gs. reachable (\<lambda>s. s = start (map program reading_home)) go_step gs \<and> hd (go_todo (gs ! 0)) = Store (CtValues 0) \<and>
     go_next gs (gs ! 1) = None \<and> \<not> race (CtValues 0) gs"
proof -
  have "case run_schedule (replicate 7 0) (start (map program reading_home)) of
      None \<Rightarrow> False | Some gs \<Rightarrow> hd (go_todo (gs ! 0)) = Store (CtValues 0) \<and> go_next gs (gs ! 1) = None"
    by code_simp
  then obtain gs where gs: "reachable (\<lambda>s. s = start (map program reading_home)) go_step gs"
      "hd (go_todo (gs ! 0)) = Store (CtValues 0)" "go_next gs (gs ! 1) = None"
    by (auto split: option.splits dest!: schedule_from)
  moreover have "list_all (list_all allowed) reading_home" by (simp add: reading_home_def)
  ultimately show ?thesis using library_no_races [of reading_home gs "CtValues 0" 0] by auto
qed

text \<open>
  C10: A write handler that sets a handler of its thing, or destroys its thing, never returns: it runs with the read lock that the call
  waits for. This holds whatever it did before and whatever other goroutines do.
\<close>

theorem write_handler_blocks:
  assumes "reachable (\<lambda>s. s = start (map program ps)) go_step gs" and "i < length ps"
    and "ps ! i = before @ EtRequest e t False True True (first @ x # rest) # after"
    and "list_all allowed first" and "list_all inner first"
    and "x \<in> {EtSetWrite e, EtSetAction e, EfDestroy e m bound known online}"
  shows "go_todo (gs ! i) \<noteq> []"
proof -
  let ?l = "HandlerMutex e"
  have "orderly rank [] (program first)"
    using assms(4) program_orderly [of first] acts_disciplined by (auto simp: list_all_iff)
  moreover have "?l \<notin> set (acquires (program first))"
    using assms(5) unfolding acquires_concat by (fastforce simp: inner_def list_all_iff)
  ultimately have first: "RUnlock ?l \<notin> set (program first)" using released_acquired by fastforce
  have "\<exists>p q. acts x = p @ Lock ?l # q \<and> RUnlock ?l \<notin> set p"
    using assms(6)
  proof (elim insertE emptyE)
    assume "x = EfDestroy e m bound known online"
    then show ?thesis
      by (intro exI [of _ "[Lock EtMapMutex, Load EtBindings] @ (if bound then Unsubscribe_acts m known online @ [Store EtBindings] else [])"] exI)
        (simp add: ef_Destroy_acts_def et_Destroy_acts_def Unsubscribe_acts_def)
  qed (intro exI [of _ "[]"] exI, simp add: SetActionHandler_acts_def SetPropertyWriteHandler_acts_def)+
  then obtain p q where x: "acts x = p @ Lock ?l # q" "RUnlock ?l \<notin> set p" by blast
  let ?mid = "Load (WriteHandlers e) # GetProperty_acts t @ Load (WriteHandlers e) # program first @ p"
  let ?post = "q @ program rest @ RUnlock ?l # program after"
  have "program (ps ! i) = (program before @ GetAction_acts t) @ RLock ?l # ?mid @ Lock ?l # ?post"
    by (simp add: assms(3) x(1) HandleActionRequest_acts_def handlePropertyWriteRequest_acts_def)
  moreover have "RUnlock ?l \<notin> set ?mid" using first x(2) by (simp add: GetProperty_acts_def)
  ultimately have "caught ?l ?post (start (map program ps) ! i)"
    using assms(2) by (intro caughtI [where pre = "program before @ GetAction_acts t" and mid = ?mid]) (simp_all add: start_def)
  then show ?thesis
    using caught_forever [OF assms(1), of i ?l ?post] assms(2) by (auto simp: start_def dest: caught_not_done)
qed

definition rewiring_home :: "op list list" where
  "rewiring_home = [[EtRequest 1 1 False True True [EtEmitProperty 1 1 1 True True False, EtSetWrite 1]], [EtRead 1]]"

theorem write_handler_blocks_witness:
  "\<exists>gs. reachable (\<lambda>s. s = start (map program rewiring_home)) go_step gs \<and> go_next gs (gs ! 0) = None \<and> go_todo (gs ! 0) \<noteq> []"
proof -
  have "case run_schedule (replicate 21 0) (start (map program rewiring_home)) of None \<Rightarrow> False | Some gs \<Rightarrow> go_next gs (gs ! 0) = None"
    by code_simp
  then obtain gs where gs: "reachable (\<lambda>s. s = start (map program rewiring_home)) go_step gs" "go_next gs (gs ! 0) = None"
    by (auto split: option.splits dest!: schedule_from)
  from write_handler_blocks [OF gs(1), of 0 "[]" 1 1 "[EtEmitProperty 1 1 1 True True False]" "EtSetWrite 1" "[]" "[]"]
  have "go_todo (gs ! 0) \<noteq> []" by (simp add: rewiring_home_def inner_def exposed_acts td_acts mqtt_acts)
  with gs show ?thesis by blast
qed

section \<open>What is not guarded\<close>

text \<open>
  For every variable without a guard, calls that can meet at it, for any numbers and branches: a request for an action and
  SetActionHandler; updating a TD and exposing its thing, which marshals the TD without its mutex; listing the IDs of a store and adding a
  TD; giving up a consumed thing and the subscriptions made again after a reconnect; publishing and disconnecting; connecting and
  disconnecting; starting the broker and its end.
\<close>

lemmas meet_simps = can_meet_def td_acts mqtt_acts consumed_acts exposed_acts start_acts



lemma td_events_meet: "can_meet (TdEvents t) (acts (TdUpdateEvent t)) (acts (EtEmitEvent t m known))"
  by (simp add: meet_simps)










text \<open>
  The order of the mutexes is needed: a write handler that exposes a thing runs with the mutex of handlers and waits for the mutex of the
  factory, which a goroutine that destroys the thing takes before the other.
\<close>

lemma expose_in_write_handler_deadlocks:
  "\<exists>gs. reachable (\<lambda>s. s = start [program [EtRequest 0 0 False True True [EfExpose 1 0 False]], program [EfDestroy 0 0 False False False]])
      go_step gs \<and> deadlocked gs"
  by (rule schedule_deadlock [where sched = "[0, 0, 0, 0, 0, 0, 0, 0, 0, 1, 1, 1, 0, 1]"]) code_simp

end
