(* ===== verification/Vocabulary.thy ===== *)
theory Vocabulary
  imports ThingID Topics InteractionOutput
begin

text \<open>
  The vocabulary (\<open>pkg/vocab\<close>: IoTVocabulary.go, WoTVocabulary.go): the values of the constants under their names, one table for each
  group, and what the identifiers and topics of the library need of them. A device type is a string in Go; these are the listed ones.
\<close>

section \<open>The constants\<close>

type_synonym vocabulary = "(string \<times> string) list"

definition DeviceTypes :: vocabulary where
  "DeviceTypes =
    [(''DeviceTypeAlarm'', ''alarm''), (''DeviceTypeAVControl'', ''avControl''), (''DeviceTypeAVReceiver'', ''avReceiver''),
     (''DeviceTypeBeacon'', ''beacon''), (''DeviceTypeButton'', ''button''), (''DeviceTypeAdapter'', ''adapter''),
     (''DeviceTypePhone'', ''phone''), (''DeviceTypeCamera'', ''camera''), (''DeviceTypeComputer'', ''computer''),
     (''DeviceTypeDimmer'', ''dimmer''), (''DeviceTypeGateway'', ''gateway''), (''DeviceTypeKeypad'', ''keypad''),
     (''DeviceTypeLock'', ''lock''), (''DeviceTypeMultisensor'', ''multisensor''), (''DeviceTypeNetRepeater'', ''netRepeater''),
     (''DeviceTypeNetRouter'', ''netRouter''), (''DeviceTypeNetSwitch'', ''netSwitch''), (''DeviceTypeNetWifiAP'', ''wifiAP''),
     (''DeviceTypeOnOffSwitch'', ''onOffSwitch''), (''DeviceTypePowerMeter'', ''powerMeter''), (''DeviceTypeSensor'', ''sensor''),
     (''DeviceTypeService'', ''service''), (''DeviceTypeSmartlight'', ''smartlight''), (''DeviceTypeThermometer'', ''thermometer''),
     (''DeviceTypeThermostat'', ''thermostat''), (''DeviceTypeTV'', ''tv''), (''DeviceTypeUnknown'', ''unknown''),
     (''DeviceTypeWallpaper'', ''wallpaper''), (''DeviceTypeWaterValve'', ''waterValve''),
     (''DeviceTypeWeatherService'', ''weatherService''), (''DeviceTypeWeatherStation'', ''weatherStation''),
     (''DeviceTypeWeighScale'', ''weighScale'')]"

definition PropNames :: vocabulary where
  "PropNames =
    [(''PropNameAcceleration'', ''acceleration''), (''PropNameAddress'', ''address''), (''PropNameAirQuality'', ''airQuality''),
     (''PropNameAlarm'', ''alarm''), (''PropNameAtmosphericPressure'', ''atmosphericPressure''), (''PropNameBatch'', ''batch''),
     (''PropNameBattery'', ''battery''), (''PropNameCarbonDioxideLevel'', ''co2level''),
     (''PropNameCarbonMonoxideDetector'', ''coDetector''), (''PropNameCarbonMonoxideLevel'', ''coLevel''),
     (''PropNameChannel'', ''avChannel''), (''PropNameColor'', ''color''), (''PropNameColorTemperature'', ''colorTemperature''),
     (''PropNameConnections'', ''connections''), (''PropNameCPULevel'', ''cpuLevel''), (''PropNameDateTime'', ''dateTime''),
     (''PropNameDescription'', ''description''), (''PropNameDeviceType'', ''deviceType''), (''PropNameDewpoint'', ''dewpoint''),
     (''PropNameDimmer'', ''dimmer''), (''PropNameDisabled'', ''disabled''), (''PropNameDoorWindowSensor'', ''doorWindowSensor''),
     (''PropNameElectricCurrent'', ''current''), (''PropNameElectricEnergy'', ''energy''), (''PropNameElectricPower'', ''power''),
     (''PropNameErrors'', ''errors''), (''PropNameEvent'', ''event''), (''PropNameFilename'', ''filename''),
     (''PropNameGatewayAddress'', ''gatewayAddress''), (''PropNameHostname'', ''hostname''), (''PropNameHeatIndex'', ''heatindex''),
     (''PropNameHue'', ''hue''), (''PropNameHumidex'', ''humidex''), (''PropNameHumidity'', ''humidity''), (''PropNameImage'', ''image''),
     (''PropNameLatency'', ''latency''), (''PropNameLatitude'', ''latitude''), (''PropNameLatLon'', ''latlon''),
     (''PropNameLevel'', ''level''), (''PropNameLongitude'', ''longitude''), (''PropNameLocalIP'', ''localIP''),
     (''PropNameLocation'', ''location''), (''PropNameLocationName'', ''locationName''), (''PropNameLock'', ''lock''),
     (''PropNameLoginName'', ''loginName''), (''PropNameLuminance'', ''luminance''), (''PropNameMAC'', ''mac''),
     (''PropNameManufacturer'', ''manufacturer''), (''PropNameMax'', ''max''), (''PropNameMin'', ''min''), (''PropNameModel'', ''model''),
     (''PropNameMotion'', ''motion''), (''PropNameMute'', ''avMute''), (''PropNameName'', ''name''), (''PropNameNetmask'', ''netmask''),
     (''PropNameOnOffSwitch'', ''switch''), (''PropNamePassword'', ''password''), (''PropNamePlay'', ''avPlay''),
     (''PropNamePollInterval'', ''pollInterval''), (''PropNamePort'', ''port''), (''PropNamePowerSource'', ''powerSource''),
     (''PropNameProduct'', ''product''), (''PropNamePublicKey'', ''publicKey''), (''PropNamePushButton'', ''pushButton''),
     (''PropNameRain'', ''rain''), (''PropNameRelay'', ''relay''), (''PropNameSaturation'', ''saturation''),
     (''PropNameScale'', ''scale''), (''PropNameSignalStrength'', ''signalStrength''), (''PropNameSmokeDetector'', ''smokeDetector''),
     (''PropNameSnow'', ''snow''), (''PropNameSoftwareVersion'', ''softwareVersion''), (''PropNameSoundDetector'', ''soundDetector''),
     (''PropNameSubnet'', ''subnet''), (''PropNameSwitch'', ''switch''), (''PropNameTemperature'', ''temperature''),
     (''PropNameTitle'', ''title''), (''PropNameUltraviolet'', ''ultraviolet''), (''PropNameUnknown'', ''''), (''PropNameURL'', ''url''),
     (''PropNameVibrationDetector'', ''vibrationDetector''), (''PropNameValue'', ''value''), (''PropNameVoltage'', ''voltage''),
     (''PropNameVolume'', ''volume''), (''PropNameWaterLevel'', ''waterLevel''), (''PropNameWeather'', ''weather''),
     (''PropNameWindHeading'', ''windHeading''), (''PropNameWindSpeed'', ''windSpeed'')]"

definition UnitNames :: vocabulary where
  "UnitNames =
    [(''UnitNameNone'', ''''), (''UnitNameAmp'', ''A''), (''UnitNameCelcius'', ''C''), (''UnitNameCandela'', ''cd''),
     (''UnitNameCount'', ''#''), (''UnitNameDegree'', ''Degree''), (''UnitNameFahrenheit'', ''F''), (''UnitNameFeet'', ''ft''),
     (''UnitNameGallon'', ''Gal''), (''UnitNameJpeg'', ''jpeg''), (''UnitNameKelvin'', ''K''), (''UnitNameKmPerHour'', ''Kph''),
     (''UnitNameLiter'', ''L''), (''UnitNameMercury'', ''hg''), (''UnitNameMeter'', ''m''), (''UnitNameMetersPerSecond'', ''m/s''),
     (''UnitNameMilesPerHour'', ''mph''), (''UnitNameMillibar'', ''mbar''), (''UnitNameMole'', ''mol''),
     (''UnitNamePartsPerMillion'', ''ppm''), (''UnitNamePng'', ''png''), (''UnitNameKWH'', ''KWh''), (''UnitNameKG'', ''kg''),
     (''UnitNameLux'', ''lux''), (''UnitNamePascal'', ''Pa''), (''UnitNamePercent'', ''%''), (''UnitNamePounds'', ''lbs''),
     (''UnitNameSpeed'', ''m/s''), (''UnitNamePSI'', ''psi''), (''UnitNameSecond'', ''s''), (''UnitNameVolt'', ''V''),
     (''UnitNameWatt'', ''W'')]"

definition WoTTerms :: vocabulary where
  "WoTTerms =
    [(''WoTAtType'', ''@type''), (''WoTAtContext'', ''@context''), (''WoTAnyURI'', ''https://www.w3.org/2019/wot/thing/v1''),
     (''WoTActions'', ''actions''), (''WoTCreated'', ''created''), (''WoTDescription'', ''description''),
     (''WoTDescriptions'', ''descriptions''), (''WoTEvents'', ''events''), (''WoTForms'', ''forms''), (''WoTID'', ''id''),
     (''WoTLinks'', ''links''), (''WoTModified'', ''modified''), (''WoTProperties'', ''properties''), (''WoTSecurity'', ''security''),
     (''WoTSupport'', ''support''), (''WoTTitle'', ''title''), (''WoTTitles'', ''titles''), (''WoTVersion'', ''version'')]"

definition WoTSchemaTerms :: vocabulary where
  "WoTSchemaTerms =
    [(''WoTConst'', ''const''), (''WoTDataType'', ''type''), (''WoTDataTypeAnyURI'', ''anyURI''), (''WoTDataTypeArray'', ''array''),
     (''WoTDataTypeBool'', ''boolean''), (''WoTDataTypeDateTime'', ''dateTime''), (''WoTDataTypeInteger'', ''integer''),
     (''WoTDataTypeUnsignedInt'', ''unsignedInt''), (''WoTDataTypeNumber'', ''number''), (''WoTDataTypeObject'', ''object''),
     (''WoTDataTypeString'', ''string''), (''WoTEnum'', ''enum''), (''WoTFormat'', ''format''), (''WoTHref'', ''href''),
     (''WoTInput'', ''input''), (''WoTMaximum'', ''maximum''), (''WoTMaxItems'', ''maxItems''), (''WoTMaxLength'', ''maxLength''),
     (''WoTMinimum'', ''minimum''), (''WoTMinItems'', ''minItems''), (''WoTMinLength'', ''minLength''), (''WoTOperation'', ''op''),
     (''WoTOutput'', ''output''), (''WoTReadOnly'', ''readOnly''), (''WoTRequired'', ''required''), (''WoTWriteOnly'', ''writeOnly''),
     (''WoTUnit'', ''unit'')]"

definition WoTSecuritySchemes :: vocabulary where
  "WoTSecuritySchemes =
    [(''WoTNoSecurityScheme'', ''NoSecurityScheme''), (''WoTBasicSecurityScheme'', ''BasicSecurityScheme''),
     (''WoTDigestSecurityScheme'', ''DigestSecurityScheme''), (''WoTAPIKeySecurityScheme'', ''APIKeySecurityScheme''),
     (''WoTBearerSecurityScheme'', ''BearerSecurityScheme''), (''WoTPSKSecurityScheme'', ''PSKSecurityScheme''),
     (''WoTOAuth2SecurityScheme'', ''OAuth2SecurityScheme'')]"

definition TimeFormat :: string where
  "TimeFormat = ''2006-01-02T15:04:05.000-0700''"

section \<open>What other components rely on\<close>

lemma vocabulary_terms:
  "map_of WoTSchemaTerms ''WoTDataTypeObject'' = Some WoTDataTypeObject"
  "map_of WoTSecuritySchemes ''WoTNoSecurityScheme'' = Some WoTNoSecurityScheme"
  by (simp_all add: WoTSchemaTerms_def WoTSecuritySchemes_def WoTDataTypeObject_def WoTNoSecurityScheme_def)

text \<open>No two device types have the same value; of the property names only two have, and of the units only two.\<close>

lemma device_types_distinct: "distinct (map snd DeviceTypes)"
  by code_simp

lemma prop_names_distinct: "distinct (map snd (filter (\<lambda>(c, n). c \<noteq> ''PropNameSwitch'') PropNames))"
  by code_simp

lemma unit_names_distinct: "distinct (map snd (filter (\<lambda>(c, n). c \<noteq> ''UnitNameSpeed'') UnitNames))"
  by code_simp

lemma device_types_colon: "list_all (\<lambda>(c, d). no_colon d) DeviceTypes"
  by code_simp

lemma prop_names_slash: "list_all (\<lambda>(c, n). no_slash n) PropNames"
  by code_simp

text \<open>The members of the JSON of a TD are terms of the vocabulary, but for three.\<close>

lemma td_members_in_vocabulary:
  "filter (\<lambda>k. k \<notin> snd ` set (WoTTerms @ WoTSchemaTerms)) (map fst (td_fields td)) = [''@types'', ''base'', ''securityDefinitions'']"
proof -
  have "map fst (td_fields td) = [''@context'', ''@type'', ''@types'', ''base'', ''created'', ''modified'', ''description'', ''descriptions'',
      ''id'', ''support'', ''title'', ''titles'', ''properties'', ''actions'', ''events'', ''forms'', ''security'', ''securityDefinitions'']"
    by (simp add: td_fields_def)
  moreover have "filter (\<lambda>k. k \<notin> snd ` set (WoTTerms @ WoTSchemaTerms)) \<dots> = [''@types'', ''base'', ''securityDefinitions'']"
    by code_simp
  ultimately show ?thesis by simp
qed

text \<open>
  C29: A device type of the vocabulary can be read back from the ID of a thing made with it, and a property name of the vocabulary from the
  topics of its events and requests. Two IDs of the same zone and device are the same only when they are made with the same constant.
\<close>

theorem vocabulary_addressable:
  assumes "(c, d) \<in> set DeviceTypes" and "(k, n) \<in> set PropNames"
    and "no_colon zone" and "no_colon deviceID" and "no_slash thingID"
  shows "tid_type (SplitThingID (CreateThingID zone deviceID d)) = d \<and>
    tid_device (SplitThingID (CreateThingID zone deviceID d)) = deviceID \<and>
    (\<forall>c' d'. (c', d') \<in> set DeviceTypes \<longrightarrow> CreateThingID zone deviceID d' = CreateThingID zone deviceID d \<longrightarrow> c' = c) \<and>
    SplitTopic (thing_topic TopicEmitEvent thingID @ ''/'' @ n) = (thingID, TopicTypeEvent, n) \<and>
    SplitTopic (thing_topic TopicInvokeAction thingID @ ''/'' @ n) = (thingID, TopicTypeAction, n)"
proof -
  have nc: "no_colon d" if "(c, d) \<in> set DeviceTypes" for c d using device_types_colon that by (auto simp: list_all_iff)
  note split = split_thing_id [OF assms(3,4) nc]
  have "c' = c" if "(c', d') \<in> set DeviceTypes" "CreateThingID zone deviceID d' = CreateThingID zone deviceID d" for c' d'
  proof -
    have "d' = d" using split [OF that(1)] split [OF assms(1)] that(2) by (metis thing_id_parts.select_convs(4))
    with that(1) assms(1) device_types_distinct inj_onD [of snd "set DeviceTypes" "(c', d)" "(c, d)"] show ?thesis
      by (simp add: distinct_map)
  qed
  moreover have "no_slash n" using prop_names_slash assms(2) by (auto simp: list_all_iff)
  then have "takeWhile (\<lambda>c. c \<noteq> CHR ''/'') n = n" by (auto simp: no_slash_def)
  ultimately show ?thesis using split [OF assms(1)] split_binding_topic [OF assms(5), of n] by auto
qed

theorem vocabulary_addressable_witness:
  "tid_type (SplitThingID (CreateThingID ''zone1'' ''dev1'' ''thermostat'')) = ''thermostat'' \<and>
   SplitTopic (thing_topic TopicEmitEvent ''urn:zone1:dev1:thermostat'' @ ''/'' @ ''temperature'') =
     (''urn:zone1:dev1:thermostat'', TopicTypeEvent, ''temperature'')"
proof -
  have "(''DeviceTypeThermostat'', ''thermostat'') \<in> set DeviceTypes" "(''PropNameTemperature'', ''temperature'') \<in> set PropNames"
    by (simp_all add: DeviceTypes_def PropNames_def)
  from vocabulary_addressable [OF this, of "''zone1''" "''dev1''" "''urn:zone1:dev1:thermostat''"] show ?thesis
    by (simp add: no_colon_def no_slash_def)
qed

end
