(* ===== verification/WaitSignal.thy ===== *)
theory WaitSignal
  imports Main
begin

text \<open>
  Waiting for the end (\<open>pkg/proc/WaitForSignal.go\<close>): the function blocks until the process gets SIGINT or SIGTERM, and prints its name. The
  arguments are the names the system gives to signals, what another signal does to the process, to end it or not, and the signals that come.
\<close>

datatype signal = SIGINT | SIGTERM | OtherSignal nat

datatype waiting = StillWaiting | Ended signal | Returned "string list"

definition notified :: "signal list" where
  "notified = [SIGINT, SIGTERM]"

fun WaitForSignal :: "(signal \<Rightarrow> string) \<Rightarrow> (signal \<Rightarrow> bool) \<Rightarrow> signal list \<Rightarrow> waiting" where
  "WaitForSignal name ends [] = StillWaiting"
| "WaitForSignal name ends (sig # sigs) =
     (if sig \<in> set notified then Returned [[], name sig]
      else if ends sig then Ended sig else WaitForSignal name ends sigs)"

text \<open>The first signal that is one of the two, or ends the process, decides.\<close>

lemma wait_first:
  "WaitForSignal name ends sigs =
     (case find (\<lambda>s. s = SIGINT \<or> s = SIGTERM \<or> ends s) sigs of
        None \<Rightarrow> StillWaiting
      | Some s \<Rightarrow> if s = SIGINT \<or> s = SIGTERM then Returned [[], name s] else Ended s)"
  by (induction sigs) (auto simp: notified_def)

end
