(* ===== verification/Base64.thy ===== *)
theory Base64
  imports GoStrings
begin

text \<open>
  The standard base64 encoding (\<open>encoding/base64.StdEncoding\<close>), in which basic authentication puts the user name and
  the password: encoding with padding, and decoding as Go does it, which skips line ends and ignores the bits left over
  before the padding. A byte string is a list of 8-bit characters.
\<close>

section \<open>Digits\<close>

definition b64_char :: "nat \<Rightarrow> char" where
  "b64_char n =
     (if n < 26 then char_of (65 + n)
      else if n < 52 then char_of (97 + (n - 26))
      else if n < 62 then char_of (48 + (n - 52))
      else if n = 62 then CHR ''+'' else CHR ''/'')"

definition b64_val :: "char \<Rightarrow> nat option" where
  "b64_val c =
     (let n = (of_char c :: nat) in
      if 65 \<le> n \<and> n \<le> 90 then Some (n - 65)
      else if 97 \<le> n \<and> n \<le> 122 then Some (n - 97 + 26)
      else if 48 \<le> n \<and> n \<le> 57 then Some (n - 48 + 52)
      else if c = CHR ''+'' then Some 62
      else if c = CHR ''/'' then Some 63
      else None)"

lemma b64_val_char [simp]: "n < 64 \<Longrightarrow> b64_val (b64_char n) = Some n"
  by (auto simp: b64_char_def b64_val_def Let_def split: if_splits)

lemma b64_char_plain [simp]:
  assumes "n < 64"
  shows "b64_char n \<noteq> CHR ''=''" "b64_char n \<noteq> CHR 0x0A" "b64_char n \<noteq> CHR 0x0D" "b64_char n \<noteq> CHR '' ''"
proof -
  have *: "b64_char n \<noteq> c" if "b64_val c = None" for c
    using b64_val_char [OF assms] that by auto
  show "b64_char n \<noteq> CHR ''=''" "b64_char n \<noteq> CHR 0x0A" "b64_char n \<noteq> CHR 0x0D" "b64_char n \<noteq> CHR '' ''"
    by (rule *, simp add: b64_val_def)+
qed

section \<open>Encoding and decoding\<close>

abbreviation byte :: "char \<Rightarrow> nat" where "byte c \<equiv> of_char c"

fun b64_encode :: "string \<Rightarrow> string" where
  "b64_encode [] = []"
| "b64_encode [a] = [b64_char (byte a div 4), b64_char (byte a mod 4 * 16), CHR ''='', CHR ''='']"
| "b64_encode [a, b] =
     [b64_char (byte a div 4), b64_char (byte a mod 4 * 16 + byte b div 16), b64_char (byte b mod 16 * 4), CHR ''='']"
| "b64_encode (a # b # c # s) =
     b64_char (byte a div 4) # b64_char (byte a mod 4 * 16 + byte b div 16) #
     b64_char (byte b mod 16 * 4 + byte c div 64) # b64_char (byte c mod 64) # b64_encode s"

definition join1 :: "nat \<Rightarrow> nat \<Rightarrow> char" where "join1 p q = char_of (p * 4 + q div 16)"
definition join2 :: "nat \<Rightarrow> nat \<Rightarrow> char" where "join2 q r = char_of (q mod 16 * 16 + r div 4)"
definition join3 :: "nat \<Rightarrow> nat \<Rightarrow> char" where "join3 r s = char_of (r mod 4 * 64 + s)"

fun b64_quads :: "string \<Rightarrow> string option" where
  "b64_quads [] = Some []"
| "b64_quads (p # q # r # s # t) =
     (case (b64_val p, b64_val q) of
        (Some p', Some q') \<Rightarrow>
          if r = CHR ''='' \<and> s = CHR ''='' \<and> t = [] then Some [join1 p' q']
          else
            (case b64_val r of
               None \<Rightarrow> None
             | Some r' \<Rightarrow>
                 if s = CHR ''='' \<and> t = [] then Some [join1 p' q', join2 q' r']
                 else
                   (case (b64_val s, b64_quads t) of
                      (Some s', Some u) \<Rightarrow> Some (join1 p' q' # join2 q' r' # join3 r' s' # u)
                    | _ \<Rightarrow> None))
      | _ \<Rightarrow> None)"
| "b64_quads _ = None"

definition b64_decode :: "string \<Rightarrow> string option" where
  "b64_decode s = b64_quads (filter (\<lambda>c. c \<notin> {CHR 0x0A, CHR 0x0D}) s)"

section \<open>Decoding inverts encoding\<close>

lemma byte_bound [simp]: "byte c < 256"
  by simp

lemma byte_div [simp]: "byte c div 4 < 64" "byte c div 16 < 16" "byte c div 64 < 4" "byte c mod 4 * 16 < 64" "byte c mod 16 * 4 < 64"
  using byte_bound [of c] by (simp_all add: less_mult_imp_div_less del: nat_of_char_less_256)

lemma byte_sums [simp]: "byte a mod 4 * 16 + byte b div 16 < 64" "byte b mod 16 * 4 + byte c div 64 < 64"
proof -
  have "byte a mod 4 < 4" "byte b mod 16 < 16" by simp_all
  with byte_div(2) [of b] byte_div(3) [of c]
  show "byte a mod 4 * 16 + byte b div 16 < 64" "byte b mod 16 * 4 + byte c div 64 < 64" by linarith+
qed

lemma byte_parts: "byte a div 4 * 4 + byte a mod 4 = byte a" "byte b div 16 * 16 + byte b mod 16 = byte b"
  by simp_all

lemma join1_parts: "y < 16 \<Longrightarrow> join1 (byte a div 4) (byte a mod 4 * 16 + y) = a"
  by (simp add: join1_def)

lemma join2_parts: "y < 4 \<Longrightarrow> join2 (x * 16 + byte b div 16) (byte b mod 16 * 4 + y) = b"
proof -
  assume y: "y < 4"
  have "(x * 16 + byte b div 16) mod 16 = byte b div 16" using byte_bound [of b] by (simp add: less_mult_imp_div_less)
  with y show ?thesis by (simp add: join2_def)
qed

lemma join3_parts: "join3 (x * 4 + byte c div 64) (byte c mod 64) = c"
proof -
  have "(x * 4 + byte c div 64) mod 4 = byte c div 64" using byte_bound [of c] by (simp add: less_mult_imp_div_less)
  then show ?thesis by (simp add: join3_def)
qed

lemma b64_encode_plain: "x \<in> set (b64_encode s) \<Longrightarrow> x \<noteq> CHR 0x0A \<and> x \<noteq> CHR 0x0D \<and> x \<noteq> CHR '' ''"
  by (induction s rule: b64_encode.induct) auto

lemma b64_quads_encode: "b64_quads (b64_encode s) = Some s"
proof (induction s rule: b64_encode.induct)
  case (2 a)
  show ?case using join1_parts [of 0 a] by simp
next
  case (3 a b)
  show ?case using join1_parts [of "byte b div 16" a] join2_parts [of 0 "byte a mod 4" b] byte_div(2) [of b] by auto
next
  case (4 a b c s)
  then show ?case
    using join1_parts [of "byte b div 16" a] join2_parts [of "byte c div 64" "byte a mod 4" b]
      join3_parts [of "byte b mod 16" c] byte_bound [of b]
    by auto
qed simp

lemma b64_decode_encode [simp]: "b64_decode (b64_encode s) = Some s"
proof -
  have "filter (\<lambda>c. c \<notin> {CHR 0x0A, CHR 0x0D}) (b64_encode s) = b64_encode s"
    by (auto simp: filter_id_conv dest: b64_encode_plain)
  then show ?thesis by (simp only: b64_decode_def b64_quads_encode)
qed

lemma b64_encode_no_space: "CHR '' '' \<notin> set (b64_encode s)"
  using b64_encode_plain by blast

end
