(* ===== verification/Hubnet.thy ===== *)
theory Hubnet
  imports JsonText
begin

text \<open>
  The network helpers (\<open>pkg/hubnet\<close>): the bearer token of a request, the active interfaces that serve an address, and the
  interface and address used to reach another machine.

  The answers of the operating system are arguments: its interfaces, and the local address of a UDP connection to the
  destination. An address of an interface holds, beside its bytes and mask, the text its String method returns.
\<close>

section \<open>The bearer token\<close>

text \<open>The argument is the value of the Authorization header, empty when the request has none.\<close>

definition GetBearerToken :: "string \<Rightarrow> string \<times> error option" where
  "GetBearerToken authHeader =
     (if authHeader = [] then ([], Some ''JWTAuthenticator: no Authorization header'')
      else
        case split_on (CHR '' '') authHeader of
          [authType, authTokenString] \<Rightarrow>
            if to_lower authType \<noteq> ''bearer'' then ([], Some ''JWTAuthenticator: not a bearer token'')
            else (authTokenString, None)
        | _ \<Rightarrow> ([], Some ''JWTAuthenticator: invalid Authorization header''))"

lemma to_lower_bearer [simp]: "to_lower ''bearer'' = ''bearer''"
  by (simp add: to_lower.simps lower_special_def lower_ascii_def Let_def)

lemma bearer_token_parts:
  "GetBearerToken h = (t, None) \<longleftrightarrow>
     (\<exists>scheme. h = scheme @ CHR '' '' # t \<and> CHR '' '' \<notin> set scheme \<and> CHR '' '' \<notin> set t \<and> to_lower scheme = ''bearer'')"
  (is "?l \<longleftrightarrow> ?r")
proof
  assume l: ?l
  then obtain a where a: "split_on (CHR '' '') h = [a, t]" "to_lower a = ''bearer''"
    by (auto simp: GetBearerToken_def split: if_splits list.splits)
  have "h = join_with (CHR '' '') [a, t]" by (simp flip: a(1))
  moreover have "CHR '' '' \<notin> set a" "CHR '' '' \<notin> set t"
    using split_on_parts_no_sep [of _ "CHR '' ''" h] a(1) by auto
  ultimately show ?r using a(2) by auto
next
  assume ?r
  then show ?l by (auto simp: GetBearerToken_def split_on_sep split_on_no_sep)
qed

lemma bearer_token_or_error: "snd (GetBearerToken h) \<noteq> None \<Longrightarrow> fst (GetBearerToken h) = []"
  by (auto simp: GetBearerToken_def split: if_splits list.splits)

text \<open>
  \<open>GetBearerToken\<close> returns a token exactly for a header made of the word bearer, in any case, one space and the
  token, which has no space; for every other header it returns an error and the empty text.
\<close>

theorem bearer_token:
  "(GetBearerToken h = (t, None) \<longleftrightarrow>
     (\<exists>scheme. h = scheme @ CHR '' '' # t \<and> CHR '' '' \<notin> set scheme \<and> CHR '' '' \<notin> set t \<and> to_lower scheme = ''bearer'')) \<and>
   (snd (GetBearerToken h) = None \<or> fst (GetBearerToken h) = [])"
  using bearer_token_parts [of h t] bearer_token_or_error [of h] by blast

unbundle bit_operations_syntax

section \<open>Interfaces\<close>

text \<open>An IP address is a list of bytes, 4 or 16 of them; the nil address has none.\<close>

type_synonym ip = "nat list"

datatype net_addr = IPAddr string | IPNet (net_ip: ip) (net_mask: ip) string

record net_interface =
  if_Name :: string
  if_HardwareAddr :: string
  if_Addrs :: "error + net_addr list"

fun addr_text :: "net_addr \<Rightarrow> string" where
  "addr_text (IPAddr s) = s"
| "addr_text (IPNet n m s) = s"

text \<open>An address of 16 bytes that stands for one of 4 bytes is reduced to it (\<open>net.IP.To4\<close>).\<close>

definition To4 :: "ip \<Rightarrow> ip option" where
  "To4 ip =
     (if length ip = 4 then Some ip
      else if length ip = 16 \<and> take 12 ip = replicate 10 0 @ [255, 255] then Some (drop 12 ip)
      else None)"

definition shortest :: "ip \<Rightarrow> ip" where
  "shortest ip = (case To4 ip of None \<Rightarrow> ip | Some x \<Rightarrow> x)"

text \<open>
  The network number and mask of a network (\<open>networkNumberAndMask\<close> of the standard library), nothing for a network of
  another shape.
\<close>

definition network_number :: "ip \<Rightarrow> ip \<Rightarrow> ip \<times> ip" where
  "network_number ip m =
     (case (if To4 ip \<noteq> None then To4 ip else if length ip = 16 then Some ip else None) of
        None \<Rightarrow> ([], [])
      | Some nn \<Rightarrow>
          if length m = 4 then (if length nn = 4 then (nn, m) else ([], []))
          else if length m = 16 then (nn, if length nn = 4 then drop 12 m else m)
          else ([], []))"

definition net_contains :: "ip \<Rightarrow> ip \<Rightarrow> ip \<Rightarrow> bool" where
  "net_contains ip m x =
     (case network_number ip m of (nn, mk) \<Rightarrow>
        let x = shortest x in
        length x = length nn \<and>
        list_all (\<lambda>((n, k), b). n AND k = b AND k) (zip (zip nn mk) x))"

definition is_loopback :: "ip \<Rightarrow> bool" where
  "is_loopback ip =
     (case To4 ip of Some (a # _) \<Rightarrow> a = 127 | _ \<Rightarrow> ip = replicate 15 0 @ [1])"

text \<open>The argument \<open>ip\<close> is the parsed address, nil when the text is no address.\<close>

fun address_selects :: "ip \<Rightarrow> net_addr \<Rightarrow> bool" where
  "address_selects ip (IPAddr s) = True"
| "address_selects ip (IPNet n m s) = (net_contains n m ip \<and> \<not> is_loopback n)"

definition GetInterfaces :: "error + net_interface list \<Rightarrow> ip \<Rightarrow> net_interface list \<times> error option" where
  "GetInterfaces ifaces ip =
     (case ifaces of
        Inl err \<Rightarrow> ([], Some err)
      | Inr ifs \<Rightarrow>
          (concat (List.map (\<lambda>iface.
             case if_Addrs iface of
               Inl _ \<Rightarrow> []
             | Inr addrs \<Rightarrow> List.map (\<lambda>_. iface) (filter (address_selects ip) addrs)) ifs), None))"

text \<open>\<open>dial\<close> is the local address of a UDP connection to the destination.\<close>

type_synonym dial = "string \<Rightarrow> error + ip"

text \<open>
  The text of an address (\<open>net.IP.String\<close>): the bytes of an IPv4 address in decimal; the eight groups of an IPv6 address in
  hexadecimal, the first of the longest runs of at least two zero groups left out.
\<close>

fun hex_nat :: "nat \<Rightarrow> string" where
  "hex_nat n = (if n < 16 then [hex_digit n] else hex_nat (n div 16) @ [hex_digit (n mod 16)])"

declare hex_nat.simps [simp del]

fun ip_groups :: "ip \<Rightarrow> nat list" where
  "ip_groups (a # b # bs) = (256 * a + b) # ip_groups bs"
| "ip_groups bs = []"

definition zero_run :: "nat list \<Rightarrow> nat" where
  "zero_run gs = length (takeWhile (\<lambda>g. g = 0) gs)"

text \<open>The start and the length of the run: a later run replaces an earlier one only if it is longer.\<close>

fun longest_zeros :: "nat \<Rightarrow> nat list \<Rightarrow> nat \<times> nat" where
  "longest_zeros i [] = (i, 0)"
| "longest_zeros i (g # gs) =
     (case longest_zeros (i + 1) gs of
        (e, m) \<Rightarrow> if m \<le> zero_run (g # gs) then (i, zero_run (g # gs)) else (e, m))"

definition ip6_string :: "ip \<Rightarrow> string" where
  "ip6_string ip =
     (let gs = ip_groups ip;
          text = (\<lambda>gs. join_with (CHR '':'') (List.map hex_nat gs))
      in case longest_zeros 0 gs of
           (e, m) \<Rightarrow> if m < 2 then text gs else text (take e gs) @ ''::'' @ text (drop (e + m) gs))"

definition ip_string :: "ip \<Rightarrow> string" where
  "ip_string ip =
     (if ip = [] then ''<nil>''
      else
        case To4 ip of
          Some bs \<Rightarrow> join_with (CHR ''.'') (List.map show_nat bs)
        | None \<Rightarrow>
            if length ip = 16 then ip6_string ip
            else CHR ''?'' # concat (List.map (\<lambda>b. [hex_digit (b div 16), hex_digit (b mod 16)]) ip))"

text \<open>
  The loop goes on with the next interface after a match: only the loop over the addresses is left.
\<close>

definition interface_matches :: "string \<Rightarrow> net_interface \<Rightarrow> bool" where
  "interface_matches ipText interf =
     (case if_Addrs interf of
        Inl _ \<Rightarrow> False
      | Inr addrs \<Rightarrow> list_ex (\<lambda>addr. contains_str (addr_text addr) ipText) addrs)"

fun find_interface :: "string \<Rightarrow> net_interface list \<Rightarrow> string \<times> string \<Rightarrow> string \<times> string" where
  "find_interface ipText [] found = found"
| "find_interface ipText (interf # rest) found =
     find_interface ipText rest
       (if interface_matches ipText interf then (if_Name interf, if_HardwareAddr interf) else found)"

definition GetOutboundInterface ::
    "dial \<Rightarrow> error + net_interface list \<Rightarrow> string \<Rightarrow> string \<times> string \<times> ip" where
  "GetOutboundInterface dial ifaces address =
     (let address = (if address = [] then ''1.1.1.1'' else address) in
      case dial (address @ '':9999'') of
        Inl err \<Rightarrow> ([], [], [])
      | Inr ip \<Rightarrow>
          (case find_interface (ip_string ip) (case ifaces of Inl _ \<Rightarrow> [] | Inr ifs \<Rightarrow> ifs) ([], []) of
             (name, mac) \<Rightarrow> (name, mac, ip)))"

definition GetOutboundIP :: "dial \<Rightarrow> string \<Rightarrow> ip" where
  "GetOutboundIP dial destination =
     (let destination = (if destination = [] then ''1.1.1.1'' else destination) in
      case dial (destination @ '':80'') of Inl err \<Rightarrow> [] | Inr ip \<Rightarrow> ip)"

section \<open>Properties of the interface search\<close>

lemma find_interface_last:
  "find_interface ipText ifs found =
     (case filter (interface_matches ipText) ifs of
        [] \<Rightarrow> found
      | fs \<Rightarrow> (if_Name (last fs), if_HardwareAddr (last fs)))"
  by (induction ifs arbitrary: found) (auto split: list.splits)

lemma interface_matches_exact:
  "if_Addrs i = Inr addrs \<Longrightarrow> IPAddr ipText \<in> set addrs \<Longrightarrow> interface_matches ipText i"
  by (auto simp: interface_matches_def list_ex_iff contains_str_iff intro!: bexI [of _ "IPAddr ipText"] exI [of _ "[]"])

text \<open>
  \<open>GetOutboundInterface\<close> returns the last interface, not the first, one of whose addresses contains the text of the
  local address; the match is one of substrings, so that 10.0.0.10/24 matches the local address 10.0.0.1.
\<close>

theorem outbound_interface_last:
  assumes "dial ''1.1.1.1:9999'' = Inr ip"
    and "filter (interface_matches (ip_string ip)) ifs = fs @ [i]"
  shows "GetOutboundInterface dial (Inr ifs) [] = (if_Name i, if_HardwareAddr i, ip)"
proof -
  have "find_interface (ip_string ip) ifs ([], []) = (if_Name i, if_HardwareAddr i)"
    by (cases fs) (simp_all add: find_interface_last assms(2))
  with assms(1) show ?thesis by (simp add: GetOutboundInterface_def)
qed

definition eth :: "string \<Rightarrow> string \<Rightarrow> net_interface" where
  "eth name text = \<lparr>if_Name = name, if_HardwareAddr = ''02:00'', if_Addrs = Inr [IPNet [10,0,0,1] [255,255,255,0] text]\<rparr>"

lemma ip_string_10: "ip_string [10, 0, 0, 1] = ''10.0.0.1''"
  by code_simp

theorem outbound_interface_last_witness:
  "GetOutboundInterface (\<lambda>_. Inr [10,0,0,1]) (Inr [eth ''eth0'' ''10.0.0.1/24'', eth ''eth1'' ''10.0.0.10/24'']) []
     = (''eth1'', ''02:00'', [10,0,0,1])"
proof -
  have "filter (interface_matches (ip_string [10,0,0,1])) [eth ''eth0'' ''10.0.0.1/24'', eth ''eth1'' ''10.0.0.10/24'']
      = [eth ''eth0'' ''10.0.0.1/24''] @ [eth ''eth1'' ''10.0.0.10/24'']"
    unfolding ip_string_10 by (simp add: interface_matches_def eth_def has_prefix_def)
  from outbound_interface_last [of "\<lambda>_. Inr [10,0,0,1]", OF _ this]
  show ?thesis by (simp add: eth_def)
qed

section \<open>The text of an IPv6 address\<close>

lemma ip_string_loopback: "ip_string (replicate 15 0 @ [1]) = ''::1''"
  by code_simp

lemma ip_string_first_run:
  "ip_string [0x20, 1, 0xd, 0xb8, 0, 0, 0, 0, 0, 1, 0, 0, 0, 0, 0, 1] = ''2001:db8::1:0:0:1''"
  by (simp add: ip_string_def To4_def ip6_string_def zero_run_def hex_nat.simps hex_digit_def) code_simp

end
