(* ===== verification/TLSServer.thy ===== *)
theory TLSServer
  imports TLSClient Base64 Hubnet
begin

text \<open>
  The HTTPS server (\<open>pkg/tlsserver\<close>): its authenticators by client certificate, JSON Web Token and basic authentication and
  the chain of them, the handlers, starting and stopping, the readers of query parameters, and the error responses.

  Arguments of the model are the JWT library (what parsing a token with a key yields), the validator of passwords, the router
  (which route a request matches) and the error of listening. A request holds what the code reads of it: the method, the client
  certificates of its TLS connection (nothing for a request without TLS), the value of the Authorization header, the parsed query
  and the remote address. What a handler of the application does is not part of the model: serving a request tells which
  handler is called for which user.
\<close>

section \<open>Requests\<close>

record peer_cert =
  pc_CommonName :: string
  pc_OrganizationalUnit :: "string list"

record srv_request =
  sq_Method :: string
  sq_TLS :: "peer_cert list option"
  sq_Authorization :: string
  sq_Query :: "string \<rightharpoonup> string list"
  sq_RemoteAddr :: string

text \<open>\<open>http.Request.BasicAuth\<close>: the scheme is compared without regard to case, the first colon ends the user name.\<close>

fun cut_colon :: "string \<Rightarrow> (string \<times> string) option" where
  "cut_colon [] = None"
| "cut_colon (c # s) = (if c = CHR '':'' then Some ([], s) else map_option (\<lambda>(u, p). (c # u, p)) (cut_colon s))"

definition basic_auth :: "string \<Rightarrow> (string \<times> string) option" where
  "basic_auth auth =
     (if List.map lower_ascii (take 6 auth) \<noteq> ''basic '' then None
      else case b64_decode (drop 6 auth) of None \<Rightarrow> None | Some cs \<Rightarrow> cut_colon cs)"

text \<open>\<open>http.Request.SetBasicAuth\<close>, and the header the client's authorization stands for.\<close>

definition basic_header :: "string \<Rightarrow> string \<Rightarrow> string" where
  "basic_header username password = ''Basic '' @ b64_encode (username @ '':'' @ password)"

fun authorization_header :: "authorization \<Rightarrow> string" where
  "authorization_header NoAuthorization = []"
| "authorization_header (BasicAuthorization user password) = basic_header user password"
| "authorization_header (HeaderAuthorization text) = text"

section \<open>The authenticators\<close>

text \<open>Each returns the user and whether the request is authenticated.\<close>

type_synonym auth_result = "(string \<times> bool) outcome"

definition OUNone :: string where
  "OUNone = []"

definition CertAuthenticate :: "srv_request \<Rightarrow> auth_result" where
  "CertAuthenticate req =
     (case sq_TLS req of
        None \<Rightarrow> Panic NilDereference
      | Some [] \<Rightarrow> Ret ([], False)
      | Some (cert # _) \<Rightarrow>
          let userID = pc_CommonName cert;
              userID = (if pc_CommonName cert = ''plugin'' then [] else userID)
          in Ret (userID, True))"

definition GetClientOU :: "srv_request \<Rightarrow> string outcome" where
  "GetClientOU req =
     (case sq_TLS req of
        None \<Rightarrow> Panic NilDereference
      | Some [] \<Rightarrow> Ret OUNone
      | Some (cert # _) \<Rightarrow>
          (case pc_OrganizationalUnit cert of [] \<Rightarrow> Ret OUNone | ou # _ \<Rightarrow> Ret ou))"

record basic_authenticator =
  ba_verifyUsernamePassword :: "string \<Rightarrow> string \<Rightarrow> bool"

definition NewBasicAuthenticator :: "(string \<Rightarrow> string \<Rightarrow> bool) \<Rightarrow> basic_authenticator" where
  "NewBasicAuthenticator verifyUsernamePassword = \<lparr>ba_verifyUsernamePassword = verifyUsernamePassword\<rparr>"

definition BasicAuthenticate :: "basic_authenticator \<Rightarrow> srv_request \<Rightarrow> auth_result" where
  "BasicAuthenticate bauth req =
     (case basic_auth (sq_Authorization req) of
        None \<Rightarrow> Ret ([], False)
      | Some (username, password) \<Rightarrow>
          if \<not> ba_verifyUsernamePassword bauth username password then Ret (username, False)
          else Ret (username, True))"

text \<open>
  What the JWT library returns for a key and a token: a token or nil, the claims it filled, and an error. Of a token the code
  reads whether it is valid, the error of validating its claims, and the claims.
\<close>

record jwt_claims =
  cl_Username :: string

record jwt_token =
  tk_Valid :: bool
  tk_ClaimsValid :: "error option"
  tk_Claims :: jwt_claims

type_synonym 'p jwt_parse = "'p option \<Rightarrow> string \<Rightarrow> jwt_token option \<times> jwt_claims \<times> error option"

record 'p jwt_authenticator =
  ja_publicKey :: "'p option"

definition NewJWTAuthenticator :: "'p option \<Rightarrow> 'p jwt_authenticator" where
  "NewJWTAuthenticator publicKey = \<lparr>ja_publicKey = publicKey\<rparr>"

definition DecodeToken ::
    "'p jwt_parse \<Rightarrow> 'p jwt_authenticator \<Rightarrow> string \<Rightarrow> jwt_token option \<times> jwt_claims \<times> error option" where
  "DecodeToken parse jauth tokenString =
     (case parse (ja_publicKey jauth) tokenString of
        (Some jwtToken, claims, None) \<Rightarrow>
          if \<not> tk_Valid jwtToken then (Some jwtToken, claims, Some ''invalid JWT token. Err=%!s(<nil>)'')
          else
            (case tk_ClaimsValid jwtToken of
               Some err \<Rightarrow> (Some jwtToken, claims, Some (''invalid JWT claims: err='' @ err))
             | None \<Rightarrow> (Some jwtToken, tk_Claims jwtToken, None))
      | (jwtToken, claims, err) \<Rightarrow>
          (jwtToken, claims,
           Some (''invalid JWT token. Err='' @ (case err of None \<Rightarrow> ''%!s(<nil>)'' | Some e \<Rightarrow> e))))"

definition JWTAuthenticate :: "'p jwt_parse \<Rightarrow> 'p jwt_authenticator \<Rightarrow> srv_request \<Rightarrow> auth_result" where
  "JWTAuthenticate parse jauth req =
     (case GetBearerToken (sq_Authorization req) of
        (_, Some err) \<Rightarrow> Ret ([], False)
      | (accessTokenString, None) \<Rightarrow>
          (case DecodeToken parse jauth accessTokenString of
             (_, _, Some err) \<Rightarrow> Ret ([], False)
           | (_, claims, None) \<Rightarrow> Ret (cl_Username claims, True)))"

text \<open>The chain: the certificate, the token, the password. The user of a refused request is that of the last one asked.\<close>

record 'p http_authenticator =
  ha_BasicAuth :: "basic_authenticator option"
  ha_CertAuth :: "unit option"
  ha_JwtAuth :: "'p jwt_authenticator option"

definition NewHttpAuthenticator :: "'p http_authenticator" where
  "NewHttpAuthenticator = \<lparr>ha_BasicAuth = None, ha_CertAuth = Some (), ha_JwtAuth = None\<rparr>"

definition ha_EnableBasicAuth :: "(string \<Rightarrow> string \<Rightarrow> bool) \<Rightarrow> 'p http_authenticator \<Rightarrow> 'p http_authenticator" where
  "ha_EnableBasicAuth validateCredentials hauth = hauth\<lparr>ha_BasicAuth := Some (NewBasicAuthenticator validateCredentials)\<rparr>"

definition ha_EnableJwtAuth :: "'p option \<Rightarrow> 'p http_authenticator \<Rightarrow> 'p http_authenticator" where
  "ha_EnableJwtAuth verificationKey hauth = hauth\<lparr>ha_JwtAuth := Some (NewJWTAuthenticator verificationKey)\<rparr>"

text \<open>One link of the chain: the result so far is kept when it is a match or when there is no authenticator.\<close>

definition auth_link :: "('a \<Rightarrow> auth_result) \<Rightarrow> 'a option \<Rightarrow> string \<times> bool \<Rightarrow> auth_result" where
  "auth_link authenticate a result =
     (if snd result then Ret result
      else case a of None \<Rightarrow> Ret result | Some a \<Rightarrow> authenticate a)"

definition HttpAuthenticate :: "'p jwt_parse \<Rightarrow> 'p http_authenticator \<Rightarrow> srv_request \<Rightarrow> auth_result" where
  "HttpAuthenticate parse hauth req =
     bind_outcome (auth_link (\<lambda>_. CertAuthenticate req) (ha_CertAuth hauth) ([], False)) (\<lambda>r.
     bind_outcome (auth_link (\<lambda>j. JWTAuthenticate parse j req) (ha_JwtAuth hauth) r) (\<lambda>r.
     auth_link (\<lambda>b. BasicAuthenticate b req) (ha_BasicAuth hauth) r))"

definition ha_GetClientOU :: "'p http_authenticator \<Rightarrow> srv_request \<Rightarrow> string outcome" where
  "ha_GetClientOU hauth req = GetClientOU req"

section \<open>The server\<close>

text \<open>\<open>'h\<close> is the type of the handlers of the application, \<open>'c\<close> that of CA certificates.\<close>

datatype 'h route = AuthRoute string 'h | OpenRoute string 'h

datatype 'h served =
    HandledFor string 'h
  | HandledOpen 'h
  | NoPayload
  | HttpError int string

text \<open>The private key of a server certificate is an ECDSA key, of which the public key is kept, or of another type.\<close>

record 'p server_cert =
  sc_ecdsaPublicKey :: "'p option"

record ('c, 'p) server_conf =
  sf_Certificate :: "'p server_cert"
  sf_ClientCAs :: "'c list"
  sf_VerifyClientCertIfGiven :: bool
  sf_MinVersion :: nat

record ('c, 'p) http_server =
  hs_Addr :: string
  hs_TLSConfig :: "('c, 'p) server_conf"
  hs_AllowedHeaders :: "string list"
  hs_AllowedMethods :: "string list"
  hs_AllowCredentials :: bool
  hs_shutdown :: bool

record ('c, 'p, 'h) tls_server =
  ts_address :: string
  ts_port :: nat
  ts_caCert :: "'c option"
  ts_serverCert :: "'p server_cert option"
  ts_httpServer :: "('c, 'p) http_server option"
  ts_router :: "'h route list"
  ts_httpAuthenticator :: "'p http_authenticator"

definition NewTLSServer ::
    "string \<Rightarrow> nat \<Rightarrow> 'p server_cert option \<Rightarrow> 'c option \<Rightarrow> ('c, 'p, 'h) tls_server" where
  "NewTLSServer address port serverCert caCert =
     \<lparr>ts_address = address, ts_port = port, ts_caCert = caCert, ts_serverCert = serverCert, ts_httpServer = None,
      ts_router = [], ts_httpAuthenticator = NewHttpAuthenticator\<rparr>"

definition AddHandler :: "string \<Rightarrow> 'h \<Rightarrow> ('c, 'p, 'h) tls_server \<Rightarrow> ('c, 'p, 'h) tls_server" where
  "AddHandler path handler srv = srv\<lparr>ts_router := ts_router srv @ [AuthRoute path handler]\<rparr>"

definition AddHandlerNoAuth :: "string \<Rightarrow> 'h \<Rightarrow> ('c, 'p, 'h) tls_server \<Rightarrow> ('c, 'p, 'h) tls_server" where
  "AddHandlerNoAuth path handler srv = srv\<lparr>ts_router := ts_router srv @ [OpenRoute path handler]\<rparr>"

definition Authenticator :: "('c, 'p, 'h) tls_server \<Rightarrow> 'p http_authenticator" where
  "Authenticator srv = ts_httpAuthenticator srv"

definition EnableBasicAuth :: "(string \<Rightarrow> string \<Rightarrow> bool) \<Rightarrow> ('c, 'p, 'h) tls_server \<Rightarrow> ('c, 'p, 'h) tls_server" where
  "EnableBasicAuth validateCredentials srv =
     srv\<lparr>ts_httpAuthenticator := ha_EnableBasicAuth validateCredentials (ts_httpAuthenticator srv)\<rparr>"

definition EnableJwtAuth :: "'p option \<Rightarrow> ('c, 'p, 'h) tls_server \<Rightarrow> ('c, 'p, 'h) tls_server outcome" where
  "EnableJwtAuth verificationKey srv =
     map_outcome (\<lambda>key. srv\<lparr>ts_httpAuthenticator := ha_EnableJwtAuth (Some key) (ts_httpAuthenticator srv)\<rparr>)
       (case verificationKey of
          Some key \<Rightarrow> Ret key
        | None \<Rightarrow>
            (case ts_serverCert srv of
               None \<Rightarrow> Panic NilDereference
             | Some cert \<Rightarrow>
                 (case sc_ecdsaPublicKey cert of None \<Rightarrow> Panic FailedTypeAssertion | Some key \<Rightarrow> Ret key)))"

subsection \<open>Responses\<close>

text \<open>\<open>http.Error\<close> ends the message with a line feed.\<close>

definition http_error :: "int \<Rightarrow> string \<Rightarrow> 'h served" where
  "http_error code msg = HttpError code (msg @ [CHR 0x0A])"

definition WriteBadRequest :: "string \<Rightarrow> 'h served" where "WriteBadRequest errMsg = http_error 400 errMsg"
definition WriteInternalError :: "string \<Rightarrow> 'h served" where "WriteInternalError errMsg = http_error 500 errMsg"
definition WriteNotFound :: "string \<Rightarrow> 'h served" where "WriteNotFound errMsg = http_error 404 errMsg"
definition WriteNotImplemented :: "string \<Rightarrow> 'h served" where "WriteNotImplemented errMsg = http_error 501 errMsg"
definition WriteUnauthorized :: "string \<Rightarrow> 'h served" where "WriteUnauthorized errMsg = http_error 401 errMsg"
definition WriteForbidden :: "string \<Rightarrow> 'h served" where "WriteForbidden errMsg = http_error 403 errMsg"

subsection \<open>Serving\<close>

definition refusal :: "string \<Rightarrow> string \<Rightarrow> srv_request \<Rightarrow> string" where
  "refusal path userID req =
     ''TLSServer.HandleFunc '' @ path @ '': User '' @ apostrophe @ userID @ apostrophe @ '' from '' @ sq_RemoteAddr req @
     '' is unauthorized''"

text \<open>The function registered with the router for a route.\<close>

definition serve_route ::
    "'p jwt_parse \<Rightarrow> ('c, 'p, 'h) tls_server \<Rightarrow> 'h route \<Rightarrow> srv_request \<Rightarrow> 'h served outcome" where
  "serve_route parse srv route req =
     (case route of
        OpenRoute path handler \<Rightarrow> Ret (HandledOpen handler)
      | AuthRoute path handler \<Rightarrow>
          if sq_Method req = ''OPTIONS'' then Ret NoPayload
          else
            map_outcome (\<lambda>(userID, match).
                if \<not> match then WriteForbidden (refusal path userID req) else HandledFor userID handler)
              (HttpAuthenticate parse (ts_httpAuthenticator srv) req))"

subsection \<open>Starting and stopping\<close>

definition AllowOriginFunc :: "string \<Rightarrow> string \<Rightarrow> bool" where
  "AllowOriginFunc address orig =
     (if has_prefix orig ''https://127.0.0.1'' \<or> has_prefix orig ''https://localhost'' \<or>
         has_prefix orig ''http://127.0.0.1'' \<or> has_prefix orig ''http://localhost'' then True
      else if has_prefix orig (''https://'' @ address) then True
      else False)"

definition VersionTLS12 :: nat where
  "VersionTLS12 = 0x0303"

text \<open>
  \<open>listen\<close> is the error with which listening ended within the second the code waits, unless the server was closed.
\<close>

definition Start :: "error option \<Rightarrow> ('c, 'p, 'h) tls_server \<Rightarrow> error option \<times> ('c, 'p, 'h) tls_server" where
  "Start listen srv =
     (case (ts_caCert srv, ts_serverCert srv) of
        (Some ca, Some cert) \<Rightarrow>
          (map_option (\<lambda>e. ''ListenAndServeTLS: '' @ e) listen,
           srv\<lparr>ts_httpServer := Some
             \<lparr>hs_Addr = ts_address srv @ '':'' @ show_nat (ts_port srv),
              hs_TLSConfig = \<lparr>sf_Certificate = cert, sf_ClientCAs = [ca], sf_VerifyClientCertIfGiven = True,
                              sf_MinVersion = VersionTLS12\<rparr>,
              hs_AllowedHeaders = [''Origin'', ''Accept'', ''Content-Type'', ''Authorization'', ''Headers''],
              hs_AllowedMethods = [''GET'', ''POST'', ''PUT'', ''PATCH'', ''DELETE'', ''OPTIONS''],
              hs_AllowCredentials = True, hs_shutdown = False\<rparr>\<rparr>)
      | _ \<Rightarrow> (Some ''missing CA or server certificate'', srv))"

definition Stop :: "('c, 'p, 'h) tls_server \<Rightarrow> ('c, 'p, 'h) tls_server" where
  "Stop srv = srv\<lparr>ts_httpServer := map_option (\<lambda>h. h\<lparr>hs_shutdown := True\<rparr>) (ts_httpServer srv)\<rparr>"

section \<open>Query parameters\<close>

definition ParamOffset :: string where "ParamOffset = ''offset''"
definition ParamLimit :: string where "ParamLimit = ''limit''"

datatype query_error = NumberError num_error | InvalidParameter string

definition GetQueryInt :: "srv_request \<Rightarrow> string \<Rightarrow> int \<Rightarrow> int \<times> query_error option" where
  "GetQueryInt request paramName defaultValue =
     (case sq_Query request paramName of
        None \<Rightarrow> (defaultValue, None)
      | Some paramAsString \<Rightarrow>
          if length paramAsString = 1 then
            (case parse_int 32 (hd paramAsString) of (v, err) \<Rightarrow> (v, map_option NumberError err))
          else (defaultValue, Some (InvalidParameter paramName)))"

definition GetQueryLimitOffset :: "srv_request \<Rightarrow> int \<Rightarrow> int \<times> int \<times> query_error option" where
  "GetQueryLimitOffset request defaultLimit =
     (case GetQueryInt request ParamLimit defaultLimit of
        (limit, err) \<Rightarrow>
          let limit = (if defaultLimit \<noteq> 0 \<and> limit > defaultLimit then defaultLimit else limit) in
          case err of
            None \<Rightarrow> (case GetQueryInt request ParamOffset 0 of (offset, err) \<Rightarrow> (limit, offset, err))
          | Some e \<Rightarrow> (limit, 0, Some e))"

definition GetQueryString :: "srv_request \<Rightarrow> string \<Rightarrow> string \<Rightarrow> string" where
  "GetQueryString request paramName defaultValue =
     (case sq_Query request paramName of
        None \<Rightarrow> defaultValue
      | Some paramAsString \<Rightarrow> if 1 \<le> length paramAsString then hd paramAsString else defaultValue)"

section \<open>The contract of an authenticator\<close>

text \<open>
  On a request that came over TLS an authenticator answers, and it lets in exactly the users it accepts. The chain of the
  server has the same contract as its links.
\<close>

locale authenticator =
  fixes authenticate :: "srv_request \<Rightarrow> auth_result"
    and accepts :: "srv_request \<Rightarrow> string \<Rightarrow> bool"
  assumes answers: "sq_TLS r \<noteq> None \<Longrightarrow> \<exists>user ok. authenticate r = Ret (user, ok)"
    and accepted: "sq_TLS r \<noteq> None \<Longrightarrow> authenticate r = Ret (user, True) \<longleftrightarrow> accepts r user"
begin

lemma accepts_one: "sq_TLS r \<noteq> None \<Longrightarrow> accepts r u \<Longrightarrow> accepts r v \<Longrightarrow> u = v"
  using accepted [of r u] accepted [of r v] by simp

lemma refused: "sq_TLS r \<noteq> None \<Longrightarrow> (\<exists>user. authenticate r = Ret (user, False)) \<longleftrightarrow> (\<forall>u. \<not> accepts r u)"
  using answers [of r] accepted [of r] by (metis (full_types) outcome.inject(1) prod.inject)

lemma refused_user: "sq_TLS r \<noteq> None \<Longrightarrow> \<forall>u. \<not> accepts r u \<Longrightarrow> \<exists>user. authenticate r = Ret (user, False)"
  by (simp add: refused)

end

definition cert_accepts :: "srv_request \<Rightarrow> string \<Rightarrow> bool" where
  "cert_accepts r u \<longleftrightarrow>
     (case sq_TLS r of
        Some (c # _) \<Rightarrow> u = (if pc_CommonName c = ''plugin'' then [] else pc_CommonName c)
      | _ \<Rightarrow> False)"

definition token_claims :: "'p jwt_parse \<Rightarrow> 'p option \<Rightarrow> string \<Rightarrow> jwt_claims option" where
  "token_claims parse key tok =
     (case parse key tok of
        (Some t, _, None) \<Rightarrow> if tk_Valid t \<and> tk_ClaimsValid t = None then Some (tk_Claims t) else None
      | _ \<Rightarrow> None)"

definition jwt_accepts :: "'p jwt_parse \<Rightarrow> 'p jwt_authenticator \<Rightarrow> srv_request \<Rightarrow> string \<Rightarrow> bool" where
  "jwt_accepts parse j r u \<longleftrightarrow>
     (case GetBearerToken (sq_Authorization r) of
        (tok, None) \<Rightarrow> (case token_claims parse (ja_publicKey j) tok of Some c \<Rightarrow> u = cl_Username c | None \<Rightarrow> False)
      | _ \<Rightarrow> False)"

definition basic_accepts :: "basic_authenticator \<Rightarrow> srv_request \<Rightarrow> string \<Rightarrow> bool" where
  "basic_accepts b r u \<longleftrightarrow>
     (case basic_auth (sq_Authorization r) of
        Some (name, pw) \<Rightarrow> u = name \<and> ba_verifyUsernamePassword b name pw
      | None \<Rightarrow> False)"

text \<open>What the chain accepts: the user of the first authenticator, in this order, that accepts one.\<close>

definition link_accepts :: "('a \<Rightarrow> srv_request \<Rightarrow> string \<Rightarrow> bool) \<Rightarrow> 'a option \<Rightarrow> srv_request \<Rightarrow> string \<Rightarrow> bool" where
  "link_accepts A a r u \<longleftrightarrow> (case a of None \<Rightarrow> False | Some a \<Rightarrow> A a r u)"

definition http_accepts :: "'p jwt_parse \<Rightarrow> 'p http_authenticator \<Rightarrow> srv_request \<Rightarrow> string \<Rightarrow> bool" where
  "http_accepts parse h r u \<longleftrightarrow>
     (let cert = link_accepts (\<lambda>_. cert_accepts) (ha_CertAuth h) r;
          jwt = link_accepts (jwt_accepts parse) (ha_JwtAuth h) r;
          basic = link_accepts basic_accepts (ha_BasicAuth h) r in
      cert u \<or> (\<forall>v. \<not> cert v) \<and> jwt u \<or> (\<forall>v. \<not> cert v) \<and> (\<forall>v. \<not> jwt v) \<and> basic u)"

interpretation cert_auth: authenticator CertAuthenticate cert_accepts
  by unfold_locales (auto simp: CertAuthenticate_def cert_accepts_def Let_def split: list.splits)

lemma DecodeToken_claims:
  "(\<exists>t. DecodeToken parse j tok = (t, c, None)) \<longleftrightarrow> token_claims parse (ja_publicKey j) tok = Some c"
  by (auto simp: DecodeToken_def token_claims_def split: prod.splits option.splits)

lemma JWTAuthenticate_accepts: "JWTAuthenticate parse j r = Ret (user, True) \<longleftrightarrow> jwt_accepts parse j r user"
proof (cases "GetBearerToken (sq_Authorization r)")
  case (Pair tok err)
  obtain t c e where d: "DecodeToken parse j tok = (t, c, e)" by (cases "DecodeToken parse j tok")
  have tc: "token_claims parse (ja_publicKey j) tok = (if e = None then Some c else None)"
  proof (cases e)
    case None
    with d DecodeToken_claims [of parse j tok c] show ?thesis by simp
  next
    case (Some x)
    with d have "token_claims parse (ja_publicKey j) tok \<noteq> Some c'" for c'
      by (simp flip: DecodeToken_claims [of parse j tok])
    then have "token_claims parse (ja_publicKey j) tok = None" by (meson not_Some_eq)
    with Some show ?thesis by simp
  qed
  show ?thesis
    by (cases err; cases e) (auto simp: JWTAuthenticate_def jwt_accepts_def Pair d tc)
qed

lemma JWTAuthenticate_answers: "\<exists>user ok. JWTAuthenticate parse j r = Ret (user, ok)"
  by (auto simp: JWTAuthenticate_def split: prod.splits option.splits)

interpretation jwt_auth: authenticator "JWTAuthenticate parse j" "jwt_accepts parse j" for parse j
  by unfold_locales (simp_all add: JWTAuthenticate_answers JWTAuthenticate_accepts)

interpretation pw_auth: authenticator "BasicAuthenticate b" "basic_accepts b" for b
  by unfold_locales (auto simp: BasicAuthenticate_def basic_accepts_def split: option.splits)

text \<open>A link of the chain behind a refusal.\<close>

lemma auth_link_True [simp]: "auth_link f a (u, True) = Ret (u, True)"
  by (simp add: auth_link_def)

lemma auth_link_cases:
  assumes "\<And>a. authenticator (f a) (A a)" and "sq_TLS r \<noteq> None"
  shows "(\<exists>u. auth_link (\<lambda>a. f a r) a (v, False) = Ret (u, True) \<and> (\<forall>w. link_accepts A a r w \<longleftrightarrow> w = u)) \<or>
    (\<exists>u. auth_link (\<lambda>a. f a r) a (v, False) = Ret (u, False)) \<and> (\<forall>w. \<not> link_accepts A a r w)"
proof (cases a)
  case None
  then show ?thesis by (simp add: auth_link_def link_accepts_def)
next
  case (Some b)
  obtain u ok where uo: "f b r = Ret (u, ok)" using authenticator.answers [OF assms] by blast
  show ?thesis
  proof (cases ok)
    case True
    with uo authenticator.accepted [OF assms, of b, symmetric] have "A b r w \<longleftrightarrow> w = u" for w by auto
    with True uo Some show ?thesis by (simp add: auth_link_def link_accepts_def)
  next
    case False
    with uo authenticator.accepted [OF assms, of b, symmetric] have "\<not> A b r w" for w by auto
    with False uo Some show ?thesis by (simp add: auth_link_def link_accepts_def)
  qed
qed

lemma HttpAuthenticate_cases:
  assumes "sq_TLS r \<noteq> None"
  shows "(\<exists>u. HttpAuthenticate parse h r = Ret (u, True) \<and> (\<forall>w. http_accepts parse h r w \<longleftrightarrow> w = u)) \<or>
    (\<exists>u. HttpAuthenticate parse h r = Ret (u, False)) \<and> (\<forall>w. \<not> http_accepts parse h r w)"
proof -
  note c = auth_link_cases [of "\<lambda>_. CertAuthenticate" "\<lambda>_. cert_accepts", OF cert_auth.authenticator_axioms assms]
  note j = auth_link_cases [of "JWTAuthenticate parse" "jwt_accepts parse", OF jwt_auth.authenticator_axioms assms]
  note b = auth_link_cases [of BasicAuthenticate basic_accepts, OF pw_auth.authenticator_axioms assms]
  from c [of "ha_CertAuth h" "[]"] show ?thesis
  proof (elim disjE exE conjE)
    fix u assume "auth_link (\<lambda>a. CertAuthenticate r) (ha_CertAuth h) ([], False) = Ret (u, True)"
      "\<forall>w. link_accepts (\<lambda>_. cert_accepts) (ha_CertAuth h) r w \<longleftrightarrow> w = u"
    then show ?thesis by (simp add: HttpAuthenticate_def http_accepts_def)
  next
    fix u assume c0: "auth_link (\<lambda>a. CertAuthenticate r) (ha_CertAuth h) ([], False) = Ret (u, False)"
      "\<forall>w. \<not> link_accepts (\<lambda>_. cert_accepts) (ha_CertAuth h) r w"
    from j [of "ha_JwtAuth h" u] show ?thesis
    proof (elim disjE exE conjE)
      fix u' assume "auth_link (\<lambda>j. JWTAuthenticate parse j r) (ha_JwtAuth h) (u, False) = Ret (u', True)"
        "\<forall>w. link_accepts (jwt_accepts parse) (ha_JwtAuth h) r w \<longleftrightarrow> w = u'"
      with c0 show ?thesis by (simp add: HttpAuthenticate_def http_accepts_def)
    next
      fix u' assume j0: "auth_link (\<lambda>j. JWTAuthenticate parse j r) (ha_JwtAuth h) (u, False) = Ret (u', False)"
        "\<forall>w. \<not> link_accepts (jwt_accepts parse) (ha_JwtAuth h) r w"
      from b [of "ha_BasicAuth h" u'] c0 j0 show ?thesis
        by (simp add: HttpAuthenticate_def http_accepts_def)
    qed
  qed
qed

interpretation http_auth: authenticator "HttpAuthenticate parse h" "http_accepts parse h" for parse h
proof
  fix r :: srv_request and user
  assume r: "sq_TLS r \<noteq> None"
  from HttpAuthenticate_cases [OF this, of parse h] show "\<exists>user ok. HttpAuthenticate parse h r = Ret (user, ok)" by blast
  from HttpAuthenticate_cases [OF r, of parse h]
  show "HttpAuthenticate parse h r = Ret (user, True) \<longleftrightarrow> http_accepts parse h r user"
    by (elim disjE exE conjE) auto
qed

section \<open>Who is served\<close>

text \<open>
  C11: On a request over TLS that is not an OPTIONS request, a handler added with AddHandler is called exactly for the user
  the chain accepts, who is unique: the holder of a client certificate, else the user of a valid bearer token, else the user
  of a valid password. When the chain accepts nobody the answer is 403 and the handler is not called.
\<close>

theorem route_guarded:
  assumes "sq_TLS r \<noteq> None" and "sq_Method r \<noteq> ''OPTIONS''"
  shows "(serve_route parse srv (AuthRoute path h) r = Ret (HandledFor u h) \<longleftrightarrow> http_accepts parse (ts_httpAuthenticator srv) r u) \<and>
    (http_accepts parse (ts_httpAuthenticator srv) r u \<and> http_accepts parse (ts_httpAuthenticator srv) r v \<longrightarrow> u = v) \<and>
    ((\<forall>w. \<not> http_accepts parse (ts_httpAuthenticator srv) r w) \<longrightarrow>
       (\<exists>w. serve_route parse srv (AuthRoute path h) r = Ret (HttpError 403 (refusal path w r @ [CHR 0x0A]))))"
proof (intro conjI impI)
  let ?a = "HttpAuthenticate parse (ts_httpAuthenticator srv) r"
  obtain user ok where a: "?a = Ret (user, ok)" using http_auth.answers [OF assms(1)] by blast
  show "serve_route parse srv (AuthRoute path h) r = Ret (HandledFor u h) \<longleftrightarrow> http_accepts parse (ts_httpAuthenticator srv) r u"
    using a http_auth.accepted [OF assms(1), of parse "ts_httpAuthenticator srv" u] assms(2)
    by (auto simp: serve_route_def WriteForbidden_def http_error_def)
  assume "\<forall>w. \<not> http_accepts parse (ts_httpAuthenticator srv) r w"
  from http_auth.refused_user [OF assms(1) this]
  show "\<exists>w. serve_route parse srv (AuthRoute path h) r = Ret (HttpError 403 (refusal path w r @ [CHR 0x0A]))"
    using assms(2) by (auto simp: serve_route_def WriteForbidden_def http_error_def)
qed (use http_auth.accepts_one [OF assms(1)] in blast)

definition plain_request :: srv_request where
  "plain_request =
     \<lparr>sq_Method = ''GET'', sq_TLS = Some [], sq_Authorization = [], sq_Query = Map.empty, sq_RemoteAddr = ''10.0.0.7:4000''\<rparr>"

theorem route_guarded_witness:
  "serve_route (\<lambda>_ _. (None, \<lparr>cl_Username = []\<rparr>, None))
      (EnableBasicAuth (\<lambda>u p. u = ''bob'' \<and> p = ''secret'') (NewTLSServer [] 8443 (None :: unit server_cert option) (None :: unit option)))
      (AuthRoute ''/things'' (0 :: nat))
      (plain_request\<lparr>sq_Authorization := basic_header ''bob'' ''secret''\<rparr>) = Ret (HandledFor ''bob'' 0)"
proof -
  define srv :: "(unit, unit, nat) tls_server" where
    "srv = EnableBasicAuth (\<lambda>u p. u = ''bob'' \<and> p = ''secret'') (NewTLSServer [] 8443 None None)"
  define r where "r = plain_request\<lparr>sq_Authorization := basic_header ''bob'' ''secret''\<rparr>"
  have b: "basic_auth (sq_Authorization r) = Some (''bob'', ''secret'')" by (simp add: r_def) code_simp
  have "http_accepts (\<lambda>_ _. (None, \<lparr>cl_Username = []\<rparr>, None)) (ts_httpAuthenticator srv) r ''bob''"
    by (simp add: http_accepts_def link_accepts_def srv_def EnableBasicAuth_def ha_EnableBasicAuth_def NewTLSServer_def
        NewHttpAuthenticator_def basic_accepts_def b NewBasicAuthenticator_def cert_accepts_def)
      (simp add: r_def plain_request_def)
  with route_guarded [of r "\<lambda>_ _. (None, \<lparr>cl_Username = []\<rparr>, None)" srv "''/things''" "0 :: nat" "''bob''"] show ?thesis
    by (simp add: srv_def r_def plain_request_def)
qed

section \<open>The client's requests\<close>

lemma lower_basic: "List.map lower_ascii ''Basic '' = ''basic ''" "to_lower ''Basic'' = ''basic''"
  by code_simp+

lemma basic_auth_header [simp]:
  "CHR '':'' \<notin> set user \<Longrightarrow> basic_auth (basic_header user password) = Some (user, password)"
proof -
  assume u: "CHR '':'' \<notin> set user"
  then have "cut_colon (user @ CHR '':'' # password) = Some (user, password)" by (induction user) auto
  with lower_basic(1) show ?thesis by (simp add: basic_auth_def basic_header_def)
qed

lemma basic_header_no_token: "\<exists>e. GetBearerToken (basic_header user password) = ([], Some e)"
proof -
  have "split_on (CHR '' '') (basic_header user password) =
      [''Basic'', b64_encode (user @ '':'' @ password)]"
    using split_on_sep [of "CHR '' ''" "''Basic''"] by (simp add: basic_header_def split_on_no_sep b64_encode_no_space)
  with lower_basic(2) show ?thesis by (simp add: GetBearerToken_def basic_header_def)
qed

lemma bearer_header: "CHR '' '' \<notin> set tok \<Longrightarrow> GetBearerToken (''bearer '' @ tok) = (tok, None)"
  by (subst bearer_token_parts) (auto intro: exI [of _ "''bearer''"])

text \<open>
  C21: A client that connected with a user name and a password is served by a server with basic authentication under that
  user name exactly when the server's validator accepts the pair, provided the name has no colon; whether tokens are
  enabled too makes no difference.
\<close>

theorem basic_client_served:
  assumes "tc_httpClient cl \<noteq> None" and "he_newRequest env m url = None"
    and "tc_userID cl = user" and "tc_basicSecret cl = secret" and "user \<noteq> []" and "secret \<noteq> []"
    and "CHR '':'' \<notin> set user"
    and "sq_TLS r = Some []" and "sq_Method r \<noteq> ''OPTIONS''"
    and "ha_BasicAuth (ts_httpAuthenticator srv) = Some (NewBasicAuthenticator validate)"
  shows "\<exists>req res. Invoke env m url msg cl = Ret (res, cl, [req]) \<and>
    (serve_route parse srv (AuthRoute path h) (r\<lparr>sq_Authorization := authorization_header (rq_authorization req)\<rparr>) =
      (if validate user secret then Ret (HandledFor user h)
       else Ret (WriteForbidden (refusal path user r))))"
proof -
  let ?req = "\<lparr>rq_method = m, rq_url = url, rq_authorization = BasicAuthorization user secret, rq_body = message_body msg\<rparr>"
  let ?r = "r\<lparr>sq_Authorization := basic_header user secret\<rparr>"
  have "Invoke env m url msg cl = Ret (send_request env ?req, cl, [?req])"
    using assms(1-6) by (simp add: Invoke_def Let_def)
  moreover obtain e where e: "GetBearerToken (basic_header user secret) = ([], Some e)" using basic_header_no_token by blast
  then have j: "JWTAuthenticate parse j ?r = Ret ([], False)" for j by (simp add: JWTAuthenticate_def)
  have c: "CertAuthenticate ?r = Ret ([], False)" using assms(8) by (simp add: CertAuthenticate_def)
  have b: "BasicAuthenticate (NewBasicAuthenticator validate) ?r = Ret (user, validate user secret)"
    using assms(7) by (simp add: BasicAuthenticate_def NewBasicAuthenticator_def)
  have "HttpAuthenticate parse (ts_httpAuthenticator srv) ?r = Ret (user, validate user secret)"
    using assms(10) by (cases "ha_CertAuth (ts_httpAuthenticator srv)"; cases "ha_JwtAuth (ts_httpAuthenticator srv)")
      (simp_all add: HttpAuthenticate_def auth_link_def c j b)
  then have "serve_route parse srv (AuthRoute path h) ?r =
      (if validate user secret then Ret (HandledFor user h) else Ret (WriteForbidden (refusal path user r)))"
    using assms(9) by (simp add: serve_route_def refusal_def)
  ultimately show ?thesis by auto
qed

definition basic_client :: "(unit, unit) tls_client" where
  "basic_client = fst (ConnectWithBasicAuth ''bob'' ''secret'' (NewTLSClient ''hub:8443'' None) (\<lambda>_. None))"

definition password_server :: "(unit, unit, nat) tls_server" where
  "password_server = EnableBasicAuth (\<lambda>u p. u = ''bob'' \<and> p = ''secret'') (NewTLSServer [] 8443 None None)"

theorem basic_client_served_witness:
  "\<exists>req res. Invoke ok_env ''GET'' ''https://hub:8443/things'' MsgNil basic_client = Ret (res, basic_client, [req]) \<and>
    serve_route (\<lambda>_ _. (None, \<lparr>cl_Username = []\<rparr>, None)) password_server (AuthRoute ''/things'' 0)
      (plain_request\<lparr>sq_Authorization := authorization_header (rq_authorization req)\<rparr>) = Ret (HandledFor ''bob'' 0)"
  using basic_client_served [of basic_client ok_env "''GET''" "''https://hub:8443/things''" "''bob''" "''secret''" plain_request
      password_server "\<lambda>u p. u = ''bob'' \<and> p = ''secret''" MsgNil "\<lambda>_ _. (None, \<lparr>cl_Username = []\<rparr>, None)" "''/things''" 0]
  by (simp add: basic_client_def ConnectWithBasicAuth_def NewTLSClient_def tls_connect_def Let_def ok_env_def plain_request_def
      password_server_def EnableBasicAuth_def ha_EnableBasicAuth_def)

text \<open>
  C20: A client that holds a valid access token, and no password, is served under the user name of the token's claims by a
  server that verifies tokens with its own key, when the request has no client certificate. The client sends the token in one
  request, without refreshing it.
\<close>

theorem token_client_served:
  assumes "tc_httpClient cl \<noteq> None" and "he_newRequest env m url = None"
    and "tc_basicSecret cl = []" and "tc_jwtAccessToken cl = tok" and "tok \<noteq> []" and "CHR '' '' \<notin> set tok"
    and "he_token env tok = TokenValid"
    and "EnableJwtAuth None (NewTLSServer address port (Some \<lparr>sc_ecdsaPublicKey = Some key\<rparr>) ca) = Ret srv"
    and "token_claims parse (Some key) tok = Some claims"
    and "sq_TLS r = Some []" and "sq_Method r \<noteq> ''OPTIONS''"
  shows "\<exists>req res. Invoke env m url msg cl = Ret (res, cl, [req]) \<and>
    serve_route parse srv (AuthRoute path h) (r\<lparr>sq_Authorization := authorization_header (rq_authorization req)\<rparr>)
      = Ret (HandledFor (cl_Username claims) h)"
proof -
  let ?req = "\<lparr>rq_method = m, rq_url = url, rq_authorization = HeaderAuthorization (''bearer '' @ tok), rq_body = message_body msg\<rparr>"
  let ?r = "r\<lparr>sq_Authorization := ''bearer '' @ tok\<rparr>"
  have "Invoke env m url msg cl = Ret (send_request env ?req, cl, [?req])"
    using assms(1-5,7) by (simp add: Invoke_def Let_def RefreshJWTTokenIfExpired_def)
  moreover have j: "JWTAuthenticate parse \<lparr>ja_publicKey = Some key\<rparr> ?r = Ret (cl_Username claims, True)"
    unfolding JWTAuthenticate_accepts using assms(9) bearer_header [OF assms(6)]
    by (simp add: jwt_accepts_def del: append.simps append_Cons)
  have c: "CertAuthenticate ?r = Ret ([], False)" using assms(10) by (simp add: CertAuthenticate_def)
  have "ts_httpAuthenticator srv = \<lparr>ha_BasicAuth = None, ha_CertAuth = Some (), ha_JwtAuth = Some \<lparr>ja_publicKey = Some key\<rparr>\<rparr>"
    using assms(8) by (auto simp: EnableJwtAuth_def NewTLSServer_def NewHttpAuthenticator_def ha_EnableJwtAuth_def NewJWTAuthenticator_def)
  then have "HttpAuthenticate parse (ts_httpAuthenticator srv) ?r = Ret (cl_Username claims, True)"
    using c j by (simp add: HttpAuthenticate_def auth_link_def)
  then have "serve_route parse srv (AuthRoute path h) ?r = Ret (HandledFor (cl_Username claims) h)"
    using assms(11) by (simp add: serve_route_def)
  ultimately show ?thesis by auto
qed

text \<open>A JWT library that accepts one token, for the key 1 and a given user.\<close>

definition one_token :: "string \<Rightarrow> nat jwt_parse" where
  "one_token user key tok =
     (if key = Some 1 \<and> tok = ''old''
      then (Some \<lparr>tk_Valid = True, tk_ClaimsValid = None, tk_Claims = \<lparr>cl_Username = user\<rparr>\<rparr>, \<lparr>cl_Username = user\<rparr>, None)
      else (None, \<lparr>cl_Username = []\<rparr>, Some ''signature is invalid''))"

definition token_server :: "(nat, nat, nat) tls_server" where
  "token_server =
     (NewTLSServer [] 8443 (Some \<lparr>sc_ecdsaPublicKey = Some 1\<rparr>) (Some 9))
       \<lparr>ts_httpAuthenticator := ha_EnableJwtAuth (Some 1) NewHttpAuthenticator\<rparr>"

lemma token_server_enabled:
  "EnableJwtAuth None (NewTLSServer [] 8443 (Some \<lparr>sc_ecdsaPublicKey = Some 1\<rparr>) (Some 9)) = Ret token_server"
  by (simp add: EnableJwtAuth_def token_server_def NewTLSServer_def)

theorem token_client_served_witness:
  "\<exists>req res. Invoke ok_env ''GET'' ''https://hub:8881/things'' MsgNil token_client = Ret (res, token_client, [req]) \<and>
    serve_route (one_token ''user1'') token_server (AuthRoute ''/things'' 0)
      (plain_request\<lparr>sq_Authorization := authorization_header (rq_authorization req)\<rparr>) = Ret (HandledFor ''user1'' 0)"
  using token_client_served [of token_client ok_env "''GET''" "''https://hub:8881/things''" "''old''", OF _ _ _ _ _ _ _
      token_server_enabled, of "one_token ''user1''" "\<lparr>cl_Username = ''user1''\<rparr>" plain_request MsgNil "''/things''" 0]
    token_client_fields
  by (simp add: ok_env_def plain_request_def token_claims_def one_token_def)

text \<open>
  C34: A valid token whose claims carry no user name is served exactly like a plugin certificate: the handler is called with the
  empty user, which stands for a plugin that is always authorized.
\<close>

theorem nameless_token_served_as_plugin:
  assumes "ha_CertAuth (ts_httpAuthenticator srv) = Some ()" and "ha_JwtAuth (ts_httpAuthenticator srv) = Some j"
    and "sq_TLS r = Some []" and "GetBearerToken (sq_Authorization r) = (tok, None)"
    and "token_claims parse (ja_publicKey j) tok = Some claims" and "cl_Username claims = []"
    and "pc_CommonName cert = ''plugin''"
  shows "serve_route parse srv route r = serve_route parse srv route (r\<lparr>sq_TLS := Some (cert # certs)\<rparr>)"
proof -
  have "JWTAuthenticate parse j r = Ret ([], True)"
    unfolding JWTAuthenticate_accepts using assms(4-6) by (simp add: jwt_accepts_def)
  with assms(1-3,7) have "HttpAuthenticate parse (ts_httpAuthenticator srv) r = Ret ([], True)"
    "HttpAuthenticate parse (ts_httpAuthenticator srv) (r\<lparr>sq_TLS := Some (cert # certs)\<rparr>) = Ret ([], True)"
    by (simp_all add: HttpAuthenticate_def auth_link_def CertAuthenticate_def)
  then show ?thesis by (cases route) (simp_all add: serve_route_def)
qed

theorem nameless_token_served_as_plugin_witness:
  "serve_route (one_token []) token_server (AuthRoute ''/things'' 0) (plain_request\<lparr>sq_Authorization := ''Bearer old''\<rparr>)
     = serve_route (one_token []) token_server (AuthRoute ''/things'' 0)
         (plain_request\<lparr>sq_Authorization := ''Bearer old'', sq_TLS := Some [\<lparr>pc_CommonName = ''plugin'', pc_OrganizationalUnit = [''plugin'']\<rparr>]\<rparr>)"
proof -
  have b: "GetBearerToken ''Bearer old'' = (''old'', None)" by code_simp
  show ?thesis
    using nameless_token_served_as_plugin [of token_server "\<lparr>ja_publicKey = Some 1\<rparr>" "plain_request\<lparr>sq_Authorization := ''Bearer old''\<rparr>"
        "''old''" "one_token []" "\<lparr>cl_Username = []\<rparr>" "\<lparr>pc_CommonName = ''plugin'', pc_OrganizationalUnit = [''plugin'']\<rparr>" "AuthRoute ''/things'' 0" "[]"]
    by (simp add: b token_server_def ha_EnableJwtAuth_def NewHttpAuthenticator_def NewJWTAuthenticator_def plain_request_def
        token_claims_def one_token_def)
qed

section \<open>Query parameters and origins\<close>

text \<open>
  The limit and the offset of a request are numbers of 32 bits unless they are the default; the limit never exceeds a
  default other than 0, but it may be negative, and 0 as the default sets no maximum. Given once each as decimal numbers in
  range they are returned as they are, the limit cut off at the default.
\<close>

theorem query_limit_offset:
  assumes "sq_Query r ParamLimit = Some [show_int l]" and "sq_Query r ParamOffset = Some [show_int n]"
    and "- (2 ^ 31) \<le> l \<and> l < 2 ^ 31" and "- (2 ^ 31) \<le> n \<and> n < 2 ^ 31"
  shows "GetQueryLimitOffset r d = (if d = 0 then l else min l d, n, None)"
  using assms parse_int_show [of 32 l] parse_int_show [of 32 n]
  by (auto simp: GetQueryLimitOffset_def GetQueryInt_def Let_def)

theorem query_limit_offset_witness:
  "GetQueryLimitOffset (plain_request\<lparr>sq_Query := [''limit'' \<mapsto> [''-5''], ''offset'' \<mapsto> [''70'']]\<rparr>) 100 = (-5, 70, None)"
proof -
  have s: "show_int (-5) = ''-5''" "show_int 70 = ''70''" by code_simp+
  show ?thesis
    using query_limit_offset [of "plain_request\<lparr>sq_Query := [''limit'' \<mapsto> [''-5''], ''offset'' \<mapsto> [''70'']]\<rparr>" "-5" 70 100]
    by (simp add: s ParamLimit_def ParamOffset_def)
qed

text \<open>
  C32: Whatever the query, the limit returned is at most a default other than 0, and the offset lies between the bounds of 32-bit
  numbers and is 0 when the limit was in error. A parameter given twice is an error, a number out of range an error that comes with the
  nearest bound.
\<close>

theorem query_limit_bounds:
  "case GetQueryLimitOffset r d of (limit, offset, err) \<Rightarrow>
     (d = 0 \<or> limit \<le> d) \<and> - (2 ^ 31) \<le> offset \<and> offset < 2 ^ 31 \<and>
     (snd (GetQueryInt r ParamLimit d) = None \<or> offset = 0 \<and> err = snd (GetQueryInt r ParamLimit d))"
  using parse_int_range [of 32]
  by (auto simp: GetQueryLimitOffset_def GetQueryInt_def Let_def split: option.splits prod.splits if_splits)
    (metis fst_conv order.refl)+

text \<open>
  The origins allowed are those that start with the text of a local address or with the text of the server's address: any
  host whose name goes on behind that text is allowed, and every https origin is when the server's address is empty.
\<close>

theorem allowed_origins:
  "AllowOriginFunc address orig \<longleftrightarrow>
     (\<exists>rest. orig \<in> {''https://127.0.0.1'' @ rest, ''https://localhost'' @ rest, ''http://127.0.0.1'' @ rest,
        ''http://localhost'' @ rest, ''https://'' @ address @ rest})"
  by (auto simp: AllowOriginFunc_def has_prefix_iff)

end
