(* ===== verification/Files.thy ===== *)
theory Files
  imports GoStrings
begin

text \<open>
  The file system and the paths the program uses: \<open>ioutil.ReadFile\<close>, \<open>ioutil.WriteFile\<close>, \<open>os.Stat\<close>, and the functions
  \<open>Clean\<close>, \<open>Join\<close>, \<open>IsAbs\<close>, \<open>Dir\<close>, \<open>Split\<close> and \<open>Base\<close> of package \<open>path\<close>.

  The file system maps the text of a path to a file; two texts for one file are not identified. Whether a file can be opened for
  writing is part of its state.
\<close>

section \<open>Files\<close>

record file_entry =
  fl_content :: string
  fl_mode :: nat

record filesystem =
  fs_files :: "string \<rightharpoonup> file_entry"
  fs_folders :: "string \<Rightarrow> bool"
  fs_writeError :: "string \<Rightarrow> error option"

definition not_found :: "string \<Rightarrow> error" where
  "not_found path = ''open '' @ path @ '': no such file or directory''"

definition ReadFile :: "filesystem \<Rightarrow> string \<Rightarrow> error + string" where
  "ReadFile fs path =
     (case fs_files fs path of None \<Rightarrow> Inl (not_found path) | Some f \<Rightarrow> Inr (fl_content f))"

text \<open>A new file gets the permissions asked for; an existing one is truncated and keeps its own.\<close>

definition WriteFile :: "string \<Rightarrow> string \<Rightarrow> nat \<Rightarrow> filesystem \<Rightarrow> error option \<times> filesystem" where
  "WriteFile path data perm fs =
     (case fs_writeError fs path of
        Some err \<Rightarrow> (Some err, fs)
      | None \<Rightarrow>
          (None, fs\<lparr>fs_files := (fs_files fs)(path \<mapsto>
             \<lparr>fl_content = data, fl_mode = (case fs_files fs path of None \<Rightarrow> perm | Some f \<Rightarrow> fl_mode f)\<rparr>)\<rparr>))"

definition Exists :: "filesystem \<Rightarrow> string \<Rightarrow> bool" where
  "Exists fs path \<longleftrightarrow> fs_files fs path \<noteq> None \<or> fs_folders fs path"

lemma Read_Write [simp]:
  "WriteFile p d m fs = (None, fs') \<Longrightarrow> ReadFile fs' q = (if q = p then Inr d else ReadFile fs q)"
  by (cases "q = p") (auto simp: WriteFile_def ReadFile_def split: option.splits)

lemma WriteFile_error: "WriteFile p d m fs = (Some e, fs') \<Longrightarrow> fs' = fs"
  by (auto simp: WriteFile_def split: option.splits)

lemma WriteFile_mode:
  "WriteFile p d m fs = (None, fs') \<Longrightarrow>
     map_option fl_mode (fs_files fs' p) = Some (case fs_files fs p of None \<Rightarrow> m | Some f \<Rightarrow> fl_mode f)"
  by (auto simp: WriteFile_def split: option.splits)

lemma WriteFile_can: "WriteFile p d m fs = (None, fs') \<Longrightarrow> fs_writeError fs' = fs_writeError fs"
  by (auto simp: WriteFile_def split: option.splits)

section \<open>Paths\<close>

definition IsAbs :: "string \<Rightarrow> bool" where
  "IsAbs path \<longleftrightarrow> path \<noteq> [] \<and> hd path = CHR ''/''"

text \<open>
  The parts of the cleaned path, innermost first: empty parts and dots are left out, two dots remove the part before them, and at
  the root nothing; a path that is not rooted keeps the two dots it starts with.
\<close>

fun clean_parts :: "bool \<Rightarrow> string list \<Rightarrow> string list \<Rightarrow> string list" where
  "clean_parts rooted acc [] = acc"
| "clean_parts rooted acc (p # ps) =
     (if p = [] \<or> p = ''.'' then clean_parts rooted acc ps
      else if p = ''..'' then
        (case acc of
           [] \<Rightarrow> clean_parts rooted (if rooted then [] else [p]) ps
         | a # as \<Rightarrow> if a = ''..'' then clean_parts rooted (p # acc) ps else clean_parts rooted as ps)
      else clean_parts rooted (p # acc) ps)"

definition Clean :: "string \<Rightarrow> string" where
  "Clean path =
     (let parts = rev (clean_parts (IsAbs path) [] (split_on CHR ''/'' path)) in
      if IsAbs path then CHR ''/'' # join_with CHR ''/'' parts
      else if parts = [] then ''.''
      else join_with CHR ''/'' parts)"

definition Join :: "string \<Rightarrow> string \<Rightarrow> string" where
  "Join a b =
     (if a \<noteq> [] then Clean (a @ CHR ''/'' # b) else if b \<noteq> [] then Clean b else [])"

text \<open>The part up to and with the last slash, and the rest.\<close>

definition path_Split :: "string \<Rightarrow> string \<times> string" where
  "path_Split path =
     (let parts = split_on CHR ''/'' path in
      (concat (List.map (\<lambda>p. p @ ''/'') (butlast parts)), last parts))"

definition Dir :: "string \<Rightarrow> string" where
  "Dir path = Clean (fst (path_Split path))"

fun drop_slashes :: "string \<Rightarrow> string" where
  "drop_slashes [] = []"
| "drop_slashes (c # s) = (if c = CHR ''/'' then drop_slashes s else c # s)"

definition Base :: "string \<Rightarrow> string" where
  "Base path =
     (if path = [] then ''.''
      else let path = rev (drop_slashes (rev path)); base = last (split_on CHR ''/'' path)
           in if base = [] then ''/'' else base)"

lemma IsAbs_Cons [simp]: "IsAbs (c # s) \<longleftrightarrow> c = CHR ''/''"
  by (simp add: IsAbs_def)

lemma IsAbs_Nil [simp]: "\<not> IsAbs []"
  by (simp add: IsAbs_def)

lemma IsAbs_Clean [simp]: "IsAbs (Clean p) \<longleftrightarrow> IsAbs p"
proof (cases "IsAbs p")
  case True
  then show ?thesis by (simp add: Clean_def Let_def)
next
  case False
  have part: "x \<in> set (clean_parts r acc ps) \<Longrightarrow> \<forall>y \<in> set acc \<union> set ps. CHR ''/'' \<notin> set y \<Longrightarrow> \<forall>y \<in> set acc. y \<noteq> [] \<Longrightarrow>
      x \<noteq> [] \<and> CHR ''/'' \<notin> set x" for x r acc ps
    by (induction r acc ps rule: clean_parts.induct) (auto split: if_splits list.splits)
  let ?ps = "rev (clean_parts False [] (split_on CHR ''/'' p))"
  have "\<not> IsAbs (join_with CHR ''/'' ?ps)"
  proof (cases ?ps)
    case (Cons a as)
    then have "a \<in> set (clean_parts False [] (split_on CHR ''/'' p))" by (metis list.set_intros(1) set_rev)
    then have "a \<noteq> [] \<and> CHR ''/'' \<notin> set a" by (rule part) (auto dest: split_on_parts_no_sep)
    then show ?thesis using Cons by (cases a; cases as) auto
  qed simp
  with False show ?thesis by (auto simp: Clean_def Let_def)
qed

lemma IsAbs_Join [simp]: "IsAbs a \<Longrightarrow> IsAbs (Join a b)"
  by (cases a) (auto simp: Join_def)

text \<open>A clean rooted path is given by its parts, which are plain names; joining it with a relative path of plain names appends them.\<close>

definition plain_name :: "string \<Rightarrow> bool" where
  "plain_name n \<longleftrightarrow> n \<noteq> [] \<and> n \<noteq> ''.'' \<and> n \<noteq> ''..'' \<and> CHR ''/'' \<notin> set n"

definition abs_path :: "string list \<Rightarrow> string" where
  "abs_path ps = CHR ''/'' # join_with CHR ''/'' ps"

lemma IsAbs_abs_path [simp]: "IsAbs (abs_path ps)"
  by (simp add: abs_path_def)

lemma clean_parts_append:
  "list_all plain_name ps \<Longrightarrow> clean_parts r acc (ps @ qs) = clean_parts r (rev ps @ acc) qs"
  by (induction ps arbitrary: acc) (auto simp: plain_name_def)

lemma split_abs_path:
  "list_all plain_name ps \<Longrightarrow> ps \<noteq> [] \<Longrightarrow> split_on CHR ''/'' (abs_path ps @ CHR ''/'' # s) = [] # ps @ split_on CHR ''/'' s"
proof (induction ps)
  case Nil
  then show ?case by simp
next
  case (Cons p ps)
  then have p: "CHR ''/'' \<notin> set p" by (simp add: plain_name_def)
  show ?case
  proof (cases ps)
    case Nil
    with p show ?thesis by (simp add: abs_path_def split_on_sep)
  next
    case (Cons q qs)
    with Cons.IH Cons.prems p show ?thesis by (simp add: abs_path_def split_on_sep)
  qed
qed

lemma Join_abs_path:
  assumes "list_all plain_name ps" and "ps \<noteq> []" and "split_on CHR ''/'' s = qs"
  shows "Join (abs_path ps) s = abs_path (rev (clean_parts True (rev ps) qs))"
  using clean_parts_append [OF assms(1), of True "[]" qs] split_abs_path [OF assms(1,2), of s] assms(3)
  by (simp add: Join_def Clean_def Let_def) (simp add: abs_path_def)

lemma Join_plain:
  "list_all plain_name ps \<Longrightarrow> ps \<noteq> [] \<Longrightarrow> plain_name n \<Longrightarrow> Join (abs_path ps) n = abs_path (ps @ [n])"
  by (subst Join_abs_path) (auto simp: plain_name_def split_on_no_sep)

lemma Join_dot_plain:
  "list_all plain_name ps \<Longrightarrow> ps \<noteq> [] \<Longrightarrow> plain_name n \<Longrightarrow> Join (abs_path ps) (''./'' @ n) = abs_path (ps @ [n])"
  by (subst Join_abs_path) (auto simp: plain_name_def split_on_no_sep)

end
