(* ===== verification/YamlConfig.thy ===== *)
theory YamlConfig
  imports Files
begin

text \<open>
  Loading a configuration file (\<open>pkg/config/LoadYamlConfig.go\<close>): reading it, substituting keywords in its text, and decoding it.
  The YAML library is an argument: what decoding a text into a value of the configuration returns and leaves in the value.

  The map of keywords is ranged over in an order Go leaves open. The second half shows for which texts and values the order makes no
  difference, and that substitution then is simultaneous.
\<close>

section \<open>Substitution and loading\<close>

text \<open>\<open>ks\<close> is the order in which the map is ranged over.\<close>

definition SubstituteText :: "string list \<Rightarrow> (string \<rightharpoonup> string) \<Rightarrow> string \<Rightarrow> string" where
  "SubstituteText ks substituteMap text =
     fold (\<lambda>key newText. case substituteMap key of None \<Rightarrow> newText | Some val \<Rightarrow> replace_all newText key val) ks text"

type_synonym 'a yaml_unmarshal = "string \<Rightarrow> 'a \<Rightarrow> error option \<times> 'a"

definition LoadYamlConfig ::
    "'a yaml_unmarshal \<Rightarrow> filesystem \<Rightarrow> string list \<Rightarrow> string \<Rightarrow> 'a option \<Rightarrow> (string \<rightharpoonup> string) option \<Rightarrow>
      error option \<times> 'a option" where
  "LoadYamlConfig unmarshal fs ks configFile config substituteMap =
     (case config of
        None \<Rightarrow>
          (Some (''LoadYamlConfig: Loading config file: '' @ configFile @ '', but supplied configuration struct is nil''), None)
      | Some c \<Rightarrow>
          (case ReadFile fs configFile of
             Inl err \<Rightarrow> (Some err, Some c)
           | Inr rawText \<Rightarrow>
               let rawText = (case substituteMap of None \<Rightarrow> rawText | Some m \<Rightarrow> SubstituteText ks m rawText)
               in apsnd Some (unmarshal rawText c)))"

section \<open>Templates\<close>

text \<open>
  A template is a text with keywords in braces: its plain parts have no opening brace, its keywords no brace inside. A map of keywords
  is plain when its keys are keywords and its values have no opening brace.
\<close>

datatype segment = Plain string | Keyword string

fun render :: "segment list \<Rightarrow> string" where
  "render [] = []"
| "render (Plain s # ps) = s @ render ps"
| "render (Keyword n # ps) = ''{'' @ n @ ''}'' @ render ps"

definition braced :: "string \<Rightarrow> string" where
  "braced n = ''{'' @ n @ ''}''"

definition brace_free :: "string \<Rightarrow> bool" where
  "brace_free n \<longleftrightarrow> CHR ''{'' \<notin> set n \<and> CHR ''}'' \<notin> set n"

fun segment_ok :: "segment \<Rightarrow> bool" where
  "segment_ok (Plain s) = (CHR ''{'' \<notin> set s)"
| "segment_ok (Keyword n) = brace_free n"

definition plain_map :: "(string \<rightharpoonup> string) \<Rightarrow> bool" where
  "plain_map m \<longleftrightarrow> (\<forall>k v. m k = Some v \<longrightarrow> (\<exists>n. k = braced n \<and> brace_free n) \<and> CHR ''{'' \<notin> set v)"

text \<open>The reference: every keyword of the map is replaced, all at once.\<close>

fun fill :: "(string \<rightharpoonup> string) \<Rightarrow> segment \<Rightarrow> segment" where
  "fill m (Plain s) = Plain s"
| "fill m (Keyword n) = (case m (braced n) of None \<Rightarrow> Keyword n | Some v \<Rightarrow> Plain v)"

lemma braced_inject: "braced n = braced n' \<longleftrightarrow> n = n'"
  by (simp add: braced_def)

lemma braced_ne [simp]: "braced n \<noteq> []"
  by (simp add: braced_def)

lemma strip_braced_other:
  "brace_free n \<Longrightarrow> brace_free n' \<Longrightarrow> n \<noteq> n' \<Longrightarrow> strip_prefix (braced n) (braced n' @ s) = None"
proof (rule ccontr)
  assume n: "brace_free n" "brace_free n'" "n \<noteq> n'" and "strip_prefix (braced n) (braced n' @ s) \<noteq> None"
  then obtain r where "n' @ ''}'' @ s = n @ ''}'' @ r" by (auto simp: strip_prefix_Some_iff braced_def)
  then have "takeWhile (\<lambda>c. c \<noteq> CHR ''}'') (n' @ ''}'' @ s) = takeWhile (\<lambda>c. c \<noteq> CHR ''}'') (n @ ''}'' @ r)" by (rule arg_cong)
  moreover have "takeWhile (\<lambda>c. c \<noteq> CHR ''}'') (x @ ''}'' @ y) = x" if "brace_free x" for x y
    using that by (subst takeWhile_append2) (auto simp: brace_free_def)
  ultimately show False using n by metis
qed

lemma replace_segment:
  assumes "segment_ok p" and "brace_free n"
  shows "replace_ne (braced n) v (render (p # ps)) = render [fill [braced n \<mapsto> v] p] @ replace_ne (braced n) v (render ps)"
proof (cases p)
  case (Plain s)
  with assms(1) show ?thesis by (simp add: replace_ne_skip braced_def)
next
  case (Keyword n')
  show ?thesis
  proof (cases "n' = n")
    case True
    then show ?thesis using replace_ne_hit [of "braced n" v "render ps"] by (simp add: Keyword braced_def)
  next
    case False
    from assms Keyword False have s: "strip_prefix (braced n) (CHR ''{'' # n' @ ''}'' @ render ps) = None"
      using strip_braced_other [of n n' "render ps"] by (simp add: braced_def)
    have k: "replace_ne (braced n) v ((n' @ ''}'') @ render ps) = (n' @ ''}'') @ replace_ne (braced n) v (render ps)"
      using assms(1) Keyword by (intro replace_ne_skip) (auto simp: braced_def brace_free_def)
    show ?thesis using replace_ne_miss [OF s, of v] k False by (simp add: Keyword braced_inject)
  qed
qed

lemma replace_template:
  "list_all segment_ok ps \<Longrightarrow> brace_free n \<Longrightarrow>
     replace_all (render ps) (braced n) v = render (List.map (fill [braced n \<mapsto> v]) ps)"
proof (induction ps)
  case Nil
  then show ?case by (simp add: replace_all_def)
next
  case (Cons p ps)
  from Cons.prems(1) have "list_all segment_ok ps" and p: "segment_ok p" by simp_all
  note ih = Cons.IH [OF this(1) Cons.prems(2)]
  have "replace_all (render (p # ps)) (braced n) v = render [fill [braced n \<mapsto> v] p] @ replace_all (render ps) (braced n) v"
    unfolding replace_all_def if_not_P [OF braced_ne] by (rule replace_segment [OF p Cons.prems(2)])
  moreover have "render [q] @ render qs = render (q # qs)" for q qs by (cases q) simp_all
  ultimately show ?case by (simp only: ih list.map)
qed

lemma fill_ok: "segment_ok p \<Longrightarrow> plain_map m \<Longrightarrow> segment_ok (fill m p)"
  by (cases p) (auto simp: plain_map_def split: option.splits)

lemma substitute_template:
  "plain_map m \<Longrightarrow> list_all segment_ok ps \<Longrightarrow>
     SubstituteText ks m (render ps) = render (List.map (fill (m |` set ks)) ps)"
proof (induction ks arbitrary: ps)
  case Nil
  have "fill (m |` {}) p = p" for p by (cases p) auto
  then show ?case by (simp add: SubstituteText_def map_idI)
next
  case (Cons k ks)
  show ?case
  proof (cases "m k")
    case None
    have "m |` set (k # ks) = m |` set ks" using None by (auto simp: restrict_map_def)
    with Cons None show ?thesis by (simp add: SubstituteText_def)
  next
    case (Some v)
    then obtain n where n: "k = braced n" "brace_free n" and v: "CHR ''{'' \<notin> set v"
      using Cons.prems(1) unfolding plain_map_def by blast
    have ok: "list_all segment_ok (List.map (fill [k \<mapsto> v]) ps)"
      using Cons.prems(2) n v by (auto simp: list_all_iff plain_map_def intro!: fill_ok split: if_splits)
    have f: "fill (m |` set ks) (fill [k \<mapsto> v] p) = fill (m |` set (k # ks)) p" for p
      using Some by (cases p) (auto simp: restrict_map_def)
    have "SubstituteText (k # ks) m (render ps) = SubstituteText ks m (render (List.map (fill [k \<mapsto> v]) ps))"
      using replace_template [OF Cons.prems(2) n(2), of v] by (simp add: SubstituteText_def Some flip: n(1))
    then show ?thesis using Cons.IH [OF Cons.prems(1) ok] f by (simp add: comp_def)
  qed
qed

lemma substitute_all:
  assumes "plain_map m" and "list_all segment_ok ps" and "range_order m ks"
  shows "SubstituteText ks m (render ps) = render (List.map (fill m) ps)"
proof -
  have "m |` set ks = m" using assms(3) by (auto simp: range_order_def restrict_map_def dom_def)
  with substitute_template [OF assms(1,2), of ks] show ?thesis by simp
qed

text \<open>A text without an opening brace stays as it is under keywords that start with one.\<close>

lemma substitute_no_brace:
  "CHR ''{'' \<notin> set s \<Longrightarrow> list_all (\<lambda>k. k \<noteq> [] \<and> hd k = CHR ''{'') ks \<Longrightarrow> SubstituteText ks m s = s"
proof (induction ks)
  case Nil
  then show ?case by (simp add: SubstituteText_def)
next
  case (Cons k ks)
  then have "replace_all s k v = s" for v using replace_ne_skip [of k s v "[]"] by (simp add: replace_all_def)
  with Cons show ?case by (simp add: SubstituteText_def split: option.split)
qed

text \<open>
  C17: On a template, with a map from keywords in braces to values without an opening brace, SubstituteText replaces all keywords of
  the map at once, whatever the order in which the map is ranged over; keywords the map does not have stay as they are.
\<close>

theorem substitution_simultaneous:
  assumes "plain_map m" and "list_all segment_ok ps" and "range_order m ks"
  shows "SubstituteText ks m (render ps) = render (List.map (fill m) ps)"
  using assms by (rule substitute_all)

theorem substitution_simultaneous_witness:
  "SubstituteText [''{home}'', ''{id}''] [''{id}'' \<mapsto> ''p1'', ''{home}'' \<mapsto> ''/opt''] ''log: {home}/{id}.{ext}'' = ''log: /opt/p1.{ext}''"
proof -
  let ?m = "[''{id}'' \<mapsto> ''p1'', ''{home}'' \<mapsto> ''/opt''] :: string \<rightharpoonup> string"
  let ?ps = "[Plain ''log: '', Keyword ''home'', Plain ''/'', Keyword ''id'', Plain ''.'', Keyword ''ext'']"
  have "plain_map ?m"
    unfolding plain_map_def
  proof (intro allI impI)
    fix k v assume "?m k = Some v"
    then have "k = braced ''id'' \<and> v = ''p1'' \<or> k = braced ''home'' \<and> v = ''/opt''" by (auto simp: braced_def split: if_splits)
    moreover have "brace_free ''id''" "brace_free ''home''" by (simp_all add: brace_free_def)
    ultimately show "(\<exists>n. k = braced n \<and> brace_free n) \<and> CHR ''{'' \<notin> set v" by auto
  qed
  moreover have "list_all segment_ok ?ps" by (simp add: brace_free_def)
  moreover have "range_order ?m [''{home}'', ''{id}'']" by (auto simp: range_order_def split: if_splits)
  ultimately have "SubstituteText [''{home}'', ''{id}''] ?m (render ?ps) = render (List.map (fill ?m) ?ps)"
    by (rule substitution_simultaneous)
  then show ?thesis by (simp add: braced_def)
qed

text \<open>
  With a value that holds a keyword the result depends on the order: the keyword inside the value is replaced in one order and
  left in the other.
\<close>

theorem substitution_order_matters:
  "SubstituteText [''{a}'', ''{b}''] [''{a}'' \<mapsto> ''{b}'', ''{b}'' \<mapsto> ''x''] ''{a}''
     \<noteq> SubstituteText [''{b}'', ''{a}''] [''{a}'' \<mapsto> ''{b}'', ''{b}'' \<mapsto> ''x''] ''{a}''"
  by (simp add: SubstituteText_def replace_all_def replace_ne.simps)

end
