(* ===== verification/CertsClient.thy ===== *)
theory CertsClient
  imports Files Base64
begin

text \<open>
  Keys and certificates in PEM files (\<open>pkg/certsclient\<close>): loading, saving and converting them.

  The encodings (PEM blocks, X.509, PKCS#8 and PKIX) are those of the standard library; they are collected in a record that
  is an argument of the operations. \<open>'x\<close> is the type of certificates, \<open>'k\<close> of private and \<open>'p\<close> of public ECDSA keys.
  A key of another algorithm, which the library can also encode and parse, is \<open>OtherKey\<close> with its encoding.
\<close>

section \<open>Data\<close>

datatype 'k any_key = ECDSAKey 'k | OtherKey string

record ('x, 'k, 'p) x509_lib =
  xl_pemDecode :: "string \<Rightarrow> string option"
  xl_pemEncode :: "string \<Rightarrow> string \<Rightarrow> string"
  xl_ParseCertificate :: "string \<Rightarrow> error + 'x"
  xl_Raw :: "'x \<Rightarrow> string"
  xl_PublicKey :: "'x \<Rightarrow> 'p any_key"
  xl_ParsePKCS8PrivateKey :: "string \<Rightarrow> error + 'k any_key"
  xl_MarshalPKCS8PrivateKey :: "'k any_key \<Rightarrow> error + string"
  xl_ParsePKIXPublicKey :: "string \<Rightarrow> error + 'p any_key"
  xl_MarshalPKIXPublicKey :: "'p any_key \<Rightarrow> error + string"

record 'k tls_certificate =
  tlc_Certificate :: "string list"
  tlc_PrivateKey :: "'k any_key"

text \<open>The bytes of a failed encoding are nil.\<close>

fun bytes_and_error :: "error + string \<Rightarrow> string \<times> error option" where
  "bytes_and_error (Inl err) = ([], Some err)"
| "bytes_and_error (Inr bytes) = (bytes, None)"

section \<open>Keys\<close>

definition PrivateKeyFromPEM :: "('x, 'k, 'p) x509_lib \<Rightarrow> string \<Rightarrow> 'k option \<times> error option" where
  "PrivateKeyFromPEM lib pemEncodedKey =
     (case xl_pemDecode lib pemEncodedKey of
        None \<Rightarrow> (None, Some ''not a valid PEM string'')
      | Some derBytes \<Rightarrow>
          (case xl_ParsePKCS8PrivateKey lib derBytes of
             Inl err \<Rightarrow> (None, Some err)
           | Inr (ECDSAKey k) \<Rightarrow> (Some k, None)
           | Inr (OtherKey _) \<Rightarrow> (None, Some ''PEM is not a ECDSA key format'')))"

definition PublicKeyFromPEM :: "('x, 'k, 'p) x509_lib \<Rightarrow> string \<Rightarrow> 'p option \<times> error option" where
  "PublicKeyFromPEM lib pemEncodedPub =
     (case xl_pemDecode lib pemEncodedPub of
        None \<Rightarrow> (None, Some ''not a valid PEM string'')
      | Some x509EncodedPub \<Rightarrow>
          (case xl_ParsePKIXPublicKey lib x509EncodedPub of
             Inl err \<Rightarrow> (None, Some err)
           | Inr (ECDSAKey k) \<Rightarrow> (Some k, None)
           | Inr (OtherKey _) \<Rightarrow> (None, Some ''Not a ECDSA public key'')))"

definition LoadKeysFromPEM :: "('x, 'k, 'p) x509_lib \<Rightarrow> filesystem \<Rightarrow> string \<Rightarrow> 'k option \<times> error option" where
  "LoadKeysFromPEM lib fs pemPath =
     (case ReadFile fs pemPath of
        Inl err \<Rightarrow> (None, Some err)
      | Inr pemEncodedPriv \<Rightarrow> PrivateKeyFromPEM lib pemEncodedPriv)"

definition LoadPublicKeyFromPEM :: "('x, 'k, 'p) x509_lib \<Rightarrow> filesystem \<Rightarrow> string \<Rightarrow> 'p option \<times> error option" where
  "LoadPublicKeyFromPEM lib fs pemPath =
     (case ReadFile fs pemPath of
        Inl err \<Rightarrow> (None, Some err)
      | Inr pemEncodedKey \<Rightarrow> PublicKeyFromPEM lib pemEncodedKey)"

definition PrivateKeyToPEM :: "('x, 'k, 'p) x509_lib \<Rightarrow> 'k any_key \<Rightarrow> string \<times> error option" where
  "PrivateKeyToPEM lib privateKey =
     (case bytes_and_error (xl_MarshalPKCS8PrivateKey lib privateKey) of
        (x509Encoded, err) \<Rightarrow> (xl_pemEncode lib ''PRIVATE KEY'' x509Encoded, err))"

definition PublicKeyToPEM :: "('x, 'k, 'p) x509_lib \<Rightarrow> 'p any_key \<Rightarrow> string \<times> error option" where
  "PublicKeyToPEM lib publicKey =
     (case bytes_and_error (xl_MarshalPKIXPublicKey lib publicKey) of
        (x509EncodedPub, err) \<Rightarrow> (xl_pemEncode lib ''PUBLIC KEY'' x509EncodedPub, err))"

text \<open>0600 and 0644 in octal.\<close>

definition mode_0600 :: nat where "mode_0600 = 384"
definition mode_0644 :: nat where "mode_0644 = 420"

definition SaveKeysToPEM ::
    "('x, 'k, 'p) x509_lib \<Rightarrow> 'k any_key \<Rightarrow> string \<Rightarrow> filesystem \<Rightarrow> error option \<times> filesystem" where
  "SaveKeysToPEM lib privateKey pemPath fs =
     (case bytes_and_error (xl_MarshalPKCS8PrivateKey lib privateKey) of
        (x509Encoded, err) \<Rightarrow>
          let pemEncoded = xl_pemEncode lib ''PRIVATE KEY'' x509Encoded in
          if err = None then WriteFile pemPath pemEncoded mode_0600 fs else (err, fs))"

definition SavePublicKeyToPEM ::
    "('x, 'k, 'p) x509_lib \<Rightarrow> 'p any_key \<Rightarrow> string \<Rightarrow> filesystem \<Rightarrow> error option \<times> filesystem" where
  "SavePublicKeyToPEM lib pubKey pemPath fs =
     (case PublicKeyToPEM lib pubKey of
        (pemEncoded, err) \<Rightarrow> if err = None then WriteFile pemPath pemEncoded mode_0600 fs else (err, fs))"

section \<open>Certificates\<close>

definition X509CertFromPEM :: "('x, 'k, 'p) x509_lib \<Rightarrow> string \<Rightarrow> 'x option \<times> error option" where
  "X509CertFromPEM lib certPEM =
     (case xl_pemDecode lib certPEM of
        None \<Rightarrow> (None, Some ''pem.Decode failed'')
      | Some bytes \<Rightarrow>
          (case xl_ParseCertificate lib bytes of Inl err \<Rightarrow> (None, Some err) | Inr c \<Rightarrow> (Some c, None)))"

definition X509CertToPEM :: "('x, 'k, 'p) x509_lib \<Rightarrow> 'x \<Rightarrow> string" where
  "X509CertToPEM lib cert = xl_pemEncode lib ''CERTIFICATE'' (xl_Raw lib cert)"

definition LoadX509CertFromPEM :: "('x, 'k, 'p) x509_lib \<Rightarrow> filesystem \<Rightarrow> string \<Rightarrow> 'x option \<times> error option" where
  "LoadX509CertFromPEM lib fs pemPath =
     (case ReadFile fs pemPath of
        Inl err \<Rightarrow> (None, Some err)
      | Inr pemEncoded \<Rightarrow> X509CertFromPEM lib pemEncoded)"

text \<open>
  \<open>tls.LoadX509KeyPair\<close> reads both of the files and makes a certificate of their contents; \<open>pair\<close> is the second step.
\<close>

type_synonym 'k key_pair = "string \<Rightarrow> string \<Rightarrow> error + 'k tls_certificate"

definition LoadX509KeyPair :: "'k key_pair \<Rightarrow> filesystem \<Rightarrow> string \<Rightarrow> string \<Rightarrow> error + 'k tls_certificate" where
  "LoadX509KeyPair pair fs certFile keyFile =
     (case ReadFile fs certFile of
        Inl err \<Rightarrow> Inl err
      | Inr c \<Rightarrow> (case ReadFile fs keyFile of Inl err \<Rightarrow> Inl err | Inr k \<Rightarrow> pair c k))"

definition LoadTLSCertFromPEM ::
    "'k key_pair \<Rightarrow> filesystem \<Rightarrow> string \<Rightarrow> string \<Rightarrow> 'k tls_certificate option \<times> error option" where
  "LoadTLSCertFromPEM pair fs certPEMPath keyPEMPath =
     (case LoadX509KeyPair pair fs certPEMPath keyPEMPath of
        Inl err \<Rightarrow> (None, Some err)
      | Inr tlsCert \<Rightarrow> (Some tlsCert, None))"

definition PublicKeyFromCert :: "('x, 'k, 'p) x509_lib \<Rightarrow> 'x \<Rightarrow> 'p option" where
  "PublicKeyFromCert lib cert = (case xl_PublicKey lib cert of ECDSAKey k \<Rightarrow> Some k | OtherKey _ \<Rightarrow> None)"

definition SaveTLSCertToPEM ::
    "('x, 'k, 'p) x509_lib \<Rightarrow> 'k tls_certificate \<Rightarrow> string \<Rightarrow> string \<Rightarrow> filesystem \<Rightarrow> (error option \<times> filesystem) outcome" where
  "SaveTLSCertToPEM lib cert certPEMPath keyPEMPath fs =
     (case tlc_Certificate cert of
        [] \<Rightarrow> Panic IndexOutOfRange
      | der # _ \<Rightarrow>
          Ret (case WriteFile certPEMPath (xl_pemEncode lib ''CERTIFICATE'' der) mode_0644 fs of
                 (Some err, fs) \<Rightarrow> (Some err, fs)
               | (None, fs) \<Rightarrow> SaveKeysToPEM lib (tlc_PrivateKey cert) keyPEMPath fs))"

definition SaveX509CertToPEM ::
    "('x, 'k, 'p) x509_lib \<Rightarrow> 'x \<Rightarrow> string \<Rightarrow> filesystem \<Rightarrow> error option \<times> filesystem" where
  "SaveX509CertToPEM lib cert pemPath fs =
     WriteFile pemPath (xl_pemEncode lib ''CERTIFICATE'' (xl_Raw lib cert)) mode_0644 fs"

section \<open>What is saved can be loaded\<close>

text \<open>
  The documented behaviour of the library the properties rely on: a decoded PEM block holds the bytes encoded, and a parsed
  encoding is the key encoded.
\<close>

definition key_encodings :: "('x, 'k, 'p) x509_lib \<Rightarrow> bool" where
  "key_encodings lib \<longleftrightarrow>
     (\<forall>t \<in> {''PRIVATE KEY'', ''PUBLIC KEY'', ''CERTIFICATE''}. \<forall>b. xl_pemDecode lib (xl_pemEncode lib t b) = Some b) \<and>
     (\<forall>k b. xl_MarshalPKCS8PrivateKey lib k = Inr b \<longrightarrow> xl_ParsePKCS8PrivateKey lib b = Inr k) \<and>
     (\<forall>k b. xl_MarshalPKIXPublicKey lib k = Inr b \<longrightarrow> xl_ParsePKIXPublicKey lib b = Inr k)"

lemma SaveKeys_cases:
  "SaveKeysToPEM lib k path fs = (None, fs') \<longleftrightarrow>
     (\<exists>b. xl_MarshalPKCS8PrivateKey lib k = Inr b \<and> WriteFile path (xl_pemEncode lib ''PRIVATE KEY'' b) mode_0600 fs = (None, fs'))"
  by (cases "xl_MarshalPKCS8PrivateKey lib k") (simp_all add: SaveKeysToPEM_def Let_def)

lemma SavePublicKey_cases:
  "SavePublicKeyToPEM lib k path fs = (None, fs') \<longleftrightarrow>
     (\<exists>b. xl_MarshalPKIXPublicKey lib k = Inr b \<and> WriteFile path (xl_pemEncode lib ''PUBLIC KEY'' b) mode_0600 fs = (None, fs'))"
  by (cases "xl_MarshalPKIXPublicKey lib k") (simp_all add: SavePublicKeyToPEM_def PublicKeyToPEM_def)

text \<open>
  C28: A private ECDSA key saved without an error is loaded from the file as the same key, and a public key likewise; no other file is
  changed. A new file of a private key can be read and written by its owner only, but a file that exists keeps its permissions,
  also when everybody may read it.
\<close>

theorem saved_keys_load:
  assumes "key_encodings lib"
    and "SaveKeysToPEM lib (ECDSAKey k) path fs = (None, fs1)"
    and "SavePublicKeyToPEM lib (ECDSAKey p) path2 fs1 = (None, fs2)"
    and "path2 \<noteq> path"
  shows "LoadKeysFromPEM lib fs2 path = (Some k, None) \<and> LoadPublicKeyFromPEM lib fs2 path2 = (Some p, None) \<and>
    (q \<in> {path, path2} \<or> ReadFile fs2 q = ReadFile fs q) \<and>
    map_option fl_mode (fs_files fs1 path) = Some (case fs_files fs path of None \<Rightarrow> mode_0600 | Some f \<Rightarrow> fl_mode f)"
proof -
  obtain b where b: "xl_MarshalPKCS8PrivateKey lib (ECDSAKey k) = Inr b"
      "WriteFile path (xl_pemEncode lib ''PRIVATE KEY'' b) mode_0600 fs = (None, fs1)"
    using assms(2) by (auto simp: SaveKeys_cases)
  obtain c where c: "xl_MarshalPKIXPublicKey lib (ECDSAKey p) = Inr c"
      "WriteFile path2 (xl_pemEncode lib ''PUBLIC KEY'' c) mode_0600 fs1 = (None, fs2)"
    using assms(3) by (auto simp: SavePublicKey_cases)
  note r = Read_Write [OF b(2)] Read_Write [OF c(2)]
  show ?thesis
    using assms(1,4) b(1) c(1) WriteFile_mode [OF b(2)]
    by (auto simp: LoadKeysFromPEM_def LoadPublicKeyFromPEM_def PrivateKeyFromPEM_def PublicKeyFromPEM_def r key_encodings_def)
qed

text \<open>
  Saving a TLS certificate and loading it again keeps the private key and the first certificate of the chain; the intermediate
  certificates are lost. A certificate without any panics.
\<close>

theorem saved_chain_is_cut:
  assumes "\<forall>der b. xl_MarshalPKCS8PrivateKey lib (tlc_PrivateKey cert) = Inr b \<longrightarrow>
      pair (xl_pemEncode lib ''CERTIFICATE'' der) (xl_pemEncode lib ''PRIVATE KEY'' b)
        = Inr \<lparr>tlc_Certificate = [der], tlc_PrivateKey = tlc_PrivateKey cert\<rparr>"
    and "SaveTLSCertToPEM lib cert certPath keyPath fs = Ret (None, fs')"
    and "certPath \<noteq> keyPath"
  shows "LoadTLSCertFromPEM pair fs' certPath keyPath
    = (Some \<lparr>tlc_Certificate = take 1 (tlc_Certificate cert), tlc_PrivateKey = tlc_PrivateKey cert\<rparr>, None)"
proof -
  obtain der rest where d: "tlc_Certificate cert = der # rest"
    using assms(2) by (cases "tlc_Certificate cert") (auto simp: SaveTLSCertToPEM_def)
  obtain fs1 where w: "WriteFile certPath (xl_pemEncode lib ''CERTIFICATE'' der) mode_0644 fs = (None, fs1)"
      "SaveKeysToPEM lib (tlc_PrivateKey cert) keyPath fs1 = (None, fs')"
    using assms(2) by (auto simp: SaveTLSCertToPEM_def d split: prod.splits option.splits)
  obtain b where b: "xl_MarshalPKCS8PrivateKey lib (tlc_PrivateKey cert) = Inr b"
      "WriteFile keyPath (xl_pemEncode lib ''PRIVATE KEY'' b) mode_0600 fs1 = (None, fs')"
    using w(2) by (auto simp: SaveKeys_cases)
  show ?thesis
    using assms(1,3) b(1) by (simp add: LoadTLSCertFromPEM_def LoadX509KeyPair_def Read_Write [OF b(2)] Read_Write [OF w(1)] d)
qed

section \<open>A library\<close>

text \<open>An instance of the library whose keys are texts: PEM blocks with the bytes in base64, and keys that encode themselves.\<close>

definition text_pem :: "string \<Rightarrow> string \<Rightarrow> string" where
  "text_pem t b = ''-----BEGIN '' @ t @ ''-----'' @ [CHR 0x0A] @ b64_encode b @ [CHR 0x0A] @ ''-----END '' @ t @ ''-----'' @ [CHR 0x0A]"

definition text_unpem :: "string \<Rightarrow> string option" where
  "text_unpem s =
     (case dropWhile (\<lambda>c. c \<noteq> CHR 0x0A) s of
        [] \<Rightarrow> None
      | _ # r \<Rightarrow> b64_decode (takeWhile (\<lambda>c. c \<noteq> CHR 0x0A) r))"

definition text_key :: "string \<Rightarrow> string any_key" where
  "text_key b = (case b of c # k \<Rightarrow> if c = CHR ''E'' then ECDSAKey k else OtherKey k | [] \<Rightarrow> OtherKey [])"

fun key_text :: "string any_key \<Rightarrow> error + string" where
  "key_text (ECDSAKey k) = Inr (CHR ''E'' # k)"
| "key_text (OtherKey k) = Inr (CHR ''O'' # k)"

definition text_lib :: "(string, string, string) x509_lib" where
  "text_lib =
     \<lparr>xl_pemDecode = text_unpem, xl_pemEncode = text_pem, xl_ParseCertificate = Inr, xl_Raw = id, xl_PublicKey = text_key,
      xl_ParsePKCS8PrivateKey = (\<lambda>b. Inr (text_key b)), xl_MarshalPKCS8PrivateKey = key_text,
      xl_ParsePKIXPublicKey = (\<lambda>b. Inr (text_key b)), xl_MarshalPKIXPublicKey = key_text\<rparr>"

lemma text_unpem_pem: "CHR 0x0A \<notin> set t \<Longrightarrow> text_unpem (text_pem t b) = Some b"
proof -
  assume t: "CHR 0x0A \<notin> set t"
  let ?r = "b64_encode b @ [CHR 0x0A] @ ''-----END '' @ t @ ''-----'' @ [CHR 0x0A]"
  have "dropWhile (\<lambda>c. c \<noteq> CHR 0x0A) ((''-----BEGIN '' @ t @ ''-----'') @ CHR 0x0A # ?r) = CHR 0x0A # ?r"
    using t by (subst dropWhile_append2) auto
  moreover have "takeWhile (\<lambda>c. c \<noteq> CHR 0x0A) ?r = b64_encode b"
    using b64_encode_plain [of _ b] by (simp add: takeWhile_append2)
  ultimately show ?thesis by (simp add: text_unpem_def text_pem_def)
qed

lemma text_key_text: "key_text k = Inr b \<Longrightarrow> text_key b = k"
  by (cases k) (auto simp: text_key_def)

lemma text_lib_encodings: "key_encodings text_lib"
  by (auto simp: key_encodings_def text_lib_def text_unpem_pem text_key_text)

definition empty_disk :: filesystem where
  "empty_disk = \<lparr>fs_files = Map.empty, fs_folders = (\<lambda>_. False), fs_writeError = (\<lambda>_. None)\<rparr>"

theorem saved_keys_load_witness:
  "LoadKeysFromPEM text_lib
     (snd (SavePublicKeyToPEM text_lib (ECDSAKey ''pub'') ''/p.pem'' (snd (SaveKeysToPEM text_lib (ECDSAKey ''priv'') ''/k.pem'' empty_disk))))
     ''/k.pem'' = (Some ''priv'', None)"
proof -
  let ?s1 = "SaveKeysToPEM text_lib (ECDSAKey ''priv'') ''/k.pem'' empty_disk"
  let ?s2 = "SavePublicKeyToPEM text_lib (ECDSAKey ''pub'') ''/p.pem'' (snd ?s1)"
  have 1: "?s1 = (None, snd ?s1)"
    by (simp add: SaveKeysToPEM_def text_lib_def WriteFile_def empty_disk_def)
  have 2: "?s2 = (None, snd ?s2)"
    by (simp add: SaveKeysToPEM_def SavePublicKeyToPEM_def PublicKeyToPEM_def text_lib_def WriteFile_def empty_disk_def)
  show ?thesis using saved_keys_load [OF text_lib_encodings 1 2] by simp
qed

theorem saved_chain_is_cut_witness:
  "\<exists>fs'. SaveTLSCertToPEM text_lib \<lparr>tlc_Certificate = [''leaf'', ''intermediate''], tlc_PrivateKey = ECDSAKey ''k''\<rparr> ''/c'' ''/k'' empty_disk
       = Ret (None, fs') \<and>
     LoadTLSCertFromPEM (\<lambda>c k. Inr \<lparr>tlc_Certificate = [the (text_unpem c)], tlc_PrivateKey = text_key (the (text_unpem k))\<rparr>) fs' ''/c'' ''/k''
       = (Some \<lparr>tlc_Certificate = [''leaf''], tlc_PrivateKey = ECDSAKey ''k''\<rparr>, None)"
proof -
  let ?cert = "\<lparr>tlc_Certificate = [''leaf'', ''intermediate''], tlc_PrivateKey = ECDSAKey ''k''\<rparr>"
  let ?pair = "\<lambda>c k. Inr \<lparr>tlc_Certificate = [the (text_unpem c)], tlc_PrivateKey = text_key (the (text_unpem k))\<rparr>"
  obtain fs' where fs': "SaveTLSCertToPEM text_lib ?cert ''/c'' ''/k'' empty_disk = Ret (None, fs')"
    by (simp add: SaveTLSCertToPEM_def SaveKeysToPEM_def text_lib_def WriteFile_def empty_disk_def)
  have "\<forall>der b. xl_MarshalPKCS8PrivateKey text_lib (tlc_PrivateKey ?cert) = Inr b \<longrightarrow>
      ?pair (xl_pemEncode text_lib ''CERTIFICATE'' der) (xl_pemEncode text_lib ''PRIVATE KEY'' b)
        = Inr \<lparr>tlc_Certificate = [der], tlc_PrivateKey = tlc_PrivateKey ?cert\<rparr>"
    by (auto simp: text_lib_def text_unpem_pem text_key_def)
  from saved_chain_is_cut [of text_lib ?cert ?pair, OF this fs'] fs' show ?thesis by simp
qed

end
