(* ===== verification/HubConfig.thy ===== *)
theory HubConfig
  imports YamlConfig CertsClient Hubnet
begin

text \<open>
  The configuration of the hub (\<open>pkg/config\<close>: HubConfig.go, LoadAllConfig.go): its defaults, loading it from file, making its paths
  absolute, loading its certificates, and checking its folders.

  The environment of the process is an argument: the file system, the decoder of YAML, the encodings of certificates, the path of the
  executable, the working directory, the flags of the command line, and the network (\<open>ce_dial\<close>, the local address of a connection). \<open>'x\<close> and \<open>'k\<close> are the types
  of certificates and private keys.
\<close>

section \<open>Data\<close>

record ('x, 'k) hub_config =
  hc_Address :: string
  hc_MqttPortCert :: int
  hc_MqttPortUnpw :: int
  hc_MqttPortWS :: int
  hc_MqttTimeout :: int
  hc_Zone :: string
  hc_Loglevel :: string
  hc_LogFolder :: string
  hc_LogFile :: string
  hc_HomeFolder :: string
  hc_BinFolder :: string
  hc_CertsFolder :: string
  hc_ConfigFolder :: string
  hc_KeepServerCertOnStartup :: bool
  hc_CaCertFile :: string
  hc_ClientCertFile :: string
  hc_ClientKeyFile :: string
  hc_PluginCertFile :: string
  hc_PluginKeyFile :: string
  hc_CaCert :: "'x option"
  hc_ClientCert :: "'k tls_certificate option"
  hc_PluginCert :: "'k tls_certificate option"

record ('x, 'k, 'p) config_env =
  ce_fs :: filesystem
  ce_lib :: "('x, 'k, 'p) x509_lib"
  ce_pair :: "'k key_pair"
  ce_unmarshal :: "('x, 'k) hub_config yaml_unmarshal"
  ce_executable :: string
  ce_cwd :: string
  ce_dial :: dial

definition DefaultHubConfigName :: string where "DefaultHubConfigName = ''hub.yaml''"
definition DefaultBinFolder :: string where "DefaultBinFolder = ''./bin''"
definition DefaultCertsFolder :: string where "DefaultCertsFolder = ''./certs''"
definition DefaultConfigFolder :: string where "DefaultConfigFolder = ''./config''"
definition DefaultLogFolder :: string where "DefaultLogFolder = ''./log''"
definition DefaultMqttPortUnpw :: int where "DefaultMqttPortUnpw = 8883"
definition DefaultMqttPortCert :: int where "DefaultMqttPortCert = 8884"
definition DefaultMqttPortWS :: int where "DefaultMqttPortWS = 8885"
definition DefaultCaCertFile :: string where "DefaultCaCertFile = ''caCert.pem''"
definition DefaultPluginCertFile :: string where "DefaultPluginCertFile = ''pluginCert.pem''"
definition DefaultPluginKeyFile :: string where "DefaultPluginKeyFile = ''pluginKey.pem''"

section \<open>Operations\<close>

definition CreateHubConfig :: "('x, 'k, 'p) config_env \<Rightarrow> string \<Rightarrow> ('x, 'k) hub_config" where
  "CreateHubConfig env homeFolder =
     (let binFolder = Dir (ce_executable env);
          homeFolder =
            (if homeFolder = [] then Dir binFolder
             else if \<not> IsAbs homeFolder then Join (ce_cwd env) homeFolder
             else homeFolder)
      in \<lparr>hc_Address = ip_string (GetOutboundIP (ce_dial env) []), hc_MqttPortCert = DefaultMqttPortCert, hc_MqttPortUnpw = DefaultMqttPortUnpw,
          hc_MqttPortWS = DefaultMqttPortWS, hc_MqttTimeout = 0, hc_Zone = ''local'', hc_Loglevel = ''warning'',
          hc_LogFolder = Join homeFolder DefaultLogFolder, hc_LogFile = [], hc_HomeFolder = homeFolder,
          hc_BinFolder = Join homeFolder DefaultBinFolder, hc_CertsFolder = Join homeFolder DefaultCertsFolder,
          hc_ConfigFolder = Join homeFolder DefaultConfigFolder, hc_KeepServerCertOnStartup = False, hc_CaCertFile = [],
          hc_ClientCertFile = [], hc_ClientKeyFile = [], hc_PluginCertFile = [], hc_PluginKeyFile = [],
          hc_CaCert = None, hc_ClientCert = None, hc_PluginCert = None\<rparr>)"

definition hub_keywords :: "string \<Rightarrow> ('x, 'k) hub_config \<Rightarrow> string \<rightharpoonup> string" where
  "hub_keywords clientID hubConfig =
     [''{clientID}'' \<mapsto> clientID, ''{homeFolder}'' \<mapsto> hc_HomeFolder hubConfig, ''{configFolder}'' \<mapsto> hc_ConfigFolder hubConfig,
      ''{logFolder}'' \<mapsto> hc_LogFolder hubConfig, ''{certsFolder}'' \<mapsto> hc_CertsFolder hubConfig]"

definition config_path :: "('x, 'k) hub_config \<Rightarrow> string \<Rightarrow> string" where
  "config_path hubConfig configFile =
     (if configFile = [] then Join (hc_ConfigFolder hubConfig) DefaultHubConfigName
      else if \<not> IsAbs configFile then Join (hc_ConfigFolder hubConfig) configFile
      else configFile)"

text \<open>A folder relative to another, and a file in a folder with its default name.\<close>

definition folder_in :: "string \<Rightarrow> string \<Rightarrow> string" where
  "folder_in home folder = (if \<not> IsAbs folder then Join home folder else folder)"

definition file_in :: "string \<Rightarrow> string \<Rightarrow> string \<Rightarrow> string" where
  "file_in folder defaultName name =
     (if name = [] then Join folder defaultName else if \<not> IsAbs name then Join folder name else name)"

text \<open>The client key is made absolute when the path of the client certificate is relative.\<close>

definition client_key_in :: "string \<Rightarrow> string \<Rightarrow> string \<Rightarrow> string \<Rightarrow> string" where
  "client_key_in folder defaultName certFile name =
     (if name = [] then Join folder defaultName else if \<not> IsAbs certFile then Join folder name else name)"

definition absolute_paths :: "string \<Rightarrow> ('x, 'k) hub_config \<Rightarrow> ('x, 'k) hub_config" where
  "absolute_paths clientID c =
     (let certs = folder_in (hc_HomeFolder c) (hc_CertsFolder c);
          log = folder_in (hc_HomeFolder c) (hc_LogFolder c);
          clientCert = file_in certs (clientID @ ''Cert.pem'') (hc_ClientCertFile c) in
      c\<lparr>hc_CertsFolder := certs, hc_LogFolder := log,
        hc_LogFile := file_in log (clientID @ ''.log'') (hc_LogFile c),
        hc_ConfigFolder := folder_in (hc_HomeFolder c) (hc_ConfigFolder c),
        hc_CaCertFile := file_in certs DefaultCaCertFile (hc_CaCertFile c),
        hc_PluginCertFile := file_in certs DefaultPluginCertFile (hc_PluginCertFile c),
        hc_PluginKeyFile := file_in certs DefaultPluginKeyFile (hc_PluginKeyFile c),
        hc_ClientCertFile := clientCert,
        hc_ClientKeyFile := client_key_in certs (clientID @ ''Key.pem'') clientCert (hc_ClientKeyFile c)\<rparr>)"

text \<open>The certificates are optional: an error leaves nil.\<close>

definition load_certificates :: "('x, 'k, 'p) config_env \<Rightarrow> ('x, 'k) hub_config \<Rightarrow> ('x, 'k) hub_config" where
  "load_certificates env c =
     c\<lparr>hc_CaCert := fst (LoadX509CertFromPEM (ce_lib env) (ce_fs env) (hc_CaCertFile c)),
       hc_ClientCert := fst (LoadTLSCertFromPEM (ce_pair env) (ce_fs env) (hc_ClientCertFile c) (hc_ClientKeyFile c)),
       hc_PluginCert := fst (LoadTLSCertFromPEM (ce_pair env) (ce_fs env) (hc_PluginCertFile c) (hc_PluginKeyFile c))\<rparr>"

definition stat_error :: "string \<Rightarrow> error" where
  "stat_error path = ''stat '' @ path @ '': no such file or directory''"

definition Validate :: "filesystem \<Rightarrow> ('x, 'k) hub_config \<Rightarrow> error option" where
  "Validate fs hubConfig =
     (if \<not> Exists fs (hc_HomeFolder hubConfig) then Some (stat_error (hc_HomeFolder hubConfig))
      else if \<not> Exists fs (hc_ConfigFolder hubConfig) then Some (stat_error (hc_ConfigFolder hubConfig))
      else if \<not> Exists fs (hc_LogFolder hubConfig) then Some (stat_error (hc_LogFolder hubConfig))
      else if \<not> Exists fs (hc_CertsFolder hubConfig) then Some (stat_error (hc_CertsFolder hubConfig))
      else None)"

text \<open>\<open>ks\<close> is the order in which the keywords are ranged over.\<close>

definition hub_Load ::
    "('x, 'k, 'p) config_env \<Rightarrow> string list \<Rightarrow> string \<Rightarrow> string \<Rightarrow> ('x, 'k) hub_config \<Rightarrow> error option \<times> ('x, 'k) hub_config" where
  "hub_Load env ks configFile clientID hubConfig =
     (case LoadYamlConfig (ce_unmarshal env) (ce_fs env) ks (config_path hubConfig configFile) (Some hubConfig)
             (Some (hub_keywords clientID hubConfig)) of
        (Some err, c) \<Rightarrow> (Some err, the c)
      | (None, c) \<Rightarrow>
          let c = load_certificates env (absolute_paths clientID (the c))
          in (Validate (ce_fs env) c, c))"

text \<open>The YAML text of the configuration, decoded into a map; both conversions are those of the library.\<close>

definition hub_AsMap ::
    "(('x, 'k) hub_config \<Rightarrow> string) \<Rightarrow> (string \<Rightarrow> string \<rightharpoonup> string) \<Rightarrow> ('x, 'k) hub_config \<Rightarrow> string \<rightharpoonup> string" where
  "hub_AsMap marshal unmarshalMap hubConfig = unmarshalMap (marshal hubConfig)"

section \<open>Loading everything\<close>

definition client_keywords :: "string \<Rightarrow> ('x, 'k) hub_config \<Rightarrow> string \<rightharpoonup> string" where
  "client_keywords clientID hubConfig =
     [''{clientID}'' \<mapsto> clientID, ''{homeFolder}'' \<mapsto> hc_HomeFolder hubConfig, ''{configFolder}'' \<mapsto> hc_ConfigFolder hubConfig,
      ''{logsFolder}'' \<mapsto> hc_LogFolder hubConfig, ''{certsFolder}'' \<mapsto> hc_CertsFolder hubConfig]"

text \<open>
  \<open>flags\<close> holds the values of the options -c and -a that \<open>flag.Parse\<close> finds on the command line of the process; the arguments given to the
  function are only compared with nil. \<open>ks1\<close> and \<open>ks2\<close> are the orders of the two maps of keywords.
\<close>

definition LoadAllConfig ::
    "('x, 'k, 'p) config_env \<Rightarrow> string option \<times> string option \<Rightarrow> string list \<Rightarrow> string list \<Rightarrow> 'a yaml_unmarshal \<Rightarrow>
      string list option \<Rightarrow> string \<Rightarrow> string \<Rightarrow> 'a option \<Rightarrow> ('x, 'k) hub_config \<times> error option \<times> 'a option" where
  "LoadAllConfig env flags ks1 ks2 unmarshal args homeFolder clientID clientConfig =
     (let hubConfigFile = DefaultHubConfigName;
          homeFolder = (if homeFolder = [] then Dir (Dir (ce_executable env)) else homeFolder);
          (hubConfigFile, homeFolder) =
            (case args of
               None \<Rightarrow> (hubConfigFile, homeFolder)
             | Some _ \<Rightarrow>
                 (case fst flags of None \<Rightarrow> hubConfigFile | Some c \<Rightarrow> c, case snd flags of None \<Rightarrow> homeFolder | Some a \<Rightarrow> a)) in
      case hub_Load env ks1 hubConfigFile clientID (CreateHubConfig env homeFolder) of
        (Some err, hubConfig) \<Rightarrow> (hubConfig, Some err, clientConfig)
      | (None, hubConfig) \<Rightarrow>
          (case clientConfig of
             None \<Rightarrow> (hubConfig, None, None)
           | Some c \<Rightarrow>
               let clientConfigFile = Join (hc_ConfigFolder hubConfig) (clientID @ ''.yaml'') in
               if \<not> Exists (ce_fs env) clientConfigFile then (hubConfig, None, Some c)
               else
                 (case LoadYamlConfig unmarshal (ce_fs env) ks2 clientConfigFile (Some c) (Some (client_keywords clientID hubConfig)) of
                    (err, c') \<Rightarrow> (hubConfig, err, c'))))"

section \<open>Paths after loading\<close>

lemma folder_in_abs [simp]: "IsAbs home \<Longrightarrow> IsAbs (folder_in home f)"
  by (simp add: folder_in_def)

lemma file_in_abs [simp]: "IsAbs folder \<Longrightarrow> IsAbs (file_in folder d name)"
  by (simp add: file_in_def)

lemma absolute_paths_abs:
  assumes "IsAbs (hc_HomeFolder c)"
  shows "list_all (\<lambda>f. IsAbs (f (absolute_paths clientID c)))
     [hc_CertsFolder, hc_LogFolder, hc_LogFile, hc_ConfigFolder, hc_CaCertFile, hc_PluginCertFile, hc_PluginKeyFile, hc_ClientCertFile]"
  using assms by (simp add: absolute_paths_def Let_def)

lemma hub_Load_ok:
  "LoadYamlConfig (ce_unmarshal env) (ce_fs env) ks (config_path c configFile) (Some c) (Some (hub_keywords clientID c)) = (None, Some c1) \<Longrightarrow>
     hub_Load env ks configFile clientID c =
       (let c2 = load_certificates env (absolute_paths clientID c1) in (Validate (ce_fs env) c2, c2))"
  by (simp add: hub_Load_def)

text \<open>
  C19: After a configuration file was read into a configuration that then has an absolute home folder, Load gives the folders of the certificates,
  the log and the configuration, the log file, and the files of the CA, plugin and client certificates and of the plugin key absolute
  paths, and returns nil exactly when the home folder and these three folders exist. It leaves the other paths as they were read, also relative
  ones: the home folder, the folder of the binaries, and the client key, for which the code tests the path of the client certificate, which is
  absolute by then; a client key that is not given gets a path in the folder of the certificates.
\<close>

theorem loaded_paths_absolute:
  assumes "LoadYamlConfig (ce_unmarshal env) (ce_fs env) ks (config_path c configFile) (Some c) (Some (hub_keywords clientID c)) = (None, Some c1)"
    and "IsAbs (hc_HomeFolder c1)"
    and "hub_Load env ks configFile clientID c = (err, c2)"
  shows "list_all (\<lambda>f. IsAbs (f c2))
      [hc_CertsFolder, hc_LogFolder, hc_LogFile, hc_ConfigFolder, hc_CaCertFile, hc_PluginCertFile, hc_PluginKeyFile, hc_ClientCertFile] \<and>
    (err = None \<longleftrightarrow> list_all (\<lambda>f. Exists (ce_fs env) (f c2)) [hc_HomeFolder, hc_ConfigFolder, hc_LogFolder, hc_CertsFolder]) \<and>
    hc_HomeFolder c2 = hc_HomeFolder c1 \<and> hc_BinFolder c2 = hc_BinFolder c1 \<and>
    hc_ClientKeyFile c2 = (if hc_ClientKeyFile c1 = [] then Join (hc_CertsFolder c2) (clientID @ ''Key.pem'') else hc_ClientKeyFile c1)"
proof -
  have c2: "c2 = load_certificates env (absolute_paths clientID c1)" "err = Validate (ce_fs env) c2"
    using hub_Load_ok [OF assms(1)] assms(3) by (simp_all add: Let_def)
  have "list_all (\<lambda>f. IsAbs (f c2))
      [hc_CertsFolder, hc_LogFolder, hc_LogFile, hc_ConfigFolder, hc_CaCertFile, hc_PluginCertFile, hc_PluginKeyFile, hc_ClientCertFile]"
    using absolute_paths_abs [OF assms(2), of clientID] by (simp add: c2(1) load_certificates_def)
  moreover have "err = None \<longleftrightarrow> list_all (\<lambda>f. Exists (ce_fs env) (f c2)) [hc_HomeFolder, hc_ConfigFolder, hc_LogFolder, hc_CertsFolder]"
    by (simp add: c2(2) Validate_def)
  moreover have "hc_ClientKeyFile c2 = (if hc_ClientKeyFile c1 = [] then Join (hc_CertsFolder c2) (clientID @ ''Key.pem'') else hc_ClientKeyFile c1)"
    using assms(2) by (simp add: c2(1) load_certificates_def absolute_paths_def Let_def client_key_in_def)
  moreover have "hc_HomeFolder c2 = hc_HomeFolder c1" "hc_BinFolder c2 = hc_BinFolder c1"
    by (simp_all add: c2(1) load_certificates_def absolute_paths_def Let_def)
  ultimately show ?thesis by blast
qed

text \<open>A disk with a home folder and a configuration file, whose decoder sets the client key when the text asks for it.\<close>

definition wost_disk :: filesystem where
  "wost_disk =
     \<lparr>fs_files = [''/opt/wost/config/hub.yaml'' \<mapsto> \<lparr>fl_content = ''clientKeyFile: my.key'', fl_mode = 420\<rparr>],
      fs_folders = (\<lambda>p. p \<in> {''/opt/wost'', ''/opt/wost/config'', ''/opt/wost/log'', ''/opt/wost/certs''}),
      fs_writeError = (\<lambda>_. None)\<rparr>"

definition wost_env :: "(string, string, string) config_env" where
  "wost_env =
     \<lparr>ce_fs = wost_disk, ce_lib = text_lib, ce_pair = (\<lambda>_ _. Inl ''no key pair''),
      ce_unmarshal = (\<lambda>text c. (None, if text = ''clientKeyFile: my.key'' then c\<lparr>hc_ClientKeyFile := ''my.key''\<rparr> else c)),
      ce_executable = ''/opt/wost/bin/hub'', ce_cwd = ''/'', ce_dial = (\<lambda>_. Inr [10, 0, 0, 1])\<rparr>"

definition hub_order :: "string list" where
  "hub_order = [''{clientID}'', ''{homeFolder}'', ''{configFolder}'', ''{logFolder}'', ''{certsFolder}'']"

lemma hub_order: "range_order (hub_keywords clientID c) hub_order"
  by (auto simp: range_order_def hub_keywords_def hub_order_def split: if_splits)

lemma wost_text: "SubstituteText hub_order m ''clientKeyFile: my.key'' = ''clientKeyFile: my.key''"
  by (rule substitute_no_brace) (simp_all add: hub_order_def)

lemma wost_home: "''/opt/wost'' = abs_path [''opt'', ''wost'']" "list_all plain_name [''opt'', ''wost'']"
  by (simp_all add: abs_path_def plain_name_def)

lemma plain_folders: "plain_name ''certs''" "plain_name ''config''" "plain_name ''log''" "plain_name ''bin''"
  by (simp_all add: plain_name_def)

lemma wost_folders:
  "Join ''/opt/wost'' DefaultConfigFolder = ''/opt/wost/config''" "Join ''/opt/wost'' DefaultLogFolder = ''/opt/wost/log''"
  "Join ''/opt/wost'' DefaultCertsFolder = ''/opt/wost/certs''"
  using Join_dot_plain [OF wost_home(2), of "''config''"] Join_dot_plain [OF wost_home(2), of "''log''"]
    Join_dot_plain [OF wost_home(2), of "''certs''"] plain_folders
  by (simp_all add: DefaultConfigFolder_def DefaultLogFolder_def DefaultCertsFolder_def abs_path_def)

theorem loaded_paths_absolute_witness:
  "hc_ClientKeyFile (snd (hub_Load wost_env hub_order ''/opt/wost/config/hub.yaml'' ''p1'' (CreateHubConfig wost_env ''/opt/wost''))) = ''my.key''"
proof -
  let ?c = "CreateHubConfig wost_env ''/opt/wost''"
  let ?c1 = "?c\<lparr>hc_ClientKeyFile := ''my.key''\<rparr>"
  have 1: "LoadYamlConfig (ce_unmarshal wost_env) (ce_fs wost_env) hub_order (config_path ?c ''/opt/wost/config/hub.yaml'') (Some ?c)
      (Some (hub_keywords ''p1'' ?c)) = (None, Some ?c1)"
    by (simp add: LoadYamlConfig_def config_path_def ReadFile_def wost_env_def wost_disk_def wost_text)
  have 2: "IsAbs (hc_HomeFolder ?c1)" by (simp add: CreateHubConfig_def Let_def)
  have 3: "hub_Load wost_env hub_order ''/opt/wost/config/hub.yaml'' ''p1'' ?c
      = (fst (hub_Load wost_env hub_order ''/opt/wost/config/hub.yaml'' ''p1'' ?c), snd (hub_Load wost_env hub_order ''/opt/wost/config/hub.yaml'' ''p1'' ?c))"
    by simp
  from loaded_paths_absolute [OF 1 2 3] show ?thesis by simp
qed

section \<open>The defaults\<close>

text \<open>
  With an absolute home folder of plain names and a configuration file that leaves the defaults alone, Load
  fills in the paths below the home folder: the folders bin, certs, config and log, the log file and the client certificate and key named
  after the client, the CA and plugin certificates.
\<close>

theorem default_paths:
  assumes "list_all plain_name ps" and "ps \<noteq> []" and "plain_name (clientID @ ''.log'')" and "CHR ''/'' \<notin> set clientID"
    and "LoadYamlConfig (ce_unmarshal env) (ce_fs env) ks (config_path c configFile) (Some c) (Some (hub_keywords clientID c)) = (None, Some c)"
    and "c = CreateHubConfig env (abs_path ps)"
    and "hub_Load env ks configFile clientID c = (err, c2)"
  shows "hc_BinFolder c2 = abs_path (ps @ [''bin'']) \<and> hc_ConfigFolder c2 = abs_path (ps @ [''config'']) \<and>
    hc_LogFile c2 = abs_path (ps @ [''log'', clientID @ ''.log'']) \<and>
    hc_CaCertFile c2 = abs_path (ps @ [''certs'', ''caCert.pem'']) \<and>
    hc_PluginCertFile c2 = abs_path (ps @ [''certs'', ''pluginCert.pem'']) \<and>
    hc_ClientCertFile c2 = abs_path (ps @ [''certs'', clientID @ ''Cert.pem'']) \<and>
    hc_ClientKeyFile c2 = abs_path (ps @ [''certs'', clientID @ ''Key.pem''])"
proof -
  have c2: "c2 = load_certificates env (absolute_paths clientID c)"
    using hub_Load_ok [OF assms(5)] assms(7) by (simp add: Let_def)
  have j: "Join (abs_path ps) (''./'' @ n) = abs_path (ps @ [n])" if "plain_name n" for n
    using Join_dot_plain [OF assms(1,2) that] .
  have k: "Join (abs_path (ps @ [d])) n = abs_path (ps @ [d, n])" if "plain_name d" "plain_name n" for d n
    using Join_plain [of "ps @ [d]" n] assms(1) that by simp
  have names: "plain_name (clientID @ ''Cert.pem'')" "plain_name (clientID @ ''Key.pem'')" "plain_name ''caCert.pem''"
      "plain_name ''pluginCert.pem''"
    using assms(4) by (auto simp: plain_name_def append_eq_Cons_conv)
  have folders: "Join (abs_path ps) DefaultCertsFolder = abs_path (ps @ [''certs''])" "Join (abs_path ps) DefaultConfigFolder = abs_path (ps @ [''config''])"
      "Join (abs_path ps) DefaultLogFolder = abs_path (ps @ [''log''])" "Join (abs_path ps) DefaultBinFolder = abs_path (ps @ [''bin''])"
    using j [of "''certs''"] j [of "''config''"] j [of "''log''"] j [of "''bin''"] plain_folders
    by (simp_all add: DefaultCertsFolder_def DefaultConfigFolder_def DefaultLogFolder_def DefaultBinFolder_def)
  have ne: "abs_path qs \<noteq> []" for qs by (simp add: abs_path_def)
  show ?thesis
    by (simp add: c2 load_certificates_def absolute_paths_def Let_def assms(6) CreateHubConfig_def folders folder_in_def
        file_in_def client_key_in_def k names plain_folders assms(3) DefaultCaCertFile_def DefaultPluginCertFile_def ne)
qed

definition plain_env :: "(string, string, string) config_env" where
  "plain_env = wost_env\<lparr>ce_unmarshal := (\<lambda>text c. (None, c))\<rparr>"

theorem default_paths_witness:
  "hc_LogFile (snd (hub_Load plain_env hub_order ''/opt/wost/config/hub.yaml'' ''p1'' (CreateHubConfig plain_env ''/opt/wost''))) = ''/opt/wost/log/p1.log''"
proof -
  let ?c = "CreateHubConfig plain_env ''/opt/wost''"
  have 1: "LoadYamlConfig (ce_unmarshal plain_env) (ce_fs plain_env) hub_order (config_path ?c ''/opt/wost/config/hub.yaml'') (Some ?c)
      (Some (hub_keywords ''p1'' ?c)) = (None, Some ?c)"
    by (simp add: LoadYamlConfig_def config_path_def ReadFile_def plain_env_def wost_env_def wost_disk_def wost_text)
  have 2: "plain_name (''p1'' @ ''.log'')" "CHR ''/'' \<notin> set ''p1''" by (simp_all add: plain_name_def)
  have 3: "hub_Load plain_env hub_order ''/opt/wost/config/hub.yaml'' ''p1'' ?c
      = (fst (hub_Load plain_env hub_order ''/opt/wost/config/hub.yaml'' ''p1'' ?c), snd (hub_Load plain_env hub_order ''/opt/wost/config/hub.yaml'' ''p1'' ?c))"
    by simp
  from default_paths [OF wost_home(2) _ 2 1 _ 3] show ?thesis by (simp add: wost_home(1) [symmetric]) (simp add: abs_path_def)
qed

text \<open>
  The address of the hub is the text of the outbound address; a machine that can not reach the default destination gets the text
  of the nil address, not an empty one.
\<close>

lemma default_address:
  "hc_Address (CreateHubConfig env homeFolder) =
     (case ce_dial env ''1.1.1.1:80'' of Inl err \<Rightarrow> ''<nil>'' | Inr ip \<Rightarrow> ip_string ip)"
  by (simp add: CreateHubConfig_def Let_def GetOutboundIP_def ip_string_def split: sum.split)

section \<open>Keywords\<close>

text \<open>
  The keyword of the log folder differs between the two files: \<open>{logFolder}\<close> is replaced in the configuration of the hub, but stays as
  it is in that of the client, where the word is \<open>{logsFolder}\<close>; this holds when the values have no opening brace.
\<close>

theorem log_keyword_differs:
  assumes "plain_map (hub_keywords clientID c)" and "plain_map (client_keywords clientID c)"
    and "range_order (hub_keywords clientID c) ks1" and "range_order (client_keywords clientID c) ks2"
  shows "SubstituteText ks1 (hub_keywords clientID c) ''{logFolder}/x.log'' = hc_LogFolder c @ ''/x.log'' \<and>
    SubstituteText ks2 (client_keywords clientID c) ''{logFolder}/x.log'' = ''{logFolder}/x.log''"
proof -
  let ?ps = "[Keyword ''logFolder'', Plain ''/x.log'']"
  have ps: "list_all segment_ok ?ps" by (simp add: brace_free_def)
  show ?thesis
    using substitute_all [OF assms(1) ps assms(3)] substitute_all [OF assms(2) ps assms(4)]
    by (simp add: braced_def hub_keywords_def client_keywords_def)
qed

theorem log_keyword_differs_witness:
  "SubstituteText [''{clientID}'', ''{homeFolder}'', ''{configFolder}'', ''{logsFolder}'', ''{certsFolder}'']
     (client_keywords ''p1'' (CreateHubConfig wost_env ''/opt/wost'')) ''{logFolder}/x.log'' = ''{logFolder}/x.log''"
proof -
  let ?c = "CreateHubConfig wost_env ''/opt/wost''"
  have b: "brace_free ''clientID''" "brace_free ''homeFolder''" "brace_free ''configFolder''" "brace_free ''logFolder''"
      "brace_free ''logsFolder''" "brace_free ''certsFolder''" by (simp_all add: brace_free_def)
  have v: "hc_HomeFolder ?c = ''/opt/wost''" "hc_ConfigFolder ?c = ''/opt/wost/config''" "hc_LogFolder ?c = ''/opt/wost/log''"
      "hc_CertsFolder ?c = ''/opt/wost/certs''"
    by (simp_all add: CreateHubConfig_def Let_def wost_folders)
  have p: "plain_map [braced a \<mapsto> v1, braced b \<mapsto> v2, braced c \<mapsto> v3, braced d \<mapsto> v4, braced e \<mapsto> v5]"
    if "brace_free a" "brace_free b" "brace_free c" "brace_free d" "brace_free e"
      "CHR ''{'' \<notin> set v1" "CHR ''{'' \<notin> set v2" "CHR ''{'' \<notin> set v3" "CHR ''{'' \<notin> set v4" "CHR ''{'' \<notin> set v5"
    for a b c d e v1 v2 v3 v4 v5
    unfolding plain_map_def using that by (auto split: if_splits)
  have 1: "plain_map (hub_keywords ''p1'' ?c)"
    using p [of "''clientID''" "''homeFolder''" "''configFolder''" "''logFolder''" "''certsFolder''"] b
    by (simp add: hub_keywords_def v braced_def)
  have 2: "plain_map (client_keywords ''p1'' ?c)"
    using p [of "''clientID''" "''homeFolder''" "''configFolder''" "''logsFolder''" "''certsFolder''"] b
    by (simp add: client_keywords_def v braced_def)
  have 3: "range_order (hub_keywords ''p1'' ?c) hub_order" by (rule hub_order)
  have 4: "range_order (client_keywords ''p1'' ?c) [''{clientID}'', ''{homeFolder}'', ''{configFolder}'', ''{logsFolder}'', ''{certsFolder}'']"
    by (auto simp: range_order_def client_keywords_def split: if_splits)
  from log_keyword_differs [OF 1 2 3 4] show ?thesis by blast
qed

end
