(* ===== verification/Signing.thy ===== *)
theory Signing
  imports Base64
begin

text \<open>
  Signing and encrypting messages (\<open>pkg/signing\<close>): ECDSA signatures, JWS messages, JWE encryption, and the verification of
  a message with the key of its sender.

  The cryptography is that of the standard library and of the JOSE package; it is an argument, collected in a record.
  \<open>'k\<close> and \<open>'p\<close> are the types of private and public keys, \<open>'w\<close> of a parsed JWS message, \<open>'e\<close> of a parsed JWE message. The
  object a message is decoded into is a struct of the application: its type \<open>'o\<close>, how JSON text is decoded into it, and its fields Sender and Address,
  if it has them, are arguments.
\<close>

section \<open>Data\<close>

record ('k, 'p, 'w, 'e) crypto =
  cr_Sum256 :: "string \<Rightarrow> string"
  cr_ecdsaSign :: "'k \<Rightarrow> string \<Rightarrow> error + int \<times> int"
  cr_ecdsaVerify :: "'p \<Rightarrow> string \<Rightarrow> int \<Rightarrow> int \<Rightarrow> bool"
  cr_asn1Marshal :: "int \<times> int \<Rightarrow> error + string"
  cr_asn1Unmarshal :: "string \<Rightarrow> error + int \<times> int"
  cr_newSigner :: "'k option \<Rightarrow> error option"
  cr_jwsSign :: "'k option \<Rightarrow> string \<Rightarrow> error + 'w"
  cr_jwsSerialize :: "'w \<Rightarrow> string \<times> error option"
  cr_ParseSigned :: "string \<Rightarrow> error + 'w"
  cr_Payload :: "'w \<Rightarrow> string"
  cr_jwsVerify :: "'p \<Rightarrow> 'w \<Rightarrow> string \<times> error option"
  cr_newEncrypter :: "'p option \<Rightarrow> error option"
  cr_jweEncrypt :: "'p option \<Rightarrow> string \<Rightarrow> error + 'e"
  cr_jweSerialize :: "'e \<Rightarrow> string"
  cr_ParseEncrypted :: "string \<Rightarrow> error + 'e"
  cr_Decrypt :: "'k option \<Rightarrow> 'e \<Rightarrow> string \<times> error option"

text \<open>The struct a message is decoded into: decoding may change it even when it returns an error.\<close>

record 'o object_type =
  ot_unmarshal :: "string \<Rightarrow> 'o \<Rightarrow> error option \<times> 'o"
  ot_Sender :: "'o \<Rightarrow> string option"
  ot_Address :: "'o \<Rightarrow> string option"

record ('k, 'p) message_signer =
  ms_GetPublicKey :: "(string \<Rightarrow> 'p option) option"
  ms_privateKey :: "'k option"

section \<open>ECDSA signatures\<close>

text \<open>The alphabet of \<open>base64.URLEncoding\<close>.\<close>

definition url_char :: "char \<Rightarrow> char" where
  "url_char c = (if c = CHR ''+'' then CHR ''-'' else if c = CHR ''/'' then CHR ''_'' else c)"

definition std_char :: "char \<Rightarrow> char option" where
  "std_char c =
     (if c = CHR ''-'' then Some CHR ''+'' else if c = CHR ''_'' then Some CHR ''/''
      else if c = CHR ''+'' \<or> c = CHR ''/'' then None else Some c)"

definition b64url_encode :: "string \<Rightarrow> string" where
  "b64url_encode s = List.map url_char (b64_encode s)"

definition b64url_decode :: "string \<Rightarrow> string option" where
  "b64url_decode s = (case those (List.map std_char s) of None \<Rightarrow> None | Some t \<Rightarrow> b64_decode t)"

definition CreateEcdsaSignature :: "('k, 'p, 'w, 'e) crypto \<Rightarrow> string \<Rightarrow> 'k option \<Rightarrow> string" where
  "CreateEcdsaSignature cr payload privateKey =
     (case privateKey of
        None \<Rightarrow> []
      | Some k \<Rightarrow>
          (case cr_ecdsaSign cr k (cr_Sum256 cr payload) of
             Inl err \<Rightarrow> []
           | Inr rs \<Rightarrow> (case cr_asn1Marshal cr rs of Inl err \<Rightarrow> [] | Inr sig \<Rightarrow> b64url_encode sig)))"

definition VerifyEcdsaSignature :: "('k, 'p, 'w, 'e) crypto \<Rightarrow> string \<Rightarrow> string \<Rightarrow> 'p option \<Rightarrow> error option" where
  "VerifyEcdsaSignature cr payload signatureB64urlEncoded publicKey =
     (case publicKey of
        None \<Rightarrow> Some ''VerifyEcdsaSignature: publicKey is nil''
      | Some p \<Rightarrow>
          (case b64url_decode signatureB64urlEncoded of
             None \<Rightarrow> Some ''VerifyEcdsaSignature: Invalid signature''
           | Some signature \<Rightarrow>
               (case cr_asn1Unmarshal cr signature of
                  Inl err \<Rightarrow> Some ''VerifyEcdsaSignature: Payload is not ASN''
                | Inr (r, s) \<Rightarrow>
                    if \<not> cr_ecdsaVerify cr p (cr_Sum256 cr payload) r s
                    then Some ''VerifyEcdsaSignature: Signature does not match payload''
                    else None)))"

section \<open>JWS and JWE\<close>

definition CreateJWSSignature :: "('k, 'p, 'w, 'e) crypto \<Rightarrow> string \<Rightarrow> 'k option \<Rightarrow> string \<times> error option" where
  "CreateJWSSignature cr payload privateKey =
     (case cr_newSigner cr privateKey of
        Some err \<Rightarrow> ([], Some err)
      | None \<Rightarrow>
          (case cr_jwsSign cr privateKey payload of
             Inl err \<Rightarrow> ([], Some err)
           | Inr signedObject \<Rightarrow> cr_jwsSerialize cr signedObject))"

definition VerifyJWSMessage :: "('k, 'p, 'w, 'e) crypto \<Rightarrow> string \<Rightarrow> 'p option \<Rightarrow> string \<times> error option" where
  "VerifyJWSMessage cr message publicKey =
     (case publicKey of
        None \<Rightarrow> ([], Some ''VerifyJWSMessage: public key is nil'')
      | Some p \<Rightarrow>
          (case cr_ParseSigned cr message of
             Inl err \<Rightarrow> ([], Some err)
           | Inr jwsSignature \<Rightarrow> cr_jwsVerify cr p jwsSignature))"

text \<open>The result is the flag that the message was signed, the error, and the object as decoding left it.\<close>

definition VerifySenderJWSSignature ::
    "('k, 'p, 'w, 'e) crypto \<Rightarrow> 'o object_type \<Rightarrow> string \<Rightarrow> 'o \<Rightarrow> (string \<Rightarrow> 'p option) option \<Rightarrow> bool \<times> error option \<times> 'o" where
  "VerifySenderJWSSignature cr ot rawMessage object getPublicKey =
     (case cr_ParseSigned cr rawMessage of
        Inl err \<Rightarrow> (case ot_unmarshal ot rawMessage object of (err, object) \<Rightarrow> (False, err, object))
      | Inr jwsSignature \<Rightarrow>
          (case ot_unmarshal ot (cr_Payload cr jwsSignature) object of
             (Some err, object) \<Rightarrow>
               (True, Some (''VerifySenderSignature: Signature okay but message unmarshal failed: '' @ err), object)
           | (None, object) \<Rightarrow>
               (case (case ot_Sender ot object of Some s \<Rightarrow> Some s | None \<Rightarrow> ot_Address ot object) of
                  None \<Rightarrow> (True, Some ''VerifySenderJWSSignature: object doesn't have a Sender or Address field'', object)
                | Some sender \<Rightarrow>
                    if sender = [] then
                      (True, Some ''VerifySenderJWSSignature: Missing sender or address information in message'', object)
                    else
                      (case getPublicKey of
                         None \<Rightarrow> (True, None, object)
                       | Some get \<Rightarrow>
                           (case get sender of
                              None \<Rightarrow> (True, Some (''VerifySenderJWSSignature: No public key available for sender '' @ sender), object)
                            | Some publicKey \<Rightarrow>
                                (case cr_jwsVerify cr publicKey jwsSignature of
                                   (_, Some err) \<Rightarrow>
                                     (True, Some (''VerifySenderJWSSignature: message signature from '' @ sender @
                                        '' fails to verify with its public key''), object)
                                 | (_, None) \<Rightarrow> (True, None, object)))))))"

definition DecryptMessage :: "('k, 'p, 'w, 'e) crypto \<Rightarrow> string \<Rightarrow> 'k option \<Rightarrow> string \<times> bool \<times> error option" where
  "DecryptMessage cr serialized privateKey =
     (case cr_ParseEncrypted cr serialized of
        Inr decrypter \<Rightarrow> (case cr_Decrypt cr privateKey decrypter of (dmessage, err) \<Rightarrow> (dmessage, True, err))
      | Inl err \<Rightarrow> (serialized, False, Some err))"

definition EncryptMessage :: "('k, 'p, 'w, 'e) crypto \<Rightarrow> string \<Rightarrow> 'p option \<Rightarrow> string \<times> error option" where
  "EncryptMessage cr message publicKey =
     (case cr_newEncrypter cr publicKey of
        Some err \<Rightarrow> (message, Some err)
      | None \<Rightarrow>
          (case cr_jweEncrypt cr publicKey message of
             Inl err \<Rightarrow> (message, Some err)
           | Inr jwe \<Rightarrow> (cr_jweSerialize cr jwe, None)))"

definition SignAndEncrypt ::
    "('k, 'p, 'w, 'e) crypto \<Rightarrow> string \<Rightarrow> 'k option \<Rightarrow> 'p option \<Rightarrow> string \<times> error option" where
  "SignAndEncrypt cr payload myPrivateKey publicKey =
     (case CreateJWSSignature cr payload myPrivateKey of
        (message, Some err) \<Rightarrow> ([], Some err)
      | (message, None) \<Rightarrow> EncryptMessage cr message publicKey)"

section \<open>The signer\<close>

definition DecodeMessage ::
    "('k, 'p, 'w, 'e) crypto \<Rightarrow> 'o object_type \<Rightarrow> ('k, 'p) message_signer \<Rightarrow> string \<Rightarrow> 'o \<Rightarrow> bool \<times> bool \<times> error option \<times> 'o" where
  "DecodeMessage cr ot signer rawMessage object =
     (case DecryptMessage cr rawMessage (ms_privateKey signer) of
        (dmessage, isEncrypted, Some err) \<Rightarrow> (False, False, Some err, object)
      | (dmessage, isEncrypted, None) \<Rightarrow>
          (case VerifySenderJWSSignature cr ot dmessage object (ms_GetPublicKey signer) of
             (isSigned, err, object) \<Rightarrow> (isEncrypted, isSigned, err, object)))"

definition VerifySignedMessage ::
    "('k, 'p, 'w, 'e) crypto \<Rightarrow> 'o object_type \<Rightarrow> ('k, 'p) message_signer \<Rightarrow> string \<Rightarrow> 'o \<Rightarrow> bool \<times> error option \<times> 'o" where
  "VerifySignedMessage cr ot signer rawMessage object =
     VerifySenderJWSSignature cr ot rawMessage object (ms_GetPublicKey signer)"

section \<open>Properties\<close>

lemma std_url: "x \<noteq> CHR ''-'' \<Longrightarrow> x \<noteq> CHR ''_'' \<Longrightarrow> std_char (url_char x) = Some x"
  by (simp add: std_char_def url_char_def)

lemma b64_char_std: "n < 64 \<Longrightarrow> b64_char n \<noteq> CHR ''-''" "n < 64 \<Longrightarrow> b64_char n \<noteq> CHR ''_''"
proof -
  have *: "b64_char n \<noteq> c" if "n < 64" "b64_val c = None" for c
    using b64_val_char [OF that(1)] that(2) by auto
  show "n < 64 \<Longrightarrow> b64_char n \<noteq> CHR ''-''" "n < 64 \<Longrightarrow> b64_char n \<noteq> CHR ''_''"
    by (erule *, simp add: b64_val_def)+
qed

lemma b64_encode_std: "x \<in> set (b64_encode s) \<Longrightarrow> x \<noteq> CHR ''-'' \<and> x \<noteq> CHR ''_''"
  by (induction s rule: b64_encode.induct) (auto simp: b64_char_std)

lemma b64url_decode_encode [simp]: "b64url_decode (b64url_encode s) = Some s"
proof -
  have "List.map (std_char \<circ> url_char) (b64_encode s) = List.map Some (b64_encode s)"
    using b64_encode_std [of _ s] by (auto simp: std_url)
  moreover have "those (List.map Some xs) = Some xs" for xs :: string by (induction xs) simp_all
  ultimately have "those (List.map (std_char \<circ> url_char) (b64_encode s)) = Some (b64_encode s)" by (simp only:)
  then show ?thesis by (simp add: b64url_decode_def b64url_encode_def)
qed

text \<open>
  The documented behaviour of the libraries: encodings can be decoded, what is signed with a private key verifies with its public key,
  and what is encrypted for a public key is decrypted with the private key.
\<close>

definition ecdsa_laws :: "('k, 'p, 'w, 'e) crypto \<Rightarrow> 'k \<Rightarrow> 'p \<Rightarrow> bool" where
  "ecdsa_laws cr k p \<longleftrightarrow>
     (\<forall>h r s. cr_ecdsaSign cr k h = Inr (r, s) \<longrightarrow> cr_ecdsaVerify cr p h r s) \<and>
     (\<forall>rs b. cr_asn1Marshal cr rs = Inr b \<longrightarrow> cr_asn1Unmarshal cr b = Inr rs)"

definition jws_laws :: "('k, 'p, 'w, 'e) crypto \<Rightarrow> 'k \<Rightarrow> 'p \<Rightarrow> bool" where
  "jws_laws cr k p \<longleftrightarrow>
     (\<forall>m w t. cr_jwsSign cr (Some k) m = Inr w \<and> cr_jwsSerialize cr w = (t, None) \<longrightarrow>
        cr_ParseSigned cr t = Inr w \<and> cr_Payload cr w = m \<and> cr_jwsVerify cr p w = (m, None))"

definition jwe_laws :: "('k, 'p, 'w, 'e) crypto \<Rightarrow> 'k \<Rightarrow> 'p \<Rightarrow> bool" where
  "jwe_laws cr k p \<longleftrightarrow>
     (\<forall>m e. cr_jweEncrypt cr (Some p) m = Inr e \<longrightarrow>
        cr_ParseEncrypted cr (cr_jweSerialize cr e) = Inr e \<and> cr_Decrypt cr (Some k) e = (m, None))"

lemma CreateJWS_cases:
  "CreateJWSSignature cr payload k = (t, None) \<longleftrightarrow>
     cr_newSigner cr k = None \<and> (\<exists>w. cr_jwsSign cr k payload = Inr w \<and> cr_jwsSerialize cr w = (t, None))"
  by (auto simp: CreateJWSSignature_def split: option.splits sum.splits)

lemma Encrypt_cases:
  "EncryptMessage cr m p = (t, None) \<longleftrightarrow>
     cr_newEncrypter cr p = None \<and> (\<exists>e. cr_jweEncrypt cr p m = Inr e \<and> t = cr_jweSerialize cr e)"
  by (auto simp: EncryptMessage_def split: option.splits sum.splits)

text \<open>
  A signature made with a private key verifies with its public key for the same payload, unless making it failed, in which case the
  signature is the empty text.
\<close>

theorem ecdsa_signature_verifies:
  assumes "ecdsa_laws cr k p"
    and "CreateEcdsaSignature cr payload (Some k) = sig" and "sig \<noteq> []"
  shows "VerifyEcdsaSignature cr payload sig (Some p) = None"
proof -
  obtain r s b where "cr_ecdsaSign cr k (cr_Sum256 cr payload) = Inr (r, s)" "cr_asn1Marshal cr (r, s) = Inr b" "sig = b64url_encode b"
    using assms(2,3) by (auto simp: CreateEcdsaSignature_def split: sum.splits)
  with assms(1) show ?thesis by (auto simp: VerifyEcdsaSignature_def ecdsa_laws_def)
qed

text \<open>
  C15: What SignAndEncrypt makes of a payload, DecodeMessage of the receiver decodes: the message is reported as encrypted and signed,
  without an error, and the object is the one the payload decodes to, when it names a sender whose key is the signer's.
\<close>

theorem signed_message_decodes:
  assumes "jws_laws cr k p" and "jwe_laws cr k2 p2"
    and "SignAndEncrypt cr payload (Some k) (Some p2) = (message, None)"
    and "ot_unmarshal ot payload object = (None, object')"
    and "ot_Sender ot object' = Some sender" and "sender \<noteq> []" and "get sender = Some p"
  shows "DecodeMessage cr ot \<lparr>ms_GetPublicKey = Some get, ms_privateKey = Some k2\<rparr> message object = (True, True, None, object')"
proof -
  obtain m where m: "CreateJWSSignature cr payload (Some k) = (m, None)" "EncryptMessage cr m (Some p2) = (message, None)"
    using assms(3) by (auto simp: SignAndEncrypt_def split: prod.splits option.splits)
  obtain w where w: "cr_jwsSign cr (Some k) payload = Inr w" "cr_jwsSerialize cr w = (m, None)"
    using m(1) by (auto simp: CreateJWS_cases)
  obtain e where e: "cr_jweEncrypt cr (Some p2) m = Inr e" "message = cr_jweSerialize cr e"
    using m(2) by (auto simp: Encrypt_cases)
  have d: "DecryptMessage cr message (Some k2) = (m, True, None)"
    using assms(2) e by (simp add: DecryptMessage_def jwe_laws_def)
  have s: "cr_ParseSigned cr m = Inr w" "cr_Payload cr w = payload" "cr_jwsVerify cr p w = (payload, None)"
    using assms(1) w by (auto simp: jws_laws_def)
  then have "VerifySenderJWSSignature cr ot m object (Some get) = (True, None, object')"
    using assms(4-7) by (simp add: VerifySenderJWSSignature_def)
  with d show ?thesis by (simp add: DecodeMessage_def)
qed

text \<open>
  DecodeMessage refuses every message that is not encrypted: the error with which parsing it as an encrypted message failed is
  returned, and the object is left alone. A message it decodes without an error is encrypted, though not always signed.
\<close>

theorem decoded_messages_encrypted:
  "case DecodeMessage cr ot signer rawMessage object of (isEncrypted, isSigned, err, object') \<Rightarrow>
     (case cr_ParseEncrypted cr rawMessage of
        Inl e \<Rightarrow> \<not> isEncrypted \<and> \<not> isSigned \<and> err = Some e \<and> object' = object
      | Inr _ \<Rightarrow> isEncrypted \<or> err = snd (snd (DecryptMessage cr rawMessage (ms_privateKey signer))) \<and> object' = object)"
  by (auto simp: DecodeMessage_def DecryptMessage_def split: sum.splits prod.splits option.splits)

text \<open>
  C33: A signed message whose signature does not verify is reported with an error, but the object already holds the payload that failed to
  verify. A message that is no signed message is decoded without any check and reported as not signed, without an error; and
  without a function that finds keys every signature is accepted.
\<close>

theorem unverified_payload_decoded:
  assumes "ot_unmarshal ot (cr_Payload cr w) object = (None, object')" and "ot_unmarshal ot raw2 object = (None, object2)"
    and "cr_ParseSigned cr raw = Inr w" and "cr_ParseSigned cr raw2 = Inl e2"
    and "ot_Sender ot object' = Some sender" and "sender \<noteq> []"
    and "get sender = Some p" and "snd (cr_jwsVerify cr p w) \<noteq> None"
  shows "(\<exists>err. VerifySenderJWSSignature cr ot raw object (Some get) = (True, Some err, object')) \<and>
    VerifySenderJWSSignature cr ot raw2 object (Some get) = (False, None, object2) \<and>
    VerifySenderJWSSignature cr ot raw object None = (True, None, object')"
proof -
  obtain x err where v: "cr_jwsVerify cr p w = (x, Some err)" using assms(8) by (cases "cr_jwsVerify cr p w") auto
  show ?thesis using assms(1-7) v by (simp add: VerifySenderJWSSignature_def)
qed

section \<open>An instance\<close>

text \<open>Keys are characters, a private key is its own public key, a signature is the key put before the message.\<close>

definition toy :: "(char, char, char \<times> string, char \<times> string) crypto" where
  "toy =
     \<lparr>cr_Sum256 = id, cr_ecdsaSign = (\<lambda>k h. Inr (int (byte k), 7)), cr_ecdsaVerify = (\<lambda>p h r s. r = int (byte p)),
      cr_asn1Marshal = (\<lambda>(r, s). if 0 \<le> r \<and> r < 256 \<and> s = 7 then Inr [char_of (nat r)] else Inl ''range''),
      cr_asn1Unmarshal = (\<lambda>b. case b of [c] \<Rightarrow> Inr (int (byte c), 7) | _ \<Rightarrow> Inl ''length''),
      cr_newSigner = (\<lambda>_. None), cr_jwsSign = (\<lambda>k m. case k of None \<Rightarrow> Inl ''no key'' | Some c \<Rightarrow> Inr (c, m)),
      cr_jwsSerialize = (\<lambda>(c, m). (CHR ''S'' # c # m, None)),
      cr_ParseSigned = (\<lambda>t. case t of x # c # m \<Rightarrow> if x = CHR ''S'' then Inr (c, m) else Inl ''not signed'' | _ \<Rightarrow> Inl ''not signed''),
      cr_Payload = snd, cr_jwsVerify = (\<lambda>p (c, m). if c = p then (m, None) else ([], Some ''verify'')),
      cr_newEncrypter = (\<lambda>_. None), cr_jweEncrypt = (\<lambda>p m. case p of None \<Rightarrow> Inl ''no key'' | Some c \<Rightarrow> Inr (c, m)),
      cr_jweSerialize = (\<lambda>(c, m). CHR ''E'' # c # m),
      cr_ParseEncrypted = (\<lambda>t. case t of x # c # m \<Rightarrow> if x = CHR ''E'' then Inr (c, m) else Inl ''not encrypted'' | _ \<Rightarrow> Inl ''not encrypted''),
      cr_Decrypt = (\<lambda>k (c, m). if k = Some c then (m, None) else ([], Some ''decrypt''))\<rparr>"

definition text_object :: "string object_type" where
  "text_object = \<lparr>ot_unmarshal = (\<lambda>t obj. (None, t)), ot_Sender = Some, ot_Address = (\<lambda>_. None)\<rparr>"

lemma toy_ecdsa: "ecdsa_laws toy CHR ''a'' CHR ''a''"
  by (auto simp: ecdsa_laws_def toy_def split: if_splits)

lemma toy_jws: "jws_laws toy c c"
  by (auto simp: jws_laws_def toy_def)

lemma toy_jwe: "jwe_laws toy c c"
  by (auto simp: jwe_laws_def toy_def)

theorem ecdsa_signature_verifies_witness:
  "VerifyEcdsaSignature toy ''msg'' (CreateEcdsaSignature toy ''msg'' (Some CHR ''a'')) (Some CHR ''a'') = None"
proof -
  have "CreateEcdsaSignature toy ''msg'' (Some CHR ''a'') \<noteq> []"
    by (simp add: CreateEcdsaSignature_def toy_def b64url_encode_def)
  from ecdsa_signature_verifies [OF toy_ecdsa refl this] show ?thesis .
qed

theorem signed_message_decodes_witness:
  "DecodeMessage toy text_object \<lparr>ms_GetPublicKey = Some (\<lambda>_. Some CHR ''a''), ms_privateKey = Some CHR ''b''\<rparr> ''EbSabob'' []
     = (True, True, None, ''bob'')"
proof -
  have "SignAndEncrypt toy ''bob'' (Some CHR ''a'') (Some CHR ''b'') = (''EbSabob'', None)"
    by (simp add: SignAndEncrypt_def CreateJWSSignature_def EncryptMessage_def toy_def)
  then show ?thesis
    by (intro signed_message_decodes [OF toy_jws toy_jwe, where sender = "''bob''" and payload = "''bob''"]) (simp_all add: text_object_def)
qed

theorem unverified_payload_decoded_witness:
  "VerifySenderJWSSignature toy text_object ''Szeve'' [] (Some (\<lambda>_. Some CHR ''a''))
     = (True, Some ''VerifySenderJWSSignature: message signature from eve fails to verify with its public key'', ''eve'') \<and>
   (\<exists>err. VerifySenderJWSSignature toy text_object ''Szeve'' [] (Some (\<lambda>_. Some CHR ''a'')) = (True, Some err, ''eve''))"
proof
  show "VerifySenderJWSSignature toy text_object ''Szeve'' [] (Some (\<lambda>_. Some CHR ''a''))
     = (True, Some ''VerifySenderJWSSignature: message signature from eve fails to verify with its public key'', ''eve'')"
    by (simp add: VerifySenderJWSSignature_def toy_def text_object_def)
  show "\<exists>err. VerifySenderJWSSignature toy text_object ''Szeve'' [] (Some (\<lambda>_. Some CHR ''a'')) = (True, Some err, ''eve'')"
    using unverified_payload_decoded [of text_object toy "(CHR ''z'', ''eve'')" "[]" "''eve''" "''plain''" "''plain''" "''Szeve''" "''not signed''"
        "''eve''" "\<lambda>_. Some CHR ''a''" "CHR ''a''"]
    by (simp add: toy_def text_object_def)
qed

end
