(* ===== verification/Discovery.thy ===== *)
theory Discovery
  imports Hubnet "HOL-Library.Word"
begin

text \<open>
  Service discovery (\<open>pkg/discovery\<close>): announcing a service with its parameters, scanning for services of a type, and reading address, port and
  parameters of the first one found.

  The DNS-SD library, the host name, the parser of addresses, the name lookup and the interfaces are arguments. The port is an unsigned
  integer of 64 bits in the code, the record's port a signed one.
\<close>

section \<open>Data\<close>

record proxy_call =
  pc_instance :: string
  pc_serviceType :: string
  pc_domain :: string
  pc_port :: int
  pc_host :: string
  pc_ips :: "string list"
  pc_text :: "string list"
  pc_ifaces :: "net_interface list"

record service_entry =
  se_HostName :: string
  se_Port :: int
  se_Text :: "string list"
  se_AddrIPv4 :: "string list"
  se_AddrIPv6 :: "string list"

record disco_env =
  de_hostname :: string
  de_ParseIP :: "string \<Rightarrow> ip option"
  de_LookupIP :: "string \<Rightarrow> error + string list"
  de_Interfaces :: "error + net_interface list"
  de_RegisterProxy :: "proxy_call \<Rightarrow> error option"

section \<open>Announcing\<close>

definition service_type :: "string \<Rightarrow> string" where
  "service_type serviceName = ''_'' @ serviceName @ ''._tcp''"

definition text_records :: "string list \<Rightarrow> (string \<rightharpoonup> string) \<Rightarrow> string list" where
  "text_records ks params = List.map (\<lambda>k. k @ ''='' @ (case params k of Some v \<Rightarrow> v | None \<Rightarrow> [])) ks"

text \<open>The host name and the addresses announced: an address that is no IP address is taken as a host name and looked up.\<close>

definition resolve_address :: "disco_env \<Rightarrow> string \<Rightarrow> (error + string \<times> string list) outcome" where
  "resolve_address env address =
     (case de_ParseIP env address of
        Some _ \<Rightarrow> Ret (Inr (de_hostname env, [address]))
      | None \<Rightarrow>
          (case de_LookupIP env address of
             Inl err \<Rightarrow> Ret (Inl err)
           | Inr [] \<Rightarrow> Panic IndexOutOfRange
           | Inr (actualIP # _) \<Rightarrow> Ret (Inr (address, [actualIP]))))"

text \<open>\<open>ks\<close> is the order in which the parameters are ranged over. The result is the call of the library, if it is made, and the error.\<close>

definition DiscoServe ::
    "disco_env \<Rightarrow> string list \<Rightarrow> string \<Rightarrow> string \<Rightarrow> string \<Rightarrow> 64 word \<Rightarrow> (string \<rightharpoonup> string) \<Rightarrow>
      (proxy_call option \<times> error option) outcome" where
  "DiscoServe env ks instanceID serviceName address port params =
     (if serviceName = [] then Ret (None, Some ''Empty serviceName'')
      else
        bind_outcome (resolve_address env address)
          (\<lambda>r. case r of
             Inl err \<Rightarrow> Ret (None, Some err)
           | Inr (hostname, ips) \<Rightarrow>
               let ifaces = fst (GetInterfaces (de_Interfaces env) (case de_ParseIP env (hd ips) of None \<Rightarrow> [] | Some ip \<Rightarrow> ip));
                   call = \<lparr>pc_instance = instanceID, pc_serviceType = service_type serviceName, pc_domain = ''local.'',
                           pc_port = sint port, pc_host = hostname, pc_ips = ips, pc_text = text_records ks params, pc_ifaces = ifaces\<rparr>
               in Ret (Some call, de_RegisterProxy env call)))"

section \<open>Finding\<close>

text \<open>
  \<open>browse\<close> tells which entries are found for a type within a number of seconds. An error of browsing ends the process: \<open>None\<close>.
\<close>

definition DnsSDScan ::
    "error option \<Rightarrow> (string \<Rightarrow> int \<Rightarrow> error + service_entry list) \<Rightarrow> string \<Rightarrow> int \<Rightarrow>
      (service_entry list \<times> error option) option" where
  "DnsSDScan resolver browse sdType waitSec =
     (let sdType = (if sdType = [] then ''_services._dns-sd._udp'' else sdType) in
      case resolver of
        Some err \<Rightarrow> Some ([], Some err)
      | None \<Rightarrow> (case browse sdType waitSec of Inl err \<Rightarrow> None | Inr records \<Rightarrow> Some (records, None)))"

definition add_text :: "string \<Rightarrow> (string \<rightharpoonup> string) \<Rightarrow> string \<rightharpoonup> string" where
  "add_text txtRecord params =
     (case split_on CHR ''='' txtRecord of [k, v] \<Rightarrow> params(k \<mapsto> v) | _ \<Rightarrow> params)"

definition entry_address :: "service_entry \<Rightarrow> string" where
  "entry_address rec0 =
     (case se_AddrIPv4 rec0 of
        a # _ \<Rightarrow> a
      | [] \<Rightarrow> (case se_AddrIPv6 rec0 of a # _ \<Rightarrow> a | [] \<Rightarrow> se_HostName rec0))"

record disco_result =
  dr_address :: string
  dr_port :: "64 word"
  dr_params :: "string \<rightharpoonup> string"
  dr_records :: "service_entry list"

definition DiscoClient ::
    "error option \<Rightarrow> (string \<Rightarrow> int \<Rightarrow> error + service_entry list) \<Rightarrow> string \<Rightarrow> int \<Rightarrow>
      (disco_result option \<times> error option) option" where
  "DiscoClient resolver browse serviceName waitSec =
     map_option
       (\<lambda>(records, err). case err of
          Some e \<Rightarrow> (None, Some e)
        | None \<Rightarrow>
            (case records of
               [] \<Rightarrow> (None, Some (''no service of name '' @ apostrophe @ serviceName @ apostrophe @ '' (serviceType='' @
                       service_type serviceName @ '') found after '' @ show_int waitSec @ '' seconds''))
             | rec0 # _ \<Rightarrow>
                 (Some \<lparr>dr_address = entry_address rec0, dr_port = word_of_int (se_Port rec0),
                        dr_params = fold add_text (se_Text rec0) Map.empty, dr_records = records\<rparr>, None)))
       (DnsSDScan resolver browse (service_type serviceName) waitSec)"

section \<open>What is announced is found\<close>

lemma split_pair:
  "split_on CHR ''='' (k @ CHR ''='' # v) = [a, b] \<longleftrightarrow> CHR ''='' \<notin> set k \<and> CHR ''='' \<notin> set v \<and> a = k \<and> b = v"
proof
  assume l: "split_on CHR ''='' (k @ CHR ''='' # v) = [a, b]"
  have "length (split_on CHR ''='' (k @ CHR ''='' # v)) = Suc (count_list (k @ CHR ''='' # v) CHR ''='')" by (rule length_split_on)
  with l have "count_list k CHR ''='' = 0" "count_list v CHR ''='' = 0" by simp_all
  then have "CHR ''='' \<notin> set k" "CHR ''='' \<notin> set v" by (simp_all add: count_list_0_iff)
  with l show "CHR ''='' \<notin> set k \<and> CHR ''='' \<notin> set v \<and> a = k \<and> b = v" by (simp add: split_on_sep split_on_no_sep)
qed (auto simp: split_on_sep split_on_no_sep)

lemma add_text_pair:
  "add_text (k @ CHR ''='' # v) m = (if CHR ''='' \<notin> set k \<and> CHR ''='' \<notin> set v then m(k \<mapsto> v) else m)"
proof (cases "CHR ''='' \<notin> set k \<and> CHR ''='' \<notin> set v")
  case True
  then have "split_on CHR ''='' (k @ CHR ''='' # v) = [k, v]" using split_pair by blast
  with True show ?thesis by (simp add: add_text_def)
next
  case False
  then have "split_on CHR ''='' (k @ CHR ''='' # v) \<noteq> [a, b]" for a b using split_pair by blast
  then show ?thesis using False unfolding add_text_def by (auto split: list.splits)
qed

definition sendable :: "(string \<rightharpoonup> string) \<Rightarrow> string \<Rightarrow> string option" where
  "sendable params k =
     (case params k of
        Some v \<Rightarrow> if CHR ''='' \<notin> set k \<and> CHR ''='' \<notin> set v then Some v else None
      | None \<Rightarrow> None)"

lemma fold_text_records:
  "set ks \<subseteq> dom params \<Longrightarrow> distinct ks \<Longrightarrow>
     fold add_text (text_records ks params) m k = (if k \<in> set ks \<and> sendable params k \<noteq> None then sendable params k else m k)"
proof (induction ks arbitrary: m)
  case Nil
  then show ?case by (simp add: text_records_def)
next
  case (Cons l ks)
  then obtain v where v: "params l = Some v" by auto
  have "fold add_text (text_records (l # ks) params) m k = fold add_text (text_records ks params) (add_text (l @ ''='' @ v) m) k"
    by (simp add: text_records_def v)
  also have "\<dots> = (if k \<in> set ks \<and> sendable params k \<noteq> None then sendable params k else add_text (l @ ''='' @ v) m k)"
    by (rule Cons.IH) (use Cons.prems in auto)
  finally show ?case using Cons.prems(2) v
    by (cases "k = l"; cases "sendable params k") (auto simp: add_text_pair sendable_def)
qed

lemma DiscoServe_call:
  "DiscoServe env ks instanceID serviceName address port params = Ret (Some call, err) \<Longrightarrow>
     pc_serviceType call = service_type serviceName \<and> pc_text call = text_records ks params \<and> pc_port call = sint port"
proof -
  assume d: "DiscoServe env ks instanceID serviceName address port params = Ret (Some call, err)"
  show ?thesis
  proof (cases "resolve_address env address")
    case (Ret x)
    then show ?thesis using d by (cases x) (auto simp: DiscoServe_def Let_def split: if_splits)
  next
    case (Panic p)
    then show ?thesis using d by (auto simp: DiscoServe_def split: if_splits)
  qed
qed

text \<open>
  C27: A client that finds the announcement of a service first reads its port, also one beyond the range of signed integers, and exactly those of its
  parameters whose name and value have no equal sign: a parameter whose value has one, such as a text in base64 or a query, is
  lost without an error.
\<close>

theorem announced_parameters_found:
  assumes "DiscoServe env ks instanceID serviceName address port params = Ret (Some call, None)"
    and "range_order params ks"
    and "browse (pc_serviceType call) waitSec = Inr (rec0 # records)"
    and "se_Text rec0 = pc_text call" and "se_Port rec0 = pc_port call"
  shows "\<exists>r. DiscoClient None browse serviceName waitSec = Some (Some r, None) \<and> dr_port r = port \<and> dr_params r = sendable params"
proof -
  have call: "pc_serviceType call = service_type serviceName" "pc_text call = text_records ks params" "pc_port call = sint port"
    using DiscoServe_call [OF assms(1)] by simp_all
  have ks: "set ks \<subseteq> dom params" "distinct ks" using assms(2) by (auto simp: range_order_def)
  have "fold add_text (text_records ks params) Map.empty k = sendable params k" for k
  proof (cases "params k")
    case None
    then show ?thesis by (simp add: fold_text_records [OF ks] sendable_def)
  next
    case (Some v)
    then have "k \<in> set ks" using assms(2) by (auto simp: range_order_def)
    then show ?thesis by (simp add: fold_text_records [OF ks])
  qed
  then have "fold add_text (text_records ks params) Map.empty = sendable params" by (rule ext)
  with assms(3-5) call show ?thesis
    by (simp add: DiscoClient_def DnsSDScan_def service_type_def)
qed

definition lan_env :: disco_env where
  "lan_env =
     \<lparr>de_hostname = ''hub'', de_ParseIP = (\<lambda>a. if a = ''10.0.0.1'' then Some [10,0,0,1] else None),
      de_LookupIP = (\<lambda>_. Inl ''no such host''), de_Interfaces = Inr [eth ''eth0'' ''10.0.0.1/24''], de_RegisterProxy = (\<lambda>_. None)\<rparr>"

theorem announced_parameters_found_witness:
  "\<exists>r call. DiscoServe lan_env [''path'', ''key''] ''idprov'' ''idprov'' ''10.0.0.1'' 9678 [''path'' \<mapsto> ''/idprov'', ''key'' \<mapsto> ''bm9kZQ=='']
       = Ret (Some call, None) \<and>
     DiscoClient None (\<lambda>_ _. Inr [\<lparr>se_HostName = ''hub'', se_Port = pc_port call, se_Text = pc_text call, se_AddrIPv4 = [''10.0.0.1''], se_AddrIPv6 = []\<rparr>])
       ''idprov'' 3 = Some (Some r, None) \<and>
     dr_port r = 9678 \<and> dr_params r ''path'' = Some ''/idprov'' \<and> dr_params r ''key'' = None"
proof -
  let ?p = "[''path'' \<mapsto> ''/idprov'', ''key'' \<mapsto> ''bm9kZQ=='']"
  obtain call where call: "DiscoServe lan_env [''path'', ''key''] ''idprov'' ''idprov'' ''10.0.0.1'' 9678 ?p = Ret (Some call, None)"
    by (simp add: DiscoServe_def resolve_address_def lan_env_def Let_def)
  have ks: "range_order ?p [''path'', ''key'']" by (auto simp: range_order_def split: if_splits)
  let ?e = "\<lparr>se_HostName = ''hub'', se_Port = pc_port call, se_Text = pc_text call, se_AddrIPv4 = [''10.0.0.1''], se_AddrIPv6 = []\<rparr>"
  have "\<exists>r. DiscoClient None (\<lambda>_ _. Inr [?e]) ''idprov'' 3 = Some (Some r, None) \<and> dr_port r = 9678 \<and> dr_params r = sendable ?p"
    by (rule announced_parameters_found [OF call ks, where ?rec0.0 = ?e and records = "[]"]) simp_all
  with call show ?thesis by (auto simp: sendable_def)
qed

end
