(* ===== verification/Watcher.thy ===== *)
theory Watcher
  imports Prelude
begin

text \<open>
  The file watcher (\<open>pkg/watcher/WatchFile.go\<close>): it calls a handler 50 milliseconds after the last change of a file and then subscribes to the
  file again, since renaming a file changes what the path stands for.

  Time is counted in milliseconds. The goroutine of the watcher and the timer are interleaved as steps: a change is delivered while the watcher
  is open and subscribed, time passes, the timer runs out at its deadline, the caller closes the watcher. Whether the path exists when the timer runs
  out is part of the step, because subscribing to a missing path fails. A change and the end of the timer at the same millisecond count as the end first.
\<close>

section \<open>States and steps\<close>

record watch_state =
  ws_now :: nat
  ws_deadline :: "nat option"
  ws_subscribed :: bool
  ws_closed :: bool
  ws_calls :: "nat list"

definition watcherDebounceDelay :: nat where
  "watcherDebounceDelay = 50"

text \<open>
  The watcher made, and the error of subscribing to the path; with an error nothing reads the events. The timer is created
  with a delay of 0 and then stopped: \<open>early\<close> says that its function was started before it was stopped. That function subscribes
  to the path too, which adds nothing to the subscription made here.
\<close>

definition WatchFile :: "bool \<Rightarrow> error option \<Rightarrow> nat \<Rightarrow> watch_state \<times> error option" where
  "WatchFile early addError now =
     (\<lparr>ws_now = now, ws_deadline = None, ws_subscribed = (addError = None), ws_closed = False,
       ws_calls = (if early then [now] else [])\<rparr>, addError)"

definition on_event :: "watch_state \<Rightarrow> watch_state" where
  "on_event s =
     (if ws_closed s \<or> \<not> ws_subscribed s then s
      else s\<lparr>ws_deadline := Some (ws_now s + watcherDebounceDelay)\<rparr>)"

text \<open>The function of the timer, at time \<open>t\<close>.\<close>

definition on_timer :: "bool \<Rightarrow> nat \<Rightarrow> watch_state \<Rightarrow> watch_state" where
  "on_timer pathExists t s =
     s\<lparr>ws_deadline := None, ws_calls := ws_calls s @ [t], ws_subscribed := (\<not> ws_closed s \<and> pathExists)\<rparr>"

definition elapse :: "bool \<Rightarrow> nat \<Rightarrow> watch_state \<Rightarrow> watch_state" where
  "elapse pathExists d s =
     (let s' = (case ws_deadline s of
                  None \<Rightarrow> s
                | Some t \<Rightarrow> if t \<le> ws_now s + d then on_timer pathExists t s else s)
      in s'\<lparr>ws_now := ws_now s + d\<rparr>)"

definition close_watcher :: "watch_state \<Rightarrow> watch_state" where
  "close_watcher s = s\<lparr>ws_closed := True\<rparr>"

datatype watch_step = Change | Elapse nat bool | CloseWatcher

fun do_step :: "watch_step \<Rightarrow> watch_state \<Rightarrow> watch_state" where
  "do_step Change s = on_event s"
| "do_step (Elapse d pathExists) s = elapse pathExists d s"
| "do_step CloseWatcher s = close_watcher s"

inductive watch_next :: "watch_state \<Rightarrow> watch_state \<Rightarrow> bool" where
  "watch_next s (do_step w s)"

inductive_cases watch_nextE: "watch_next s t"

lemmas watch_defs = on_event_def elapse_def on_timer_def close_watcher_def watcherDebounceDelay_def Let_def

section \<open>One call per burst of changes\<close>

text \<open>The reference: a change that nothing follows within the delay is reported at the end of the delay, every other change is not.\<close>

fun report_times :: "nat \<Rightarrow> nat list \<Rightarrow> nat list" where
  "report_times now [] = []"
| "report_times now (gap # gaps) =
     (if watcherDebounceDelay \<le> gap then [now + watcherDebounceDelay] else []) @ report_times (now + gap) gaps"

text \<open>Changes, each followed by the time until the next one, of a file that always exists.\<close>

definition changes :: "nat list \<Rightarrow> watch_step list" where
  "changes gaps = concat (List.map (\<lambda>g. [Change, Elapse g True]) gaps)"

lemma change_elapse:
  "ws_subscribed s \<Longrightarrow> \<not> ws_closed s \<Longrightarrow>
     (let s' = elapse True g (on_event s) in
       ws_subscribed s' \<and> \<not> ws_closed s' \<and> ws_now s' = ws_now s + g \<and>
       ws_calls s' = ws_calls s @ (if watcherDebounceDelay \<le> g then [ws_now s + watcherDebounceDelay] else []))"
  by (simp add: watch_defs)

lemma run_changes:
  "ws_subscribed s \<Longrightarrow> \<not> ws_closed s \<Longrightarrow>
     ws_calls (fold do_step (changes gaps) s) = ws_calls s @ report_times (ws_now s) gaps"
proof (induction gaps arbitrary: s)
  case Nil
  then show ?case by (simp add: changes_def)
next
  case (Cons g gaps)
  let ?s = "elapse True g (on_event s)"
  have s: "ws_subscribed ?s" "\<not> ws_closed ?s" "ws_now ?s = ws_now s + g"
      "ws_calls ?s = ws_calls s @ (if watcherDebounceDelay \<le> g then [ws_now s + watcherDebounceDelay] else [])"
    using change_elapse [OF Cons.prems, of g] by (simp_all add: Let_def)
  have "fold do_step (changes (g # gaps)) s = fold do_step (changes gaps) ?s" by (simp add: changes_def)
  with Cons.IH [OF s(1,2)] s(3,4) show ?case by simp
qed

text \<open>
  C16: Of a file that always exists, the handler is called exactly once for every burst of changes, 50 milliseconds after the last
  change of the burst: the times of the calls are those of the reference. One more call, without a change, comes first when the
  timer of the watcher, created with a delay of 0, was not stopped in time.
\<close>

theorem calls_debounced:
  assumes "WatchFile early None now = (s, err)"
  shows "err = None \<and> ws_calls (fold do_step (changes gaps) s) = (if early then [now] else []) @ report_times now gaps"
proof -
  have "err = None" "ws_calls s = (if early then [now] else [])" "ws_now s = now" "ws_subscribed s" "\<not> ws_closed s"
    using assms by (auto simp: WatchFile_def)
  then show ?thesis using run_changes [of s gaps] by simp
qed

theorem calls_debounced_witness:
  "ws_calls (fold do_step (changes [10, 30, 200, 49, 50]) (fst (WatchFile False None 1000))) = [1090, 1339]"
  using calls_debounced [of False 1000 "fst (WatchFile False None 1000)" None "[10, 30, 200, 49, 50]"]
  by (simp add: WatchFile_def watcherDebounceDelay_def)

section \<open>Every change is reported, while the watch lasts\<close>

text \<open>
  C25: In whatever state an open and subscribed watcher is, a change is followed by a call of the handler once 50 milliseconds pass
  without another one, and the call comes 50 milliseconds after the change; so it does when the caller closes the watcher before.
\<close>

theorem change_reported:
  assumes "ws_subscribed s" and "\<not> ws_closed s" and "watcherDebounceDelay \<le> d"
  shows "ws_calls (fold do_step [Change, Elapse d pathExists] s) = ws_calls s @ [ws_now s + watcherDebounceDelay] \<and>
    ws_calls (fold do_step [Change, CloseWatcher, Elapse d pathExists] s) = ws_calls s @ [ws_now s + watcherDebounceDelay]"
  using assms by (simp add: watch_defs)

theorem change_reported_witness:
  "ws_calls (fold do_step [Change, CloseWatcher, Elapse 50 True] (fst (WatchFile False None 0))) = [50]"
  using change_reported [of "fst (WatchFile False None 0)" 50 True] by (simp add: WatchFile_def watcherDebounceDelay_def)

section \<open>A lost watch\<close>

text \<open>The states without a subscription and without a running timer, after the calls made so far.\<close>

definition lost_watch :: "nat list \<Rightarrow> watch_state \<Rightarrow> bool" where
  "lost_watch calls s \<longleftrightarrow> \<not> ws_subscribed s \<and> ws_deadline s = None \<and> ws_calls s = calls"

interpretation lost: transition_system "lost_watch calls" watch_next "lost_watch calls" for calls
proof
  fix s t assume "lost_watch calls s" and "watch_next s t"
  then obtain w where "lost_watch calls s" "t = do_step w s" by (auto elim: watch_nextE)
  then show "lost_watch calls t" by (cases w) (auto simp: lost_watch_def watch_defs)
qed

text \<open>
  C26: When the path does not exist at the moment the timer runs out, as between the two steps in which an editor replaces a file,
  the subscription is gone for good: whatever happens from then on, the handler is never called again.
\<close>

theorem watch_lost_forever:
  assumes "ws_deadline s = Some t" and "t \<le> ws_now s + d"
    and "reachable (\<lambda>s0. s0 = do_step (Elapse d False) s) watch_next s'"
  shows "ws_calls s' = ws_calls s @ [t]"
proof -
  have start: "lost_watch (ws_calls s @ [t]) (do_step (Elapse d False) s)" using assms(1,2) by (simp add: lost_watch_def watch_defs)
  from assms(3) have "reachable (lost_watch (ws_calls s @ [t])) watch_next s'"
    by (induction rule: reachable.induct) (auto intro: reachable.intros start simp del: do_step.simps)
  then show ?thesis using lost.reachable_inv by (fastforce simp: lost_watch_def)
qed

theorem watch_lost_forever_witness:
  "ws_calls (do_step (Elapse 500 True) (do_step Change (do_step (Elapse 100 False) (do_step Change (fst (WatchFile False None 0)))))) = [50]"
proof -
  let ?s = "do_step Change (fst (WatchFile False None 0))"
  let ?r = "\<lambda>s0. s0 = do_step (Elapse 100 False) ?s"
  have d: "ws_deadline ?s = Some 50" "ws_now ?s = 0" "ws_calls ?s = []" by (simp_all add: WatchFile_def watch_defs)
  have "reachable ?r watch_next (do_step (Elapse 100 False) ?s)" by (rule reach_init) simp
  then have "reachable ?r watch_next (do_step Change (do_step (Elapse 100 False) ?s))" by (rule reach_step) (rule watch_next.intros)
  then have "reachable ?r watch_next (do_step (Elapse 500 True) (do_step Change (do_step (Elapse 100 False) ?s)))"
    by (rule reach_step) (rule watch_next.intros)
  from watch_lost_forever [OF d(1) _ this] d show ?thesis by simp
qed

end
