(* ===== verification/Logging.thy ===== *)
theory Logging
  imports Files
begin

text \<open>
  Logging (\<open>pkg/logging/SetLogging.go\<close>): the level and the outputs of the log, and the text that names the caller of a log message.

  The levels are those of the logrus package, from the most to the least severe; a logger set to a level writes the messages of this
  level and of those before it. Opening the log file is an argument: its error, if any.
\<close>

datatype level = PanicLevel | FatalLevel | ErrorLevel | WarnLevel | InfoLevel | DebugLevel | TraceLevel

fun level_number :: "level \<Rightarrow> nat" where
  "level_number PanicLevel = 0"
| "level_number FatalLevel = 1"
| "level_number ErrorLevel = 2"
| "level_number WarnLevel = 3"
| "level_number InfoLevel = 4"
| "level_number DebugLevel = 5"
| "level_number TraceLevel = 6"

lemma level_number_inject: "level_number a = level_number b \<longleftrightarrow> a = b"
  by (cases a; cases b) simp_all

instantiation level :: linorder
begin

definition less_eq_level :: "level \<Rightarrow> level \<Rightarrow> bool" where
  "less_eq_level a b \<longleftrightarrow> level_number a \<le> level_number b"

definition less_level :: "level \<Rightarrow> level \<Rightarrow> bool" where
  "less_level a b \<longleftrightarrow> level_number a < level_number b"

instance
  by standard (auto simp: less_eq_level_def less_level_def level_number_inject)

end

datatype log_output = Stdout | LogFile string

record logger =
  lg_ReportCaller :: bool
  lg_Level :: level
  lg_Output :: "log_output list"

definition logging_level :: "string \<Rightarrow> level" where
  "logging_level levelName =
     (if levelName = [] then DebugLevel
      else
        let name = to_lower levelName in
        if name = ''error'' then ErrorLevel
        else if name = ''warn'' \<or> name = ''warning'' then WarnLevel
        else if name = ''info'' then InfoLevel
        else if name = ''debug'' then DebugLevel
        else DebugLevel)"

definition SetLogging :: "(string \<Rightarrow> error option) \<Rightarrow> string \<Rightarrow> string \<Rightarrow> logger" where
  "SetLogging openFile levelName filename =
     (let logOut = (if filename \<noteq> [] then
                      (case openFile filename of Some err \<Rightarrow> [Stdout] | None \<Rightarrow> [Stdout, LogFile filename])
                    else [Stdout])
      in \<lparr>lg_ReportCaller = True, lg_Level = logging_level levelName, lg_Output = logOut\<rparr>)"

text \<open>The name of the function, without its package and receiver, and the file with the line.\<close>

definition CallerPrettyfier :: "string \<Rightarrow> string \<Rightarrow> int \<Rightarrow> string \<times> string" where
  "CallerPrettyfier funcName fileName line =
     (let names = split_on CHR ''.'' funcName;
          funcName = (if 1 < length names then last names else funcName)
      in (snd (path_Split funcName) @ ''(): '', '' '' @ Base fileName @ '':'' @ show_int line))"

text \<open>Whether a logger writes a message of a level.\<close>

definition IsLevelEnabled :: "logger \<Rightarrow> level \<Rightarrow> bool" where
  "IsLevelEnabled lg l \<longleftrightarrow> l \<le> lg_Level lg"

text \<open>
  The messages written by a logger set with a level name, in any case: errors and worse always, warnings unless the name is error, infos unless
  it is error or a warning, debug messages only for the other names, the empty and all unknown ones included; traces never. The log always goes
  to standard output too.
\<close>

theorem levels_enabled:
  "let lg = SetLogging openFile levelName filename; name = to_lower levelName in
     IsLevelEnabled lg ErrorLevel \<and> IsLevelEnabled lg FatalLevel \<and> IsLevelEnabled lg PanicLevel \<and> \<not> IsLevelEnabled lg TraceLevel \<and>
     (IsLevelEnabled lg WarnLevel \<longleftrightarrow> name \<noteq> ''error'') \<and>
     (IsLevelEnabled lg InfoLevel \<longleftrightarrow> name \<notin> {''error'', ''warn'', ''warning''}) \<and>
     (IsLevelEnabled lg DebugLevel \<longleftrightarrow> name \<notin> {''error'', ''warn'', ''warning'', ''info''}) \<and>
     Stdout \<in> set (lg_Output lg)"
  by (auto simp: Let_def SetLogging_def IsLevelEnabled_def logging_level_def less_eq_level_def to_lower.simps split: option.splits)

end
