(* ===== verification/TestEnv.thy ===== *)
theory TestEnv
  imports HubConfig TLSServer
begin

text \<open>
  The test environment (\<open>pkg/testenv\<close>: CreateCerts.go, StartMosquitto.go, StartServices.go), which applications of the library use in
  their own tests: certificates of a hub signed by a CA, the files they are saved in, the configuration of the broker, and a server
  for logins.

  Arguments are the library that signs certificates, the keys the generator makes, the time, and what running the broker leads to.
  A certificate is given to the library as a template; the fields that are the same in all of them are left out.
\<close>

section \<open>Certificates\<close>

datatype key_usage = KeyUsageCertSign | KeyUsageCRLSign | KeyUsageDigitalSignature
datatype ext_key_usage = ExtKeyUsageServerAuth | ExtKeyUsageClientAuth

record cert_template =
  ct_SerialNumber :: int
  ct_Subject :: peer_cert
  ct_NotBefore :: int
  ct_NotAfter :: int
  ct_KeyUsage :: "key_usage list"
  ct_ExtKeyUsage :: "ext_key_usage list"
  ct_IsCA :: bool
  ct_IPAddresses :: "string list"

text \<open>
  \<open>cm_CreateCertificate\<close> has the template, the parent (nothing for a certificate that signs itself), the public key and the key of the
  signer. \<open>cm_key n\<close> is the \<open>n\<close>-th key made. Times are in seconds.
\<close>

record ('x, 'k, 'p) cert_maker =
  cm_CreateCertificate :: "cert_template \<Rightarrow> 'x option \<Rightarrow> 'p \<Rightarrow> 'k \<Rightarrow> error + string"
  cm_Public :: "'k \<Rightarrow> 'p"
  cm_key :: "nat \<Rightarrow> 'k"
  cm_now :: int

definition OUPlugin :: string where "OUPlugin = ''plugin''"
definition OUDevice :: string where "OUDevice = ''iotdevice''"
definition ServerAddress :: string where "ServerAddress = ''127.0.0.1''"

record ('x, 'k) test_certs =
  tcs_CaCert :: "'x option"
  tcs_CaKey :: "'k option"
  tcs_ServerKey :: "'k option"
  tcs_DeviceKey :: "'k option"
  tcs_PluginKey :: "'k option"
  tcs_ServerCert :: "'k tls_certificate option"
  tcs_PluginCert :: "'k tls_certificate option"
  tcs_DeviceCert :: "'k tls_certificate option"

definition parsed :: "('x, 'k, 'p) x509_lib \<Rightarrow> string \<Rightarrow> 'x option" where
  "parsed lib der = (case xl_ParseCertificate lib der of Inl err \<Rightarrow> None | Inr c \<Rightarrow> Some c)"

text \<open>The errors of signing and parsing are ignored. \<open>n\<close> is the number of keys made so far.\<close>

definition CreateCA :: "('x, 'k, 'p) x509_lib \<Rightarrow> ('x, 'k, 'p) cert_maker \<Rightarrow> nat \<Rightarrow> 'x option \<times> 'k \<times> nat" where
  "CreateCA lib cm n =
     (let caKey = cm_key cm n;
          template = \<lparr>ct_SerialNumber = 2021, ct_Subject = \<lparr>pc_CommonName = ''WoST CA'', pc_OrganizationalUnit = []\<rparr>,
            ct_NotBefore = cm_now cm - 10, ct_NotAfter = cm_now cm + 3600,
            ct_KeyUsage = [KeyUsageCertSign, KeyUsageCRLSign, KeyUsageDigitalSignature],
            ct_ExtKeyUsage = [ExtKeyUsageServerAuth, ExtKeyUsageClientAuth], ct_IsCA = True, ct_IPAddresses = []\<rparr>;
          certDerBytes = fst (bytes_and_error (cm_CreateCertificate cm template None (cm_Public cm caKey) caKey))
      in (parsed lib certDerBytes, caKey, Suc n))"

definition x509_template :: "('x, 'k, 'p) cert_maker \<Rightarrow> string \<Rightarrow> string \<Rightarrow> bool \<Rightarrow> cert_template" where
  "x509_template cm cn ou isServer =
     \<lparr>ct_SerialNumber = 2021, ct_Subject = \<lparr>pc_CommonName = cn, pc_OrganizationalUnit = [ou]\<rparr>,
      ct_NotBefore = cm_now cm - 10, ct_NotAfter = cm_now cm + 3600,
      ct_KeyUsage = (if isServer then [KeyUsageCertSign, KeyUsageCRLSign] else [KeyUsageDigitalSignature]),
      ct_ExtKeyUsage = [if isServer then ExtKeyUsageServerAuth else ExtKeyUsageClientAuth],
      ct_IsCA = False, ct_IPAddresses = [ServerAddress]\<rparr>"

text \<open>A nil CA certificate is dereferenced by the library; an error of signing panics after it was logged.\<close>

definition CreateX509Cert ::
    "('x, 'k, 'p) x509_lib \<Rightarrow> ('x, 'k, 'p) cert_maker \<Rightarrow> string \<Rightarrow> string \<Rightarrow> bool \<Rightarrow> 'p \<Rightarrow> 'x option \<Rightarrow> 'k \<Rightarrow>
      ('x option \<times> string \<times> error option) outcome" where
  "CreateX509Cert lib cm cn ou isServer pubKey caCert caKey =
     (case caCert of
        None \<Rightarrow> Panic NilDereference
      | Some ca \<Rightarrow>
          (case cm_CreateCertificate cm (x509_template cm cn ou isServer) (Some ca) pubKey caKey of
             Inl err \<Rightarrow> Panic ExplicitPanic
           | Inr certDerBytes \<Rightarrow> Ret (parsed lib certDerBytes, certDerBytes, None)))"

definition CreateTlsCert ::
    "('x, 'k, 'p) x509_lib \<Rightarrow> ('x, 'k, 'p) cert_maker \<Rightarrow> string \<Rightarrow> string \<Rightarrow> bool \<Rightarrow> 'k \<Rightarrow> 'x option \<Rightarrow> 'k \<Rightarrow>
      'k tls_certificate option outcome" where
  "CreateTlsCert lib cm cn ou isServer clientKey caCert caKey =
     map_outcome (\<lambda>(_, derBytes, err).
         if err = None then Some \<lparr>tlc_Certificate = [derBytes], tlc_PrivateKey = ECDSAKey clientKey\<rparr> else None)
       (CreateX509Cert lib cm cn ou isServer (cm_Public cm clientKey) caCert caKey)"

definition CreateCertBundle ::
    "('x, 'k, 'p) x509_lib \<Rightarrow> ('x, 'k, 'p) cert_maker \<Rightarrow> ('x, 'k) test_certs outcome" where
  "CreateCertBundle lib cm =
     (case CreateCA lib cm 0 of
        (caCert, caKey, n) \<Rightarrow>
          let serverKey = cm_key cm n; pluginKey = cm_key cm (n + 1); deviceKey = cm_key cm (n + 2) in
          bind_outcome (CreateTlsCert lib cm ''Server'' ''wost'' True serverKey caCert caKey) (\<lambda>serverCert.
          bind_outcome (CreateTlsCert lib cm ''Plugin'' OUPlugin False pluginKey caCert caKey) (\<lambda>pluginCert.
          bind_outcome (CreateTlsCert lib cm ''Device'' OUDevice False deviceKey caCert caKey) (\<lambda>deviceCert.
            Ret \<lparr>tcs_CaCert = caCert, tcs_CaKey = Some caKey, tcs_ServerKey = Some serverKey, tcs_DeviceKey = Some deviceKey,
                 tcs_PluginKey = Some pluginKey, tcs_ServerCert = serverCert, tcs_PluginCert = pluginCert,
                 tcs_DeviceCert = deviceCert\<rparr>))))"

section \<open>Files\<close>

definition caCertFile :: string where "caCertFile = ''caCert.pem''"
definition caKeyFile :: string where "caKeyFile = ''caKey.pem''"
definition serverCertFile :: string where "serverCertFile = ''serverCert.pem''"
definition serverKeyFile :: string where "serverKeyFile = ''serverKey.pem''"
definition pluginCertFile :: string where "pluginCertFile = ''pluginCert.pem''"
definition pluginKeyFile :: string where "pluginKeyFile = ''pluginKey.pem''"
definition mosquittoConfigFile :: string where "mosquittoConfigFile = ''mosquitto-testsetup.conf''"

text \<open>\<open>os.MkdirAll\<close> makes the folder and those above it, \<open>os.RemoveAll\<close> removes the folder with everything below it.\<close>

definition MkdirAll :: "string \<Rightarrow> filesystem \<Rightarrow> error option \<times> filesystem" where
  "MkdirAll path fs =
     (case fs_writeError fs path of
        Some err \<Rightarrow> (Some err, fs)
      | None \<Rightarrow> (None, fs\<lparr>fs_folders := (\<lambda>p. fs_folders fs p \<or> p = path \<or> has_prefix path (p @ ''/''))\<rparr>))"

definition RemoveAll :: "string \<Rightarrow> filesystem \<Rightarrow> filesystem" where
  "RemoveAll path fs =
     fs\<lparr>fs_files := (\<lambda>p. if p = path \<or> has_prefix p (path @ ''/'') then None else fs_files fs p),
        fs_folders := (\<lambda>p. fs_folders fs p \<and> p \<noteq> path \<and> \<not> has_prefix p (path @ ''/''))\<rparr>"

definition save_tls :: "('x, 'k, 'p) x509_lib \<Rightarrow> 'k tls_certificate option \<Rightarrow> string \<Rightarrow> string \<Rightarrow> filesystem \<Rightarrow> filesystem outcome" where
  "save_tls lib cert certPath keyPath fs =
     (case cert of None \<Rightarrow> Panic NilDereference | Some c \<Rightarrow> map_outcome snd (SaveTLSCertToPEM lib c certPath keyPath fs))"

text \<open>The errors of writing are ignored.\<close>

definition SaveCerts :: "('x, 'k, 'p) x509_lib \<Rightarrow> ('x, 'k) test_certs \<Rightarrow> string \<Rightarrow> filesystem \<Rightarrow> filesystem outcome" where
  "SaveCerts lib testCerts certFolder fs =
     (let fs = (if \<not> Exists fs certFolder then snd (MkdirAll certFolder fs) else fs) in
      case (tcs_CaCert testCerts, tcs_CaKey testCerts) of
        (Some caCert, Some caKey) \<Rightarrow>
          let fs = snd (SaveX509CertToPEM lib caCert (Join certFolder caCertFile) fs);
              fs = snd (SaveKeysToPEM lib (ECDSAKey caKey) (Join certFolder caKeyFile) fs) in
          bind_outcome (save_tls lib (tcs_ServerCert testCerts) (Join certFolder serverCertFile) (Join certFolder serverKeyFile) fs)
            (save_tls lib (tcs_PluginCert testCerts) (Join certFolder pluginCertFile) (Join certFolder pluginKeyFile))
      | _ \<Rightarrow> Panic NilDereference)"

section \<open>The broker\<close>

definition MqttPortUnpw :: int where "MqttPortUnpw = 9883"
definition MqttPortCert :: int where "MqttPortCert = 9884"
definition MqttPortWS :: int where "MqttPortWS = 9885"

text \<open>
  The template of the configuration, taken apart into plain parts and parameters. The package is that of HTML templates, which
  replaces the characters that have a meaning in HTML in every parameter.
\<close>

definition text_lines :: "string list \<Rightarrow> string" where
  "text_lines ls = concat (List.map (\<lambda>l. l @ [CHR 0x0A]) ls)"

definition file_lines :: "segment list" where
  "file_lines =
     [Plain ''cafile '', Keyword ''certFolder'', Plain ''/'', Keyword ''caCertFile'', Plain (text_lines [[]] @ ''certfile ''),
      Keyword ''certFolder'', Plain ''/'', Keyword ''serverCertFile'', Plain (text_lines [[]] @ ''keyfile ''),
      Keyword ''certFolder'', Plain ''/'', Keyword ''serverKeyFile'']"

definition mqConfigTemplate :: "segment list" where
  "mqConfigTemplate =
     [Plain (text_lines [[], ''# Generated by '' @ apostrophe @ ''testenv.StartMosquitto.go'' @ apostrophe @ ''. Do not edit.'', [],
        ''log_type error'', ''log_type warning'', ''log_type information'', ''log_dest stdout'', ''log_dest stderr'',
        ''persistence false'', [], ''#--- plugins and devices use certificates with MQTT'', ''# MQTT over TLS/SSL''] @ ''listener ''),
      Keyword ''mqttPortCert'', Plain (text_lines [[], ''require_certificate true'', ''tls_version tlsv1.2''])] @ file_lines @
     [Plain (text_lines [[], [], ''#--- consumers using username/pw with MQTT protocol over TLS/SSL''] @ ''listener ''),
      Keyword ''mqttPortUnpw'', Plain (text_lines [[], ''require_certificate false'', ''tls_version tlsv1.2''])] @ file_lines @
     [Plain (text_lines [[], ''# No password needed for users while testing'', ''allow_anonymous true'', [],
        ''#--- consumers use username/pw with WebSockets over TLS/SSL''] @ ''listener ''),
      Keyword ''mqttPortWS'',
      Plain (text_lines [[], ''protocol websockets'', ''require_certificate false'', ''tls_version tlsv1.2''])] @ file_lines @
     [Plain (text_lines [[], ''# No password needed for users while testing'', ''allow_anonymous true''])]"

text \<open>Numbers of characters: 34 is the quotation mark, 38 the ampersand, 39 the apostrophe, 43 plus, 60 and 62 less and greater.\<close>

definition html_char :: "char \<Rightarrow> string" where
  "html_char c =
     (let n = (of_char c :: nat) in
      if n = 0 then [CHR 0xEF, CHR 0xBF, CHR 0xBD]
      else if n = 34 then ''&#34;'' else if n = 38 then ''&amp;'' else if n = 39 then ''&#39;'' else if n = 43 then ''&#43;''
      else if n = 60 then ''&lt;'' else if n = 62 then ''&gt;'' else [c])"

definition html_escape :: "string \<Rightarrow> string" where
  "html_escape s = concat (List.map html_char s)"

fun execute_template :: "(string \<rightharpoonup> string) \<Rightarrow> segment list \<Rightarrow> string" where
  "execute_template params [] = []"
| "execute_template params (Plain s # ps) = s @ execute_template params ps"
| "execute_template params (Keyword n # ps) =
     html_escape (case params n of None \<Rightarrow> [] | Some v \<Rightarrow> v) @ execute_template params ps"

definition createMosquittoConf :: "string \<Rightarrow> string \<Rightarrow> string" where
  "createMosquittoConf configFolder certFolder =
     (let params = [''configFolder'' \<mapsto> configFolder, ''certFolder'' \<mapsto> certFolder, ''caCertFile'' \<mapsto> caCertFile,
            ''serverCertFile'' \<mapsto> serverCertFile, ''serverKeyFile'' \<mapsto> serverKeyFile, ''mqttPortCert'' \<mapsto> show_int MqttPortCert,
            ''mqttPortWS'' \<mapsto> show_int MqttPortWS, ''mqttPortUnpw'' \<mapsto> show_int MqttPortUnpw]
      in execute_template params mqConfigTemplate)"

text \<open>
  \<open>tempDir\<close> is the folder the system makes for an empty name. \<open>ended\<close> is the error with which the broker could not be started or ended
  within the time the code waits. The result is the command line of the broker; a fatal message ends the process (\<open>Inl\<close>).
\<close>

definition StartMosquitto ::
    "('x, 'k, 'p) x509_lib \<Rightarrow> string \<Rightarrow> error option \<Rightarrow> ('x, 'k) test_certs \<Rightarrow> string \<Rightarrow> filesystem \<Rightarrow>
      ((error + string list) \<times> filesystem) outcome" where
  "StartMosquitto lib tempDir ended testCerts configFolder fs =
     (let configFolder = (if configFolder = [] then tempDir else configFolder) in
      bind_outcome (SaveCerts lib testCerts configFolder fs) (\<lambda>fs.
        let mosqConf = createMosquittoConf configFolder configFolder;
            mosqConfigPath = Join configFolder mosquittoConfigFile in
        case WriteFile mosqConfigPath mosqConf mode_0644 fs of
          (Some err, fs) \<Rightarrow> Ret (Inl (''Setup: Unable to write mosquitto config file: '' @ err), fs)
        | (None, fs) \<Rightarrow>
            (case ended of
               Some err \<Rightarrow> Ret (Inl (''Failed starting mosquitto: '' @ err), fs)
             | None \<Rightarrow> Ret (Inr [''mosquitto'', ''-c'', mosqConfigPath], fs))))"

text \<open>Stopping interrupts the process and removes the folder.\<close>

definition StopMosquitto :: "string \<Rightarrow> filesystem \<Rightarrow> filesystem" where
  "StopMosquitto tempFolder fs = (if tempFolder \<noteq> [] then RemoveAll tempFolder fs else fs)"

section \<open>The services\<close>

definition testAddress :: string where "testAddress = ''localhost''"
definition testPort :: nat where "testPort = 9882"

text \<open>The server and the paths it answers with an empty response. A nil certificate panics.\<close>

definition StartServices :: "('x, 'k, 'p) cert_maker \<Rightarrow> ('x, 'k) test_certs \<Rightarrow> (('x, 'p) http_server \<times> string list) outcome" where
  "StartServices cm certs =
     (case tcs_CaCert certs of
        None \<Rightarrow> Panic ExplicitPanic
      | Some caCert \<Rightarrow>
          (case tcs_ServerCert certs of
             None \<Rightarrow> Panic NilDereference
           | Some serverCert \<Rightarrow>
               Ret (\<lparr>hs_Addr = testAddress @ '':'' @ show_nat testPort,
                     hs_TLSConfig =
                       \<lparr>sf_Certificate = \<lparr>sc_ecdsaPublicKey =
                          (case tlc_PrivateKey serverCert of ECDSAKey k \<Rightarrow> Some (cm_Public cm k) | OtherKey _ \<Rightarrow> None)\<rparr>,
                        sf_ClientCAs = [caCert], sf_VerifyClientCertIfGiven = True, sf_MinVersion = VersionTLS12\<rparr>,
                     hs_AllowedHeaders = [], hs_AllowedMethods = [], hs_AllowCredentials = False, hs_shutdown = False\<rparr>,
                    [DefaultJWTLoginPath, DefaultJWTRefreshPath])))"

section \<open>What is saved\<close>

definition can_write :: "filesystem \<Rightarrow> bool" where
  "can_write fs \<longleftrightarrow> (\<forall>p. fs_writeError fs p = None)"

lemma write_read:
  "can_write fs \<Longrightarrow> \<exists>fs'. WriteFile p d m fs = (None, fs') \<and> can_write fs' \<and> (\<forall>q. ReadFile fs' q = (if q = p then Inr d else ReadFile fs q))"
  by (auto simp: can_write_def WriteFile_def ReadFile_def)

lemma save_key_read:
  assumes "can_write fs" and "xl_MarshalPKCS8PrivateKey lib k = Inr b"
  shows "\<exists>fs'. SaveKeysToPEM lib k p fs = (None, fs') \<and> can_write fs' \<and>
    (\<forall>q. ReadFile fs' q = (if q = p then Inr (xl_pemEncode lib ''PRIVATE KEY'' b) else ReadFile fs q))"
  using write_read [OF assms(1), of p "xl_pemEncode lib ''PRIVATE KEY'' b" mode_0600] assms(2) by (simp add: SaveKeys_cases)

lemma save_tls_read:
  assumes "can_write fs" and "xl_MarshalPKCS8PrivateKey lib k = Inr b"
  shows "\<exists>fs'. save_tls lib (Some \<lparr>tlc_Certificate = [der], tlc_PrivateKey = k\<rparr>) cp kp fs = Ret fs' \<and> can_write fs' \<and>
    (\<forall>q. ReadFile fs' q = (if q = kp then Inr (xl_pemEncode lib ''PRIVATE KEY'' b)
       else if q = cp then Inr (xl_pemEncode lib ''CERTIFICATE'' der) else ReadFile fs q))"
proof -
  from write_read [OF assms(1), of cp "xl_pemEncode lib ''CERTIFICATE'' der" mode_0644] obtain fs1 where
    1: "WriteFile cp (xl_pemEncode lib ''CERTIFICATE'' der) mode_0644 fs = (None, fs1)" "can_write fs1"
      "\<forall>q. ReadFile fs1 q = (if q = cp then Inr (xl_pemEncode lib ''CERTIFICATE'' der) else ReadFile fs q)" by blast
  from save_key_read [OF 1(2) assms(2), of kp] 1 show ?thesis by (auto simp: save_tls_def SaveTLSCertToPEM_def)
qed

text \<open>
  The documented behaviour of the libraries: parsing the bytes of a certificate gives the certificate; a key pair loads when the certificate
  was made for the public key of the private key; a certificate has the subject of its template.
\<close>

definition cert_encodings :: "('x, 'k, 'p) x509_lib \<Rightarrow> 'k key_pair \<Rightarrow> ('x, 'k, 'p) cert_maker \<Rightarrow> bool" where
  "cert_encodings lib pair cm \<longleftrightarrow>
     (\<forall>x. xl_ParseCertificate lib (xl_Raw lib x) = Inr x) \<and>
     (\<forall>t parent k s der b. cm_CreateCertificate cm t parent (cm_Public cm k) s = Inr der \<longrightarrow>
        xl_MarshalPKCS8PrivateKey lib (ECDSAKey k) = Inr b \<longrightarrow>
        pair (xl_pemEncode lib ''CERTIFICATE'' der) (xl_pemEncode lib ''PRIVATE KEY'' b)
          = Inr \<lparr>tlc_Certificate = [der], tlc_PrivateKey = ECDSAKey k\<rparr>)"

definition keeps_subject :: "('x \<Rightarrow> peer_cert) \<Rightarrow> ('x, 'k, 'p) x509_lib \<Rightarrow> ('x, 'k, 'p) cert_maker \<Rightarrow> bool" where
  "keeps_subject subject lib cm \<longleftrightarrow>
     (\<forall>t parent p k der. cm_CreateCertificate cm t parent p k = Inr der \<longrightarrow>
        (\<exists>x. xl_ParseCertificate lib der = Inr x \<and> subject x = ct_Subject t))"

lemma CreateTlsCert_Ret:
  assumes "CreateTlsCert lib cm cn ou srv k ca s = Ret cert"
  shows "\<exists>x der. ca = Some x \<and> cm_CreateCertificate cm (x509_template cm cn ou srv) (Some x) (cm_Public cm k) s = Inr der \<and>
    cert = Some \<lparr>tlc_Certificate = [der], tlc_PrivateKey = ECDSAKey k\<rparr>"
  using assms by (auto simp: CreateTlsCert_def CreateX509Cert_def map_outcome_Ret_iff split: option.splits sum.splits)

lemma bundle_parts:
  assumes "CreateCertBundle lib cm = Ret certs"
  shows "\<exists>x caKey sder sk pder pk. tcs_CaCert certs = Some x \<and> tcs_CaKey certs = Some caKey \<and>
    tcs_ServerCert certs = Some \<lparr>tlc_Certificate = [sder], tlc_PrivateKey = ECDSAKey sk\<rparr> \<and>
    tcs_PluginCert certs = Some \<lparr>tlc_Certificate = [pder], tlc_PrivateKey = ECDSAKey pk\<rparr> \<and>
    cm_CreateCertificate cm (x509_template cm ''Plugin'' OUPlugin False) (Some x) (cm_Public cm pk) caKey = Inr pder"
  using assms
  by (auto simp: CreateCertBundle_def Let_def bind_outcome_Ret_iff split: prod.splits dest!: CreateTlsCert_Ret)

definition cert_files :: "string list" where
  "cert_files = [caCertFile, caKeyFile, serverCertFile, serverKeyFile, pluginCertFile, pluginKeyFile]"

lemmas cert_file_defs = caCertFile_def caKeyFile_def serverCertFile_def serverKeyFile_def pluginCertFile_def pluginKeyFile_def

text \<open>What the files of the CA and of the plugin hold after saving.\<close>

lemma SaveCerts_reads:
  assumes "\<forall>k. \<exists>b. xl_MarshalPKCS8PrivateKey lib (ECDSAKey k) = Inr b" and "can_write fs" and d: "distinct (List.map (Join dir) cert_files)"
    and "tcs_CaCert certs = Some x" and "tcs_CaKey certs = Some caKey"
    and "tcs_ServerCert certs = Some \<lparr>tlc_Certificate = [sder], tlc_PrivateKey = ECDSAKey sk\<rparr>"
    and "tcs_PluginCert certs = Some \<lparr>tlc_Certificate = [pder], tlc_PrivateKey = ECDSAKey pk\<rparr>"
    and "xl_MarshalPKCS8PrivateKey lib (ECDSAKey pk) = Inr pb"
  shows "\<exists>fs'. SaveCerts lib certs dir fs = Ret fs' \<and>
    ReadFile fs' (Join dir caCertFile) = Inr (xl_pemEncode lib ''CERTIFICATE'' (xl_Raw lib x)) \<and>
    ReadFile fs' (Join dir pluginCertFile) = Inr (xl_pemEncode lib ''CERTIFICATE'' pder) \<and>
    ReadFile fs' (Join dir pluginKeyFile) = Inr (xl_pemEncode lib ''PRIVATE KEY'' pb)"
proof -
  from assms(1) obtain kb sb where
    k: "xl_MarshalPKCS8PrivateKey lib (ECDSAKey caKey) = Inr kb" "xl_MarshalPKCS8PrivateKey lib (ECDSAKey sk) = Inr sb" by meson
  let ?fs0 = "if \<not> Exists fs dir then snd (MkdirAll dir fs) else fs"
  have 0: "can_write ?fs0" using assms(2) by (simp add: can_write_def MkdirAll_def)
  from write_read [OF 0] obtain fs1 where 1: "SaveX509CertToPEM lib x (Join dir caCertFile) ?fs0 = (None, fs1)" "can_write fs1"
      "\<forall>q. ReadFile fs1 q = (if q = Join dir caCertFile then Inr (xl_pemEncode lib ''CERTIFICATE'' (xl_Raw lib x)) else ReadFile ?fs0 q)"
    unfolding SaveX509CertToPEM_def by blast
  from save_key_read [OF 1(2) k(1)] obtain fs2 where 2: "SaveKeysToPEM lib (ECDSAKey caKey) (Join dir caKeyFile) fs1 = (None, fs2)"
      "can_write fs2" "\<forall>q. ReadFile fs2 q = (if q = Join dir caKeyFile then Inr (xl_pemEncode lib ''PRIVATE KEY'' kb) else ReadFile fs1 q)"
    by blast
  from save_tls_read [OF 2(2) k(2), of sder "Join dir serverCertFile" "Join dir serverKeyFile"] obtain fs3 where
    3: "save_tls lib (tcs_ServerCert certs) (Join dir serverCertFile) (Join dir serverKeyFile) fs2 = Ret fs3" "can_write fs3"
      "\<forall>q. q \<noteq> Join dir serverKeyFile \<longrightarrow> q \<noteq> Join dir serverCertFile \<longrightarrow> ReadFile fs3 q = ReadFile fs2 q"
    unfolding assms(6) by auto
  from save_tls_read [OF 3(2) assms(8), of pder "Join dir pluginCertFile" "Join dir pluginKeyFile"] obtain fs4 where
    4: "save_tls lib (tcs_PluginCert certs) (Join dir pluginCertFile) (Join dir pluginKeyFile) fs3 = Ret fs4"
      "\<forall>q. ReadFile fs4 q = (if q = Join dir pluginKeyFile then Inr (xl_pemEncode lib ''PRIVATE KEY'' pb)
         else if q = Join dir pluginCertFile then Inr (xl_pemEncode lib ''CERTIFICATE'' pder) else ReadFile fs3 q)"
    unfolding assms(7) by blast
  have "SaveCerts lib certs dir fs = Ret fs4"
    by (simp only: SaveCerts_def Let_def assms(4,5) prod.case option.case 1(1) 2(1) snd_conv 3(1) 4(1) bind_outcome.simps)
  moreover have "ReadFile fs4 (Join dir caCertFile) = Inr (xl_pemEncode lib ''CERTIFICATE'' (xl_Raw lib x))"
    using 1(3) 2(3) 3(3) 4(2) d by (simp add: cert_files_def)
  moreover have "Join dir pluginCertFile \<noteq> Join dir pluginKeyFile" using d by (simp add: cert_files_def)
  ultimately show ?thesis using 4(2) by (intro exI [of _ fs4]) simp
qed

lemma default_cert_files:
  assumes "list_all plain_name ps" and "ps \<noteq> []" and "c = absolute_paths clientID (CreateHubConfig env (abs_path ps))"
  shows "hc_CertsFolder c = abs_path (ps @ [''certs''])" "hc_CaCertFile c = Join (hc_CertsFolder c) caCertFile"
    "hc_PluginCertFile c = Join (hc_CertsFolder c) pluginCertFile" "hc_PluginKeyFile c = Join (hc_CertsFolder c) pluginKeyFile"
    "distinct (List.map (Join (hc_CertsFolder c)) cert_files)"
proof -
  let ?dir = "abs_path (ps @ [''certs''])"
  have folder: "Join (abs_path ps) DefaultCertsFolder = ?dir"
    using Join_dot_plain [OF assms(1,2), of "''certs''"] plain_folders by (simp add: DefaultCertsFolder_def)
  have ne: "abs_path qs \<noteq> []" for qs by (simp add: abs_path_def)
  show f: "hc_CertsFolder c = ?dir"
    by (simp add: assms(3) absolute_paths_def Let_def CreateHubConfig_def folder folder_in_def ne)
  show "hc_CaCertFile c = Join (hc_CertsFolder c) caCertFile" "hc_PluginCertFile c = Join (hc_CertsFolder c) pluginCertFile"
      "hc_PluginKeyFile c = Join (hc_CertsFolder c) pluginKeyFile"
    by (simp_all add: assms(3) absolute_paths_def Let_def CreateHubConfig_def file_in_def DefaultCaCertFile_def
        DefaultPluginCertFile_def DefaultPluginKeyFile_def cert_file_defs)
  have "Join ?dir n = abs_path (ps @ [''certs'', n])" if "plain_name n" for n
    using Join_plain [of "ps @ [''certs'']" n] assms(1) plain_folders(1) that by simp
  moreover have "abs_path (ps @ [''certs'', n]) = abs_path (ps @ [''certs'', m]) \<longleftrightarrow> n = m" for n m
    using assms(2) by (simp add: abs_path_def join_with_append)
  ultimately show "distinct (List.map (Join (hc_CertsFolder c)) cert_files)"
    by (simp add: f cert_files_def cert_file_defs plain_name_def)
qed

text \<open>
  C30: The certificates of the test environment, saved in the folder of certificates of a configuration with default names, are those that
  loading the configuration finds: the CA and the plugin certificate with its key.
\<close>

theorem bundle_certs_loaded:
  assumes "key_encodings (ce_lib env)" and "cert_encodings (ce_lib env) (ce_pair env) cm"
    and "\<forall>k. \<exists>b. xl_MarshalPKCS8PrivateKey (ce_lib env) (ECDSAKey k) = Inr b"
    and "CreateCertBundle (ce_lib env) cm = Ret certs" and "can_write fs"
    and "list_all plain_name ps" and "ps \<noteq> []"
    and "c = absolute_paths clientID (CreateHubConfig env (abs_path ps))"
  shows "\<exists>fs'. SaveCerts (ce_lib env) certs (hc_CertsFolder c) fs = Ret fs' \<and>
    tcs_CaCert certs \<noteq> None \<and> hc_CaCert (load_certificates (env\<lparr>ce_fs := fs'\<rparr>) c) = tcs_CaCert certs \<and>
    tcs_PluginCert certs \<noteq> None \<and> hc_PluginCert (load_certificates (env\<lparr>ce_fs := fs'\<rparr>) c) = tcs_PluginCert certs"
proof -
  from bundle_parts [OF assms(4)] obtain x caKey sder sk pder pk where
    b: "tcs_CaCert certs = Some x" "tcs_CaKey certs = Some caKey"
      "tcs_ServerCert certs = Some \<lparr>tlc_Certificate = [sder], tlc_PrivateKey = ECDSAKey sk\<rparr>"
      "tcs_PluginCert certs = Some \<lparr>tlc_Certificate = [pder], tlc_PrivateKey = ECDSAKey pk\<rparr>"
      "cm_CreateCertificate cm (x509_template cm ''Plugin'' OUPlugin False) (Some x) (cm_Public cm pk) caKey = Inr pder"
    by blast
  from assms(3) obtain pb where pb: "xl_MarshalPKCS8PrivateKey (ce_lib env) (ECDSAKey pk) = Inr pb" by meson
  note files = default_cert_files [OF assms(6-8)]
  from SaveCerts_reads [OF assms(3,5) files(5) b(1-4) pb] obtain fs' where
    fs': "SaveCerts (ce_lib env) certs (hc_CertsFolder c) fs = Ret fs'"
      "ReadFile fs' (hc_CaCertFile c) = Inr (xl_pemEncode (ce_lib env) ''CERTIFICATE'' (xl_Raw (ce_lib env) x))"
      "ReadFile fs' (hc_PluginCertFile c) = Inr (xl_pemEncode (ce_lib env) ''CERTIFICATE'' pder)"
      "ReadFile fs' (hc_PluginKeyFile c) = Inr (xl_pemEncode (ce_lib env) ''PRIVATE KEY'' pb)"
    by (auto simp: files(2-4))
  have "hc_CaCert (load_certificates (env\<lparr>ce_fs := fs'\<rparr>) c) = Some x"
    using assms(1,2) by (simp add: load_certificates_def LoadX509CertFromPEM_def fs'(2) X509CertFromPEM_def key_encodings_def
        cert_encodings_def)
  moreover have "hc_PluginCert (load_certificates (env\<lparr>ce_fs := fs'\<rparr>) c) = tcs_PluginCert certs"
    using assms(2) b(5) pb
    by (simp add: load_certificates_def LoadTLSCertFromPEM_def LoadX509KeyPair_def fs'(3,4) b(4) cert_encodings_def)
  ultimately show ?thesis using fs'(1) b(1,4) by (intro exI [of _ fs']) simp
qed

text \<open>
  A library for the theory: a certificate is its subject in text, common name and organizational unit with a colon between them.
\<close>

definition text_subject :: "string \<Rightarrow> peer_cert" where
  "text_subject x =
     (case cut_colon x of
        None \<Rightarrow> \<lparr>pc_CommonName = x, pc_OrganizationalUnit = []\<rparr>
      | Some (cn, ou) \<Rightarrow> \<lparr>pc_CommonName = cn, pc_OrganizationalUnit = [ou]\<rparr>)"

definition text_maker :: "(string, string, string) cert_maker" where
  "text_maker =
     \<lparr>cm_CreateCertificate = (\<lambda>t parent p k.
        if CHR '':'' \<in> set (pc_CommonName (ct_Subject t)) then Inl ''unsupported''
        else case pc_OrganizationalUnit (ct_Subject t) of
          [] \<Rightarrow> Inr (pc_CommonName (ct_Subject t))
        | [ou] \<Rightarrow> Inr (pc_CommonName (ct_Subject t) @ '':'' @ ou)
        | _ \<Rightarrow> Inl ''unsupported''),
      cm_Public = id, cm_key = (\<lambda>n. ''key '' @ show_nat n), cm_now = 0\<rparr>"

definition text_pair :: "string key_pair" where
  "text_pair c k = Inr \<lparr>tlc_Certificate = [the (text_unpem c)], tlc_PrivateKey = text_key (the (text_unpem k))\<rparr>"

lemma cut_colon_first: "CHR '':'' \<notin> set s \<Longrightarrow> cut_colon (s @ CHR '':'' # r) = Some (s, r)" "CHR '':'' \<notin> set s \<Longrightarrow> cut_colon s = None"
  by (induction s) auto

lemma text_maker_laws: "cert_encodings text_lib text_pair text_maker" "keeps_subject text_subject text_lib text_maker"
proof -
  show "cert_encodings text_lib text_pair text_maker"
    by (auto simp: cert_encodings_def text_lib_def text_pair_def text_unpem_pem text_key_def)
  show "keeps_subject text_subject text_lib text_maker"
    unfolding keeps_subject_def
  proof (intro allI impI)
    fix t :: cert_template and parent :: "string option" and p k der :: string
    assume c: "cm_CreateCertificate text_maker t parent p k = Inr der"
    then have n: "CHR '':'' \<notin> set (pc_CommonName (ct_Subject t))" by (auto simp: text_maker_def split: if_splits)
    from c have "text_subject der = ct_Subject t"
      by (cases "ct_Subject t") (auto simp: text_maker_def text_subject_def cut_colon_first split: if_splits list.splits)
    then show "\<exists>x. xl_ParseCertificate text_lib der = Inr x \<and> text_subject x = ct_Subject t" by (simp add: text_lib_def)
  qed
qed

lemma text_bundle: "\<exists>certs. CreateCertBundle text_lib text_maker = Ret certs"
  by (simp add: CreateCertBundle_def CreateCA_def CreateTlsCert_def CreateX509Cert_def text_maker_def x509_template_def Let_def
      parsed_def text_lib_def)

lemma text_keys: "\<forall>k. \<exists>b. xl_MarshalPKCS8PrivateKey text_lib (ECDSAKey k) = Inr b"
  by (simp add: text_lib_def)

theorem bundle_certs_loaded_witness:
  "\<exists>certs fs'. CreateCertBundle text_lib text_maker = Ret certs \<and> SaveCerts text_lib certs ''/opt/wost/certs'' empty_disk = Ret fs' \<and>
     tcs_PluginCert certs \<noteq> None \<and>
     hc_PluginCert (load_certificates (wost_env\<lparr>ce_pair := text_pair, ce_fs := fs'\<rparr>)
       (absolute_paths ''p1'' (CreateHubConfig wost_env ''/opt/wost''))) = tcs_PluginCert certs"
proof -
  let ?env = "wost_env\<lparr>ce_pair := text_pair\<rparr>"
  have lib: "ce_lib ?env = text_lib" "ce_pair ?env = text_pair" by (simp_all add: wost_env_def)
  have ne: "[''opt'', ''wost''] \<noteq> []" by simp
  have fs: "can_write empty_disk" by (simp add: can_write_def empty_disk_def)
  obtain certs where c: "CreateCertBundle text_lib text_maker = Ret certs" using text_bundle by blast
  let ?c = "absolute_paths ''p1'' (CreateHubConfig ?env (abs_path [''opt'', ''wost'']))"
  have h: "CreateHubConfig ?env ''/opt/wost'' = CreateHubConfig wost_env ''/opt/wost''" by (simp add: CreateHubConfig_def wost_env_def)
  have f: "hc_CertsFolder (absolute_paths ''p1'' (CreateHubConfig wost_env ''/opt/wost'')) = ''/opt/wost/certs''"
    unfolding wost_home(1) default_cert_files(1) [OF wost_home(2) ne refl] by (simp add: abs_path_def)
  from bundle_certs_loaded [of ?env text_maker certs empty_disk "[''opt'', ''wost'']" ?c "''p1''"]
    text_lib_encodings text_maker_laws(1) text_keys c fs wost_home(2)
  show ?thesis unfolding lib by (auto simp: f wost_home(1) [symmetric] h)
qed

section \<open>A plugin of the test environment\<close>

text \<open>
  A request with the plugin certificate of the test environment has the organizational unit of a plugin, but is authenticated as the user
  Plugin and not as a plugin, which the authenticator recognises by the common name plugin.
\<close>

theorem plugin_bundle_user:
  assumes "keeps_subject subject lib cm" and "CreateCertBundle lib cm = Ret certs" and "tcs_PluginCert certs = Some cert"
    and "sq_TLS req = Some (List.map (\<lambda>der. subject (the (parsed lib der))) (tlc_Certificate cert))"
  shows "CertAuthenticate req = Ret (''Plugin'', True) \<and> GetClientOU req = Ret OUPlugin"
proof -
  from bundle_parts [OF assms(2)] assms(3) obtain x pder pk caKey where
    p: "cert = \<lparr>tlc_Certificate = [pder], tlc_PrivateKey = ECDSAKey pk\<rparr>"
      "cm_CreateCertificate cm (x509_template cm ''Plugin'' OUPlugin False) (Some x) (cm_Public cm pk) caKey = Inr pder"
    by auto
  with assms(1) obtain c where "xl_ParseCertificate lib pder = Inr c" "subject c = \<lparr>pc_CommonName = ''Plugin'', pc_OrganizationalUnit = [OUPlugin]\<rparr>"
    unfolding keeps_subject_def by (fastforce simp: x509_template_def)
  with p(1) assms(4) show ?thesis by (simp add: parsed_def CertAuthenticate_def GetClientOU_def Let_def)
qed

theorem plugin_bundle_user_witness:
  "\<exists>certs cert. CreateCertBundle text_lib text_maker = Ret certs \<and> tcs_PluginCert certs = Some cert \<and>
     CertAuthenticate \<lparr>sq_Method = ''GET'', sq_TLS = Some (List.map (\<lambda>der. text_subject (the (parsed text_lib der))) (tlc_Certificate cert)),
       sq_Authorization = [], sq_Query = Map.empty, sq_RemoteAddr = ''10.0.0.2''\<rparr> = Ret (''Plugin'', True)"
proof -
  obtain certs where c: "CreateCertBundle text_lib text_maker = Ret certs" using text_bundle by blast
  from bundle_parts [OF c] obtain cert where p: "tcs_PluginCert certs = Some cert" by auto
  from plugin_bundle_user [OF text_maker_laws(2) c p] c p show ?thesis by auto
qed

section \<open>The configuration of the broker\<close>

lemma html_plain: "\<forall>c \<in> set s. html_char c = [c] \<Longrightarrow> html_escape s = s"
  by (induction s) (simp_all add: html_escape_def)

text \<open>A folder with an ampersand in its name is written with the code that HTML has for it, so that the broker looks elsewhere.\<close>

lemma ampersand_escaped: "html_escape ''/tmp/a&b'' = ''/tmp/a&amp;b''"
  by code_simp

lemma execute_append: "execute_template params (ps @ qs) = execute_template params ps @ execute_template params qs"
  by (induction params ps rule: execute_template.induct) simp_all

lemma conf_ca_file:
  "\<exists>a b. createMosquittoConf configFolder certFolder = a @ ''cafile '' @ html_escape certFolder @ ''/caCert.pem'' @ b"
proof -
  let ?ca = "[Plain ''cafile '', Keyword ''certFolder'', Plain ''/'', Keyword ''caCertFile'']"
  have "mqConfigTemplate = take 3 mqConfigTemplate @ ?ca @ drop 7 mqConfigTemplate"
    by (simp add: mqConfigTemplate_def file_lines_def)
  then obtain pre post where t: "mqConfigTemplate = pre @ ?ca @ post" by blast
  have f: "html_escape caCertFile = ''caCert.pem''" by code_simp
  show ?thesis
    unfolding createMosquittoConf_def Let_def t execute_append
    by (rule exI, rule exI) (simp add: f)
qed

end
