(* ===== verification/Spec2Isabelle.thy ===== *)
theory Spec2Isabelle
  imports ThingID ThingStore InteractionOutput Topics MqttClient Accounts ConsumedFactory ExposedThing Home Locking Vocabulary WaitSignal TLSServer
    HubConfig Signing Discovery Watcher Logging TestEnv
begin

text \<open>
  A model of the Go client library of WoST (\<open>src/pkg\<close>), with which devices expose things to a hub and applications consume them.

  The program. A thing is described by a Thing Description (TD). A device exposes it (\<open>exposedthing\<close>): its property changes and events
  are published over MQTT, and action and write requests come in over MQTT. An application consumes it (\<open>consumedthing\<close>): it gets
  the values by MQTT and sends requests. Both go through the MQTT wrapper (\<open>mqttclient\<close>). Applications log in to the hub over HTTPS
  (\<open>tlsclient\<close>); services of the hub use the HTTPS server (\<open>tlsserver\<close>). Around these are the configuration of the hub (\<open>config\<close>),
  keys and certificates (\<open>certsclient\<close>), signed messages (\<open>signing\<close>), service discovery (\<open>discovery\<close>), network helpers (\<open>hubnet\<close>),
  the file watcher (\<open>watcher\<close>) and logging (\<open>logging\<close>).

  The theories, in the order they build on each other:

  \<^item> Prelude: errors, panics, maps that may be nil, the interface of keyed stores, transition systems. GoStrings: the functions of Go's
    packages strings and strconv. Base64, Files: the encoding, files and paths of the standard library. JsonText: JSON values, their printer and
    parser, with the proof that parsing inverts printing in compact and indented layout. GoValue: values of Go's \<open>interface{}\<close>, what encoding to
    JSON and decoding makes of them (\<open>canon\<close>), and tables whose contents are encoded.
  \<^item> ThingID (\<open>thing/thingid.go\<close>), ThingTD (\<open>thing/thingTD.go\<close> and the schema and affordance files), ThingStore
    (\<open>thing/ThingStore.go\<close>), InteractionOutput (\<open>thing/InteractionOutput.go\<close>): identifiers round-trip, the operations of a TD refine an abstract
    document of three maps, the store finds what was added last, values read back.
  \<^item> Topics (\<open>consumedthing/Topics.go\<close>) and MqttClient (\<open>mqttclient/MqttClient.go\<close>): topics round-trip; the connection loop ends; which handler a topic
    is routed to, after any calls on a connection and after a reconnect. The Paho library is the list of the calls made on it.
  \<^item> ConsumedThing (\<open>ConsumedThing.go\<close>, \<open>ConsumedThingProtocolBinding.go\<close>), TLSClient (\<open>tlsclient/TLSClient.go\<close>), Accounts, ConsumedFactory
    (\<open>ConsumedThingFactory.go\<close>), ThingFactory (the interface both factories keep), ExposedThing (\<open>exposedthing\<close>: thing, binding, factory): the
    operations with all their branches, the consistency of the factories in every reachable state, with the hooks of each thing, and the faults of
    login and reconnection. The transports of a process are a store of TLS configurations: all clients refer to the default transport, so that any
    calls on several clients leave all of them with one configuration.
  \<^item> Messaging: both factories with a broker between them, as one step relation, in which other clients publish too, any payload on any topic. In
    every reachable state, once the messages on their way have arrived, an application reads the value that was published last, and every value
    that a consumed thing holds has a type of JSON.
  \<^item> Requests: the way back, from the application to the device, as a second step relation on the same factories. Every request is delivered
    once and in the order sent, to the handler that the device has set when it arrives. Home: both directions at once, with handlers that emit, and with the events of other clients. The
    systems of Messaging and Requests are views of it, so that their invariants carry over; a property that the application writes
    is read back by it once all messages have arrived, in whatever order they do.
  \<^item> Locks, Locking: goroutines that run operations at once. Locks has Go's read-write mutexes, the step of one goroutine and what an orderly use of
    mutexes gives. Locking has, for each operation of TDs, the store, the MQTT client, things and factories, its mutexes and its accesses
    of shared variables in their order, by branch, and so for the goroutines that it starts: calls always complete unless a write handler takes the mutex of handlers or of the factory of exposed
    things, guarded variables have no races, a write handler that sets a handler blocks itself, and the variables on which two operations can race are
    exactly those that the code does not guard.
  \<^item> Vocabulary (\<open>vocab\<close>): its names can be used in thing IDs and topics. WaitSignal (\<open>proc\<close>).
  \<^item> Hubnet, TLSServer (\<open>tlsserver\<close>): the authenticators share the interface \<open>authenticator\<close>, which the chain of them keeps; who is served by a route, and that
    the requests of the client of this library are understood by the server.
  \<^item> CertsClient, YamlConfig, HubConfig, Signing, Discovery, Watcher, Logging: round trips of keys, messages and parameters, the paths of the
    configuration, substitution as a simultaneous replacement, debouncing as counting the quiet periods.
  \<^item> TestEnv (\<open>testenv\<close>): the certificates made for tests, which the configuration finds where they are saved and the server recognizes; the
    configuration file of the broker, with the escapes that its template adds.
  \<^item> This theory: properties that span components, from an operation on one thing to its effect on the other.

  How the state corresponds. A struct is a record with its fields in order; a pointer to an object shared by several others is a number that the factories
  look up in a table of objects. Functions that change state return the new state. An error is a text, \<open>None\<close> is nil; a panic is a value of
  \<open>outcome\<close>. A map that is ranged over comes with the order, which Go leaves open, as an argument. What an operation sends is a list of
  requests or calls in its result.

  Interfaces. \<open>keyed_store\<close> is interpreted on the tables of the TD, the value store and the handlers; \<open>thing_factory\<close> on both factories;
  \<open>single_subscriber\<close> on observers and subscribers; \<open>json_codec\<close> on both layouts of JSON; \<open>authenticator\<close> on the three authenticators and their chain;
  \<open>transition_system\<close> on the thing store, the MQTT connection, the consumed factory, the systems of Messaging (twice), Requests and Home and the watcher without a
  subscription; \<open>lock_discipline\<close> on the operations of the library, as \<open>library\<close>; \<open>settling\<close>, for systems that run out of work, on the messages of Home and, as a
  sublocale, on goroutines; \<open>table_field\<close> on the three maps of a TD.

  Bounds. The parser of JSON gets fuel by the length of its input, which its inverse theorem and \<open>json_parse_fuel\<close> show to be enough. The connection loop is
  a partial function without a result when it does not end; with a positive timeout it ends, as shown. A delivery of the messages on their way goes
  through the list of them and needs no fuel. Integers are unbounded where the code reads and
  prints decimal numbers within checked ranges; the integers of values are those up to \<open>2 ^ 53\<close> where they are decoded again, as Go decodes them to floats
  (\<open>goval_ok\<close>; \<open>marshal_ok\<close> is enough to encode); the port of a discovered service is a word of 64 bits.

  Arguments of the model, for code that is not part of the repository: Paho, the HTTP transport, the JWT and JOSE libraries, X.509 and PEM
  encodings, YAML, the router, DNS-SD, the broker, the network (\<open>dial\<close>), the operating system. Their laws are named hypotheses of the properties that need them
  (\<open>key_encodings\<close>, \<open>cert_encodings\<close>, \<open>keeps_subject\<close>, \<open>ecdsa_laws\<close>, \<open>jws_laws\<close>, \<open>jwe_laws\<close>, \<open>multi_level\<close>; \<open>reactive\<close> of the handlers of the application), and each such property has an instance in which they hold.

  Not modelled. Interleaving within an operation, other than in Locking: everywhere else an operation is one step. Log messages, except the text of the caller. The generation of random keys. The decisions of the CORS package
  beyond the function the server gives it. Changing an affordance through the pointer by which it was added to a TD.
\<close>

section \<open>From one thing to the other\<close>

text \<open>
  The exposed thing runs with the device, the consumed thing with the application; they share the TD and the broker. In the following an
  operation on one side publishes a message, and the message is handed to the binding of the other side, as the broker does.
\<close>

lemma object_text_reads:
  "goval_ok v \<Longrightarrow> json_unmarshal (object_text (to_json v) (SetPrettyPrint pretty client)) = Some (canon v)"
  using compact_codec.reads_back [of v] indent_codec.reads_back [of v]
  by (simp add: object_text_def SetPrettyPrint_def json_marshal_def json_marshal_indent_def)

lemma publishes_object:
  "mc_pahoClient client \<noteq> None \<Longrightarrow>
     PublishObject True answer topic object (SetPrettyPrint pretty client)
       = (answer, [PahoPublish topic (mc_pubQos client) False (object_text object (SetPrettyPrint pretty client))])"
  by (simp add: PublishObject_def Publish_def SetPrettyPrint_def)

lemma emit_publishes:
  assumes "GetProperty (et_TD e) name = Some pa" and "eb_td eb = et_TD e" and "et_EmitPropertyChangeHook e = Some b"
    and "mc_pahoClient client \<noteq> None"
  shows "EmitPropertyChange (\<lambda>_. et_binding_EmitPropertyChange True answer eb (SetPrettyPrint pretty client)) name v False e
      = Ret (answer, e\<lparr>et_valueStore := (et_valueStore e)(name \<mapsto> NewInteractionOutput v (Some (pa_DataSchema pa)))\<rparr>,
          [PahoPublish (event_topic (td_ID (et_TD e)) name) (mc_pubQos client) False (object_text (to_json v) (SetPrettyPrint pretty client))])"
  using assms(1-3) publishes_object [OF assms(4)]
  by (simp add: EmitPropertyChange_def et_binding_EmitPropertyChange_def event_topic_def Let_def)

lemma event_observed:
  assumes "cb_td cb = ct_TD c" and "GetProperty (ct_TD c) name = Some pa"
    and "json_unmarshal payload = Some (canon v)" and "no_slash (td_ID (ct_TD c))" and "no_slash name"
    and "subscriber c name \<noteq> Some None" and "observer c name = Some (Some l)"
  shows "\<exists>c' calls io. handleEvent cb (event_topic (td_ID (ct_TD c)) name) payload c = Ret (c', calls) \<and> (l, name, io) \<in> set calls \<and>
    io_Value io = read_as (pa_DataSchema pa) v \<and> fst (ReadProperty c' name) = Some io"
proof -
  let ?io = "NewInteractionOutputFromJson (Some payload) (Some (pa_DataSchema pa))"
  have pv: "property_value (ct_TD c) name payload = Some ?io" using assms(2) by (simp add: property_value_def)
  have "event_name (event_topic (td_ID (ct_TD c)) name) = Some name"
    using event_name_topic [OF assms(4,5)] by (simp add: event_topic_def)
  from handleEvent_eq [OF this assms(1), of payload] obtain c' calls where
    hc: "handleEvent cb (event_topic (td_ID (ct_TD c)) name) payload c = Ret (c', calls)"
      "c' = store_value name (Some ?io) (store_value name (event_value (ct_TD c) name payload) c)"
      "calls = listener_calls (subscriber c name) name (event_value (ct_TD c) name payload) @ [(l, name, ?io)]"
    using assms(6,7) by (simp add: pv listener_calls_def)
  moreover have "fst (ReadProperty c' name) = Some ?io" by (simp add: hc(2) ReadProperty_def getValue_store)
  moreover have "io_Value ?io = read_as (pa_DataSchema pa) v"
    by (simp add: from_json_payload payload_value_encoded [OF assms(3)])
  ultimately show ?thesis by auto
qed

text \<open>
  C6: A property change emitted by the exposed thing is published in one message. When the binding of a consumed thing with the
  same TD gets this message, the consumed thing reads the property as the value emitted, in the form JSON gives it, with integers up to
  \<open>2 ^ 53\<close>, and its observer is called with that value; a property with the schema of an object reads as nil, and nil is what its observer gets.
  The exposed thing itself keeps the value as it was emitted.
\<close>

theorem emitted_value_observed:
  assumes "et_TD e = td" and "ct_TD c = td" and "eb_td eb = td" and "cb_td cb = td"
    and "GetProperty td name = Some pa" and "goval_ok v"
    and "no_slash (td_ID td)" and "no_slash name"
    and "et_EmitPropertyChangeHook e = Some b" and "mc_pahoClient client \<noteq> None"
    and "subscriber c name \<noteq> Some None" and "observer c name = Some (Some l)"
  shows "\<exists>e' topic payload c' calls io.
    EmitPropertyChange (\<lambda>_. et_binding_EmitPropertyChange True answer eb (SetPrettyPrint pretty client)) name v False e
      = Ret (answer, e', [PahoPublish topic (mc_pubQos client) False payload]) \<and>
    map_option io_Value (GetValue e' name) = Some v \<and>
    handleEvent cb topic payload c = Ret (c', calls) \<and> (l, name, io) \<in> set calls \<and>
    io_Value io = (if object_schema (Some (pa_DataSchema pa)) then GNil else canon v) \<and>
    fst (ReadProperty c' name) = Some io"
proof -
  let ?payload = "object_text (to_json v) (SetPrettyPrint pretty client)"
  let ?e = "e\<lparr>et_valueStore := (et_valueStore e)(name \<mapsto> NewInteractionOutput v (Some (pa_DataSchema pa)))\<rparr>"
  have "EmitPropertyChange (\<lambda>_. et_binding_EmitPropertyChange True answer eb (SetPrettyPrint pretty client)) name v False e
      = Ret (answer, ?e, [PahoPublish (event_topic (td_ID td) name) (mc_pubQos client) False ?payload])"
    using emit_publishes [of e name pa eb b client] assms(1,3,5,9,10) by simp
  moreover have "map_option io_Value (GetValue ?e name) = Some v" by (simp add: GetValue_def NewInteractionOutput_def)
  moreover obtain c' calls io where "handleEvent cb (event_topic (td_ID td) name) ?payload c = Ret (c', calls)"
      "(l, name, io) \<in> set calls" "io_Value io = read_as (pa_DataSchema pa) v" "fst (ReadProperty c' name) = Some io"
    using event_observed [of cb c name pa ?payload v l] object_text_reads [OF assms(6), of pretty client] assms(2,4,5,7,8,11,12) by auto
  ultimately show ?thesis unfolding read_as_def by blast
qed

theorem emitted_value_observed_witness:
  "\<exists>e' topic payload c' calls io.
    EmitPropertyChange (\<lambda>_. et_binding_EmitPropertyChange True None \<lparr>eb_eThing = 0, eb_td = switch_td\<rparr> (SetPrettyPrint True online_client))
        ''on'' (GBool True) False switch
      = Ret (None, e', [PahoPublish topic (mc_pubQos online_client) False payload]) \<and>
    map_option io_Value (GetValue e' ''on'') = Some (GBool True) \<and>
    handleEvent \<lparr>cb_td = switch_td, cb_cThing = 0\<rparr> topic payload
      (snd (ObserveProperty ''on'' (Some (5 :: nat)) (CreateConsumedThing switch_td))) = Ret (c', calls) \<and>
    (5, ''on'', io) \<in> set calls \<and> io_Value io = canon (GBool True) \<and> fst (ReadProperty c' ''on'') = Some io"
proof -
  let ?c = "snd (ObserveProperty ''on'' (Some (5 :: nat)) (CreateConsumedThing switch_td))"
  have c: "ct_TD ?c = switch_td" "subscriber ?c ''on'' \<noteq> Some None" "observer ?c ''on'' = Some (Some 5)"
    by (simp_all add: ObserveProperty_def CreateConsumedThing_def subscriber_def observer_def)
  have m: "mc_pahoClient online_client \<noteq> None" by (simp add: online_client_def NewMqttClient_def)
  have t: "no_slash (td_ID switch_td)" "no_slash ''on''" "\<not> object_schema (Some (schema_lit ''On'' ''boolean'' False))"
    by (simp_all add: switch_td_fields no_slash_def object_schema_def schema_lit_def WoTDataTypeObject_def)
  have td: "eb_td \<lparr>eb_eThing = 0, eb_td = switch_td\<rparr> = switch_td" "cb_td \<lparr>cb_td = switch_td, cb_cThing = 0\<rparr> = switch_td" "goval_ok (GBool True)"
    by simp_all
  from emitted_value_observed [OF switch_fields(1) c(1) td(1,2) switch_td_fields(3) td(3) t(1,2) switch_fields(2) m c(2,3), of None True] t(3)
  show ?thesis by auto
qed

text \<open>
  C7: An action invoked on the consumed thing is published in one message. When the binding of an exposed thing with the same TD gets
  it, it calls its handler for the name, or its default handler, once with the value, in the form JSON gives it, with integers up to
  \<open>2 ^ 53\<close>; when the schema of the action's input is that of an object the handler gets nil. When the thing has neither handler,
  nothing is called, and the consumer is not told.
\<close>

theorem invoked_action_handled:
  assumes "et_TD e = td" and "ct_TD c = td" and "cb_td cb = td"
    and "GetAction td name = Some aa" and "goval_ok v"
    and "no_slash (td_ID td)" and "td_ID td \<noteq> []" and "no_slash name"
    and "ct_InvokeActionHook c = Some b" and "mc_pahoClient client \<noteq> None"
  shows "\<exists>topic payload.
    InvokeAction (\<lambda>_. binding_InvokeAction True answer cb (SetPrettyPrint pretty client)) name v c
      = (answer, [PahoPublish topic (mc_pubQos client) False payload]) \<and>
    map (\<lambda>(h, n, io). (h, n, io_Value io)) (handleActionRequest topic payload e)
      = (case pick_handler (et_actionHandlers e) name of
           None \<Rightarrow> []
         | Some h \<Rightarrow> [(h, name, if object_schema (Some (aa_Input aa)) then GNil else canon v)])"
proof -
  let ?topic = "thing_topic TopicInvokeAction (td_ID td) @ ''/'' @ name"
  let ?payload = "object_text (to_json v) (SetPrettyPrint pretty client)"
  have "InvokeAction (\<lambda>_. binding_InvokeAction True answer cb (SetPrettyPrint pretty client)) name v c
      = (answer, [PahoPublish ?topic (mc_pubQos client) False ?payload])"
    using assms(2-4,9) publishes_object [OF assms(10)] by (simp add: InvokeAction_def binding_InvokeAction_def)
  moreover have "io_Value (NewInteractionOutputFromJson (Some ?payload) (Some (aa_Input aa))) = read_as (aa_Input aa) v"
    by (simp add: from_json_payload payload_value_encoded [OF object_text_reads [OF assms(5)]])
  then have "map (\<lambda>(h, n, io). (h, n, io_Value io)) (handleActionRequest ?topic ?payload e)
      = (case pick_handler (et_actionHandlers e) name of None \<Rightarrow> [] | Some h \<Rightarrow> [(h, name, read_as (aa_Input aa) v)])"
    unfolding handle_topic [OF assms(6,8,7)] using assms(1,4)
    by (simp add: HandleActionRequest_def Let_def split: option.split)
  ultimately show ?thesis unfolding read_as_def by blast
qed

theorem invoked_action_handled_witness:
  "\<exists>e topic payload. SetActionHandler ''dim'' (Some (9 :: nat)) (CreateExposedThing ''dev1'' dimmer_td) = Ret e \<and>
    InvokeAction (\<lambda>_. binding_InvokeAction True None \<lparr>cb_td = dimmer_td, cb_cThing = 0\<rparr> (SetPrettyPrint False online_client))
      ''dim'' (GInt 42) dimmer = (None, [PahoPublish topic (mc_pubQos online_client) False payload]) \<and>
    map (\<lambda>(h, n, io). (h, n, io_Value io)) (handleActionRequest topic payload e) = [(9, ''dim'', GFloat (Dec 42 0))]"
proof -
  obtain e where e: "SetActionHandler ''dim'' (Some (9 :: nat)) (CreateExposedThing ''dev1'' dimmer_td) = Ret e"
      "et_TD e = dimmer_td" "pick_handler (et_actionHandlers e) ''dim'' = Some 9"
    by (simp add: SetActionHandler_def CreateExposedThing_def pick_handler_def)
  have d: "ct_InvokeActionHook dimmer = Some 1" "ct_TD dimmer = dimmer_td" "td_ID dimmer_td = ''urn:dimmer''"
    by (simp_all add: dimmer_def CreateConsumedThingProtocolBinding_def CreateConsumedThing_def dimmer_td_def CreateTD_def)
  obtain aa where aa: "GetAction dimmer_td ''dim'' = Some aa" "\<not> object_schema (Some (aa_Input aa))"
    by (simp add: dimmer_td_def CreateTD_def GetAction_def table_get_def object_schema_def schema_lit_def WoTDataTypeObject_def)
  have m: "mc_pahoClient online_client \<noteq> None" by (simp add: online_client_def NewMqttClient_def)
  have n: "norm_dec 42 0 = Dec 42 0" by (simp add: norm_dec.simps)
  from invoked_action_handled [OF e(2) d(2) _ aa(1) _ _ _ _ d(1) m, of "\<lparr>cb_td = dimmer_td, cb_cThing = 0\<rparr>" "GInt 42" None False] e aa(2)
  show ?thesis by (simp add: d(3) no_slash_def n)
qed

text \<open>
  C8: A property written on the consumed thing reaches the write handler of the exposed thing with the same TD in the same way, with integers up to
  \<open>2 ^ 53\<close> and also when its schema is that of an object, unless the property is read-only, when the request is sent and reported as sent but calls nothing.
\<close>

theorem written_property_handled:
  assumes "et_TD e = td" and "ct_TD c = td" and "cb_td cb = td"
    and "GetAction td name = None" and "GetProperty td name = Some pa" and "goval_ok v"
    and "no_slash (td_ID td)" and "td_ID td \<noteq> []" and "no_slash name"
    and "ct_WritePropertyHook c = Some b" and "mc_pahoClient client \<noteq> None" and "et_propertyWriteHandlers e \<noteq> None"
  shows "\<exists>topic payload.
    WriteProperty (\<lambda>_. binding_WriteProperty True answer cb (SetPrettyPrint pretty client)) name v c
      = (answer, [PahoPublish topic (mc_pubQos client) False payload]) \<and>
    map (\<lambda>(h, n, io). (h, n, io_Value io)) (handleActionRequest topic payload e)
      = (if ds_ReadOnly (pa_DataSchema pa) then []
         else case pick_handler (et_propertyWriteHandlers e) name of None \<Rightarrow> [] | Some h \<Rightarrow> [(h, name, canon v)])"
proof -
  let ?topic = "thing_topic TopicInvokeAction (td_ID td) @ ''/'' @ name"
  let ?payload = "object_text (to_json v) (SetPrettyPrint pretty client)"
  have "WriteProperty (\<lambda>_. binding_WriteProperty True answer cb (SetPrettyPrint pretty client)) name v c
      = (answer, [PahoPublish ?topic (mc_pubQos client) False ?payload])"
    using assms(2,3,10) publishes_object [OF assms(11)] by (simp add: WriteProperty_def binding_WriteProperty_def)
  moreover have "map (\<lambda>(h, n, io). (h, n, io_Value io)) (handleActionRequest ?topic ?payload e)
      = (if ds_ReadOnly (pa_DataSchema pa) then []
         else case pick_handler (et_propertyWriteHandlers e) name of None \<Rightarrow> [] | Some h \<Rightarrow> [(h, name, canon v)])"
    unfolding handle_topic [OF assms(7,9,8)] using assms(1,4,5,12) object_text_reads [OF assms(6), of pretty client]
    by (auto simp: HandleActionRequest_def handlePropertyWriteRequest_def NewInteractionOutput_def Let_def split: option.split)
  ultimately show ?thesis by blast
qed

theorem written_property_handled_witness:
  "\<exists>e topic payload. SetPropertyWriteHandler [] (Some (9 :: nat)) (CreateExposedThing ''dev1'' switch_td) = Ret e \<and>
    WriteProperty (\<lambda>_. binding_WriteProperty True None \<lparr>cb_td = switch_td, cb_cThing = 0\<rparr> (SetPrettyPrint False online_client))
      ''on'' (GBool False) (snd (CreateConsumedThingProtocolBinding 0 1 (CreateConsumedThing switch_td :: nat consumed_thing)))
      = (None, [PahoPublish topic (mc_pubQos online_client) False payload]) \<and>
    map (\<lambda>(h, n, io). (h, n, io_Value io)) (handleActionRequest topic payload e) = [(9, ''on'', GBool False)]"
proof -
  let ?c = "snd (CreateConsumedThingProtocolBinding 0 1 (CreateConsumedThing switch_td :: nat consumed_thing))"
  obtain e where e: "SetPropertyWriteHandler [] (Some (9 :: nat)) (CreateExposedThing ''dev1'' switch_td) = Ret e"
      "et_TD e = switch_td" "pick_handler (et_propertyWriteHandlers e) ''on'' = Some 9" "et_propertyWriteHandlers e \<noteq> None"
    by (simp add: SetPropertyWriteHandler_def CreateExposedThing_def pick_handler_def ptr_get_def)
  have c: "ct_WritePropertyHook ?c = Some 1" "ct_TD ?c = switch_td"
    by (simp_all add: CreateConsumedThingProtocolBinding_def CreateConsumedThing_def)
  have m: "mc_pahoClient online_client \<noteq> None" by (simp add: online_client_def NewMqttClient_def)
  from written_property_handled [OF e(2) c(2) _ switch_td_fields(2,3) _ _ _ _ c(1) m e(4),
      of "\<lparr>cb_td = switch_td, cb_cThing = 0\<rparr>" "GBool False" None False] e
  show ?thesis by (simp add: switch_td_fields no_slash_def)
qed

text \<open>
  A property written on the consumed thing comes back to it. When the write handler of the device emits the value it is given, the
  consumed thing gets it, in the form JSON gives it (nil, if the schema is that of an object), in its observer and in its store: four steps, each on what the one before returned.
\<close>

theorem written_value_returns:
  assumes "et_TD e = td" and "ct_TD c = td" and "eb_td eb = td" and "cb_td cb = td"
    and "GetAction td name = None" and "GetProperty td name = Some pa" and "\<not> ds_ReadOnly (pa_DataSchema pa)"
    and "goval_ok v" and "no_slash (td_ID td)" and "td_ID td \<noteq> []" and "no_slash name"
    and "ct_WritePropertyHook c = Some b" and "mc_pahoClient client \<noteq> None" and "pick_handler (et_propertyWriteHandlers e) name = Some h"
    and "et_EmitPropertyChangeHook e = Some d" and "subscriber c name \<noteq> Some None" and "observer c name = Some (Some l)"
  shows "\<exists>topic payload io e' topic2 payload2 c' calls io2.
    WriteProperty (\<lambda>_. binding_WriteProperty True answer cb (SetPrettyPrint pretty client)) name v c
      = (answer, [PahoPublish topic (mc_pubQos client) False payload]) \<and>
    handleActionRequest topic payload e = [(h, name, io)] \<and>
    EmitPropertyChange (\<lambda>_. et_binding_EmitPropertyChange True answer eb (SetPrettyPrint pretty client)) name (io_Value io) False e
      = Ret (answer, e', [PahoPublish topic2 (mc_pubQos client) False payload2]) \<and>
    handleEvent cb topic2 payload2 c = Ret (c', calls) \<and> (l, name, io2) \<in> set calls \<and>
    io_Value io2 = (if object_schema (Some (pa_DataSchema pa)) then GNil else canon v) \<and> fst (ReadProperty c' name) = Some io2"
proof -
  let ?topic = "thing_topic TopicInvokeAction (td_ID td) @ ''/'' @ name"
  let ?payload = "object_text (to_json v) (SetPrettyPrint pretty client)"
  let ?payload2 = "object_text (to_json (canon v)) (SetPrettyPrint pretty client)"
  let ?io = "NewInteractionOutput (canon v) (Some (pa_DataSchema pa))"
  have "WriteProperty (\<lambda>_. binding_WriteProperty True answer cb (SetPrettyPrint pretty client)) name v c
      = (answer, [PahoPublish ?topic (mc_pubQos client) False ?payload])"
    using assms(2,4,12) publishes_object [OF assms(13)] by (simp add: WriteProperty_def binding_WriteProperty_def)
  moreover have "et_propertyWriteHandlers e \<noteq> None" using assms(14) by (cases "et_propertyWriteHandlers e") (simp_all add: pick_handler_def ptr_get_def)
  then have "handleActionRequest ?topic ?payload e = [(h, name, ?io)]"
    unfolding handle_topic [OF assms(9,11,10)] using assms(1,5-7,14) object_text_reads [OF assms(8), of pretty client]
    by (simp add: HandleActionRequest_def handlePropertyWriteRequest_def Let_def)
  moreover have "io_Value ?io = canon v" by (simp add: NewInteractionOutput_def)
  then obtain e' where "EmitPropertyChange (\<lambda>_. et_binding_EmitPropertyChange True answer eb (SetPrettyPrint pretty client)) name (io_Value ?io) False e
      = Ret (answer, e', [PahoPublish (event_topic (td_ID td) name) (mc_pubQos client) False ?payload2])"
    using emit_publishes [of e name pa eb d client] assms(1,3,6,13,15) by simp
  moreover obtain c' calls io2 where "handleEvent cb (event_topic (td_ID td) name) ?payload2 c = Ret (c', calls)"
      "(l, name, io2) \<in> set calls" "io_Value io2 = read_as (pa_DataSchema pa) v" "fst (ReadProperty c' name) = Some io2"
    using event_observed [of cb c name pa ?payload2 "canon v" l] object_text_reads [OF canon_ok [OF assms(8)], of pretty client] assms(2,4,6,9,11,16,17)
    by auto
  ultimately show ?thesis unfolding read_as_def by blast
qed

theorem written_value_returns_witness:
  "\<exists>e c topic payload io e' topic2 payload2 c' calls io2.
    SetPropertyWriteHandler ''on'' (Some (9 :: nat)) switch = Ret e \<and> observer (c :: nat consumed_thing) ''on'' = Some (Some 5) \<and>
    WriteProperty (\<lambda>_. binding_WriteProperty True None \<lparr>cb_td = switch_td, cb_cThing = 0\<rparr> (SetPrettyPrint False online_client)) ''on'' (GBool True) c
      = (None, [PahoPublish topic (mc_pubQos online_client) False payload]) \<and>
    handleActionRequest topic payload e = [(9, ''on'', io)] \<and>
    EmitPropertyChange (\<lambda>_. et_binding_EmitPropertyChange True None \<lparr>eb_eThing = 0, eb_td = switch_td\<rparr> (SetPrettyPrint False online_client))
        ''on'' (io_Value io) False e
      = Ret (None, e', [PahoPublish topic2 (mc_pubQos online_client) False payload2]) \<and>
    handleEvent \<lparr>cb_td = switch_td, cb_cThing = 0\<rparr> topic2 payload2 c = Ret (c', calls) \<and> (5, ''on'', io2) \<in> set calls \<and>
    io_Value io2 = GBool True \<and> fst (ReadProperty c' ''on'') = Some io2"
proof -
  let ?c = "snd (ObserveProperty ''on'' (Some (5 :: nat)) (snd (CreateConsumedThingProtocolBinding 0 1 (CreateConsumedThing switch_td))))"
  have c: "ct_TD ?c = switch_td" "subscriber ?c ''on'' \<noteq> Some None" "observer ?c ''on'' = Some (Some 5)" "ct_WritePropertyHook ?c = Some 1"
    by (simp_all add: ObserveProperty_def CreateConsumedThingProtocolBinding_def CreateConsumedThing_def subscriber_def observer_def)
  obtain e where e: "SetPropertyWriteHandler ''on'' (Some (9 :: nat)) switch = Ret e" "et_TD e = switch_td"
      "pick_handler (et_propertyWriteHandlers e) ''on'' = Some 9" "et_EmitPropertyChangeHook e = Some 1"
    by (simp add: SetPropertyWriteHandler_def switch_def CreateExposedThingMqttBinding_def CreateExposedThing_def pick_handler_def ptr_get_def)
  have m: "mc_pahoClient online_client \<noteq> None" by (simp add: online_client_def NewMqttClient_def)
  have t: "no_slash (td_ID switch_td)" "no_slash ''on''" "\<not> object_schema (Some (schema_lit ''On'' ''boolean'' False))" "td_ID switch_td \<noteq> []"
    by (simp_all add: switch_td_fields no_slash_def object_schema_def schema_lit_def WoTDataTypeObject_def)
  from written_value_returns [OF e(2) c(1) _ _ switch_td_fields(2,3) _ _ t(1,4,2) c(4) m e(3,4) c(2,3),
      of "\<lparr>eb_eThing = 0, eb_td = switch_td\<rparr>" "\<lparr>cb_td = switch_td, cb_cThing = 0\<rparr>" "GBool True" None False] t(3)
  obtain topic payload io e' topic2 payload2 c' calls io2 where
    "WriteProperty (\<lambda>_. binding_WriteProperty True None \<lparr>cb_td = switch_td, cb_cThing = 0\<rparr> (SetPrettyPrint False online_client)) ''on'' (GBool True) ?c
      = (None, [PahoPublish topic (mc_pubQos online_client) False payload])"
    "handleActionRequest topic payload e = [(9, ''on'', io)]"
    "EmitPropertyChange (\<lambda>_. et_binding_EmitPropertyChange True None \<lparr>eb_eThing = 0, eb_td = switch_td\<rparr> (SetPrettyPrint False online_client))
        ''on'' (io_Value io) False e = Ret (None, e', [PahoPublish topic2 (mc_pubQos online_client) False payload2])"
    "handleEvent \<lparr>cb_td = switch_td, cb_cThing = 0\<rparr> topic2 payload2 ?c = Ret (c', calls)" "(5, ''on'', io2) \<in> set calls"
    "io_Value io2 = GBool True" "fst (ReadProperty c' ''on'') = Some io2"
    by (auto simp: switch_td_fields)
  with e(1) c(3) show ?thesis by blast
qed

end
